theory Spec2Isabelle
  imports Complex_Main "HOL-Library.AList" "HOL-Library.Char_ord" "HOL-Library.List_Lexorder"
    "HOL-Library.Log_Nat"
begin

section \<open>Data-parallel model construction (data\_parallel\_model.py)\<close>

text \<open>
  A shallow embedding of \<^verbatim>\<open>caffe2/python/data_parallel_model.py\<close>.
  Blob references are identified with their names (\<^verbatim>\<open>str(p)\<close>); equality of
  two references is equality of names. Python dictionaries are association lists that
  keep the insertion order of their keys; an \<^verbatim>\<open>OrderedDict\<close> is the same.
  Exceptions are values of the type \<open>error\<close>.
\<close>

subsection \<open>Strings\<close>

type_synonym blob = string

text \<open>\<^verbatim>\<open>scope._NAMESCOPE_SEPARATOR\<close>\<close>

definition NAMESCOPE_SEPARATOR :: char where
  "NAMESCOPE_SEPARATOR = CHR ''/''"

text \<open>\<^verbatim>\<open>s.startswith(pre)\<close>\<close>

fun startswith :: "string \<Rightarrow> string \<Rightarrow> bool" where
  "startswith s [] = True"
| "startswith [] (c # pre) = False"
| "startswith (x # s) (c # pre) = (x = c \<and> startswith s pre)"

text \<open>\<^verbatim>\<open>sub in s\<close> on strings\<close>

fun contains :: "string \<Rightarrow> string \<Rightarrow> bool" where
  "contains sub [] = (sub = [])"
| "contains sub (x # s) = (startswith (x # s) sub \<or> contains sub s)"

text \<open>\<^verbatim>\<open>s.rindex(c)\<close> for a one-character separator; \<open>None\<close> where Python raises
  \<^verbatim>\<open>ValueError\<close> (and where \<^verbatim>\<open>rfind\<close> returns \<open>-1\<close>).\<close>

fun rindex :: "string \<Rightarrow> char \<Rightarrow> nat option" where
  "rindex [] c = None"
| "rindex (x # s) c =
     (case rindex s c of
        Some i \<Rightarrow> Some (Suc i)
      | None \<Rightarrow> (if x = c then Some 0 else None))"

text \<open>\<^verbatim>\<open>s.replace(old, new)\<close> for a non-empty \<open>old\<close>: occurrences are replaced from
  left to right, without overlap. The first argument counts the characters of a matched
  occurrence that are still to be skipped.\<close>

fun replace_from :: "nat \<Rightarrow> string \<Rightarrow> string \<Rightarrow> string \<Rightarrow> string" where
  "replace_from k old new [] = []"
| "replace_from (Suc k) old new (x # s) = replace_from k old new s"
| "replace_from 0 old new (x # s) =
     (if startswith (x # s) old then new @ replace_from (length old - 1) old new s
      else x # replace_from 0 old new s)"

definition str_replace :: "string \<Rightarrow> string \<Rightarrow> string \<Rightarrow> string" where
  "str_replace s old new = replace_from 0 old new s"

text \<open>Decimal rendering of an integer, as \<^verbatim>\<open>"{}".format(i)\<close> does.\<close>

definition digit :: "nat \<Rightarrow> char" where
  "digit d =
     (if d = 0 then CHR ''0'' else if d = 1 then CHR ''1'' else if d = 2 then CHR ''2''
      else if d = 3 then CHR ''3'' else if d = 4 then CHR ''4'' else if d = 5 then CHR ''5''
      else if d = 6 then CHR ''6'' else if d = 7 then CHR ''7'' else if d = 8 then CHR ''8''
      else CHR ''9'')"

fun str_nat :: "nat \<Rightarrow> string" where
  "str_nat n = (if n < 10 then [digit n] else str_nat (n div 10) @ [digit (n mod 10)])"

definition str_int :: "int \<Rightarrow> string" where
  "str_int i = (if i < 0 then CHR ''-'' # str_nat (nat (- i)) else str_nat (nat i))"

text \<open>\<^verbatim>\<open>"gpu_{}".format(device)\<close> and \<^verbatim>\<open>"gpu_{}/".format(device)\<close>\<close>

definition gpu_name :: "int \<Rightarrow> string" where
  "gpu_name d = ''gpu_'' @ str_int d"

definition gpu_namescope :: "int \<Rightarrow> string" where
  "gpu_namescope d = ''gpu_'' @ str_int d @ ''/''"

subsection \<open>Operators, nets and errors\<close>

datatype device_type = CPU | CUDA

text \<open>\<^verbatim>\<open>core.DeviceOption(device_type, cuda_gpu_id)\<close>; the id defaults to 0.\<close>

record device_option =
  device_type :: device_type
  cuda_gpu_id :: int

definition DeviceOption :: "device_type \<Rightarrow> int \<Rightarrow> device_option" where
  "DeviceOption t i = \<lparr>device_type = t, cuda_gpu_id = i\<rparr>"

datatype arg_value = ArgInt int | ArgFloat rat | ArgStr string | ArgInts "int list"

text \<open>An \<^verbatim>\<open>OperatorDef\<close>: \<open>control_input\<close> is the keyword argument of the same name
  (\<open>None\<close> when the caller passes \<^verbatim>\<open>None\<close>), \<open>op_name\<close> the keyword \<^verbatim>\<open>name\<close>, \<open>op_args\<close> the
  remaining keyword arguments in the order written.\<close>

record operator =
  op_type :: string
  op_input :: "blob list"
  op_output :: "blob list"
  op_device :: device_option
  control_input :: "blob option"
  op_name :: string
  op_args :: "(string \<times> arg_value) list"

datatype error =
    AssertionError string
  | ZeroDivisionError
  | OverflowError
  | ValueError
  | KeyError
  | IndexError
  | TypeError
  | ScopeException blob string string operator
  | CallbackError string

subsection \<open>Parameter names\<close>

text \<open>\<^verbatim>\<open>stripParamName\<close>: \<^verbatim>\<open>"a/b/c/d" -> "d"\<close>; \<^verbatim>\<open>rindex\<close> raises when there is no
  separator.\<close>

definition stripParamName :: "blob \<Rightarrow> error + string" where
  "stripParamName param =
     (let name = param; sep = NAMESCOPE_SEPARATOR
      in case rindex name sep of
           None \<Rightarrow> Inl ValueError
         | Some i \<Rightarrow> Inr (drop (i + 1) name))"

text \<open>Modelled from the spec: \<^verbatim>\<open>BlobReference.GetNameScope\<close> of the \<^verbatim>\<open>core\<close> module is
  not part of the file; a handle's name is a namespace prefix followed by a canonical
  suffix, and the name scope is the prefix up to and including the last separator (empty
  when the name has none).\<close>

definition GetNameScope :: "blob \<Rightarrow> string" where
  "GetNameScope p =
     (case rindex p NAMESCOPE_SEPARATOR of None \<Rightarrow> [] | Some i \<Rightarrow> take (i + 1) p)"

subsection \<open>Grouping blobs by device\<close>

type_synonym device_table = "(int \<times> blob) list"
type_synonym grouped = "(string \<times> device_table) list"

text \<open>The two statements
  \<^verbatim>\<open>if name not in grouped: grouped[name] = {}\<close> and \<^verbatim>\<open>grouped[name][gpuid] = p\<close>.\<close>

definition grouped_put :: "string \<Rightarrow> int \<Rightarrow> blob \<Rightarrow> grouped \<Rightarrow> grouped" where
  "grouped_put name gpuid p grouped =
     AList.update name
       (AList.update gpuid p (case map_of grouped name of None \<Rightarrow> [] | Some t \<Rightarrow> t))
       grouped"

text \<open>The first loop of \<^verbatim>\<open>_GroupByDevice\<close>, from index \<open>i\<close> on.\<close>

fun group_loop ::
  "int list \<Rightarrow> nat \<Rightarrow> nat \<Rightarrow> blob list \<Rightarrow> grouped \<Rightarrow> error + grouped" where
  "group_loop devices num_params_per_device i [] grouped = Inr grouped"
| "group_loop devices num_params_per_device i (p # ps) grouped =
     (case stripParamName p of
        Inl e \<Rightarrow> Inl e
      | Inr name \<Rightarrow>
          if num_params_per_device = 0 then Inl ZeroDivisionError
          else if length devices \<le> i div num_params_per_device then Inl IndexError
          else
            let gpuid = devices ! (i div num_params_per_device)
            in if \<not> contains (gpu_namescope gpuid) (GetNameScope p)
               then Inl (AssertionError ''Param {} expected to have namescope gpu_{}'')
               else group_loop devices num_params_per_device (Suc i) ps
                      (grouped_put name gpuid p grouped))"

text \<open>The second loop (``confirm consistency''), from index \<open>j\<close> on.\<close>

fun check_loop :: "int list \<Rightarrow> blob list \<Rightarrow> nat \<Rightarrow> grouped \<Rightarrow> error + unit" where
  "check_loop devices params j [] = Inr ()"
| "check_loop devices params j ((p, ps) # rest) =
     (if length ps \<noteq> length devices
      then Inl (AssertionError ''Param {} does not have value for each device (only {}: {})'')
      else case devices of
             [] \<Rightarrow> Inl IndexError
           | d0 # _ \<Rightarrow>
               (case map_of ps d0 of
                  None \<Rightarrow> Inl KeyError
                | Some b \<Rightarrow>
                    if length params \<le> j then Inl IndexError
                    else if b \<noteq> params ! j then Inl (AssertionError [])
                    else check_loop devices params (Suc j) rest))"

definition GroupByDevice :: "int list \<Rightarrow> blob list \<Rightarrow> error + grouped" where
  "GroupByDevice devices params =
     (if length devices = 0 then Inl ZeroDivisionError
      else if length params mod length devices \<noteq> 0
      then Inl (AssertionError ''There should be equal number of params per device'')
      else
        let num_params_per_device = length params div length devices
        in case group_loop devices num_params_per_device 0 params [] of
             Inl e \<Rightarrow> Inl e
           | Inr grouped \<Rightarrow>
               (case check_loop devices params 0 grouped of
                  Inl e \<Rightarrow> Inl e
                | Inr _ \<Rightarrow> Inr grouped))"

subsection \<open>Device-scope analysis\<close>

text \<open>The inner loop of \<^verbatim>\<open>_AnalyzeOperators\<close> over \<^verbatim>\<open>list(op.input) + list(op.output)\<close>.\<close>

fun check_blobs :: "operator \<Rightarrow> string \<Rightarrow> blob list \<Rightarrow> error + unit" where
  "check_blobs op namescope [] = Inr ()"
| "check_blobs op namescope (inp # rest) =
     (if startswith inp ''gpu_'' \<and> \<not> startswith inp namescope
      then Inl (ScopeException inp (op_type op) namescope op)
      else check_blobs op namescope rest)"

fun AnalyzeOperators :: "operator list \<Rightarrow> error + unit" where
  "AnalyzeOperators [] = Inr ()"
| "AnalyzeOperators (op # ops) =
     (if contains ''NCCL'' (op_type op) \<or> contains ''Copy'' (op_type op)
      then AnalyzeOperators ops
      else
        let op_dev = op_device op; op_gpu = cuda_gpu_id op_dev
        in if device_type op_dev = CPU then AnalyzeOperators ops
           else
             let namescope = gpu_namescope op_gpu
             in case check_blobs op namescope (op_input op @ op_output op) of
                  Inl e \<Rightarrow> Inl e
                | Inr _ \<Rightarrow> AnalyzeOperators ops)"

subsection \<open>Nets, the model object and the workspace\<close>

text \<open>A \<^verbatim>\<open>NetDef\<close>: its name, operators, \<^verbatim>\<open>num_workers\<close>, \<^verbatim>\<open>type\<close>, arguments and the
  net-wide device option that \<^verbatim>\<open>RunAllOnGPU\<close> sets.\<close>

record net =
  proto_name :: string
  proto_op :: "operator list"
  proto_num_workers :: int
  proto_type :: string
  proto_arg :: "(string \<times> arg_value) list"
  proto_device_option :: "device_option option"

text \<open>Modelled from the spec: \<^verbatim>\<open>core.Net(name)\<close> and \<^verbatim>\<open>Net.RunAllOnGPU\<close> of the
  \<^verbatim>\<open>core\<close> module are not part of the file; a new net is an empty graph carrying the
  name, and \<^verbatim>\<open>RunAllOnGPU\<close> places the whole net on CUDA device 0.\<close>

definition Net :: "string \<Rightarrow> net" where
  "Net name = \<lparr>proto_name = name, proto_op = [], proto_num_workers = 0, proto_type = [],
     proto_arg = [], proto_device_option = None\<rparr>"

definition RunAllOnGPU :: "net \<Rightarrow> net" where
  "RunAllOnGPU n = n\<lparr>proto_device_option := Some (DeviceOption CUDA 0)\<rparr>"

text \<open>The rendezvous dictionary with its four keys.\<close>

record rendezvous =
  kv_handler :: blob
  num_shards :: int
  shard_id :: int
  engine :: string

text \<open>What a caller's builder function may return.\<close>

datatype pyval = PyList "pyval list" | PyBlob blob | PyOther

datatype ws_event = RunNetOnce net | CreateNet net | RunNet string

text \<open>
  The mutable state: the attributes of the model helper object (\<open>m_\<close>), the local net
  \<^verbatim>\<open>checkpoint_init_net\<close> of \<^verbatim>\<open>FinalizeAfterCheckpoint\<close>, and the calls made to the
  workspace. \<open>has_checkpoint_net\<close> is \<^verbatim>\<open>hasattr(model, "_checkpoint_net")\<close>.
\<close>

record state =
  m_net :: net
  m_param_init_net :: net
  m_params :: "blob list"
  m_computed_params :: "blob list"
  m_param_to_grad :: "(blob \<times> blob) list"
  m_devices :: "int list"
  m_rendezvous :: "rendezvous option"
  m_grad_names :: "string list"
  m_device_grouped_blobs :: grouped
  m_param_names :: "string list"
  m_computed_param_names :: "string list"
  has_checkpoint_net :: bool
  m_checkpoint_net :: net
  checkpoint_init_net :: net
  workspace_log :: "ws_event list"

text \<open>Nets are objects: a procedure that is handed a net is handed a reference to it.\<close>

datatype net_ref = ModelNet | ParamInitNet | CheckpointNet | CheckpointInitNet

fun get_net :: "net_ref \<Rightarrow> state \<Rightarrow> net" where
  "get_net ModelNet s = m_net s"
| "get_net ParamInitNet s = m_param_init_net s"
| "get_net CheckpointNet s = m_checkpoint_net s"
| "get_net CheckpointInitNet s = checkpoint_init_net s"

fun put_net :: "net_ref \<Rightarrow> net \<Rightarrow> state \<Rightarrow> state" where
  "put_net ModelNet n s = s\<lparr>m_net := n\<rparr>"
| "put_net ParamInitNet n s = s\<lparr>m_param_init_net := n\<rparr>"
| "put_net CheckpointNet n s = s\<lparr>m_checkpoint_net := n\<rparr>"
| "put_net CheckpointInitNet n s = s\<lparr>checkpoint_init_net := n\<rparr>"

text \<open>Modelled from the spec: the operator-creating methods \<^verbatim>\<open>net.<OpType>(inputs, outputs,
  **kwargs)\<close> of the \<^verbatim>\<open>core\<close> module are not part of the file; each inserts one operator
  of that type at the end of the net, placed on the device of the enclosing
  \<^verbatim>\<open>DeviceScope\<close>, and returns its output. The procedures of this file call them outside
  any name scope, so blob names are taken as written.\<close>

definition mk_op ::
  "string \<Rightarrow> blob list \<Rightarrow> blob list \<Rightarrow> device_option \<Rightarrow> blob option \<Rightarrow> string \<Rightarrow>
   (string \<times> arg_value) list \<Rightarrow> operator" where
  "mk_op t ins outs dev ctrl nm args =
     \<lparr>op_type = t, op_input = ins, op_output = outs, op_device = dev, control_input = ctrl,
      op_name = nm, op_args = args\<rparr>"

definition add_op :: "net_ref \<Rightarrow> operator \<Rightarrow> state \<Rightarrow> state" where
  "add_op r op s = put_net r ((get_net r s)\<lparr>proto_op := proto_op (get_net r s) @ [op]\<rparr>) s"

text \<open>A procedure mutates the state and either returns or raises; the state it leaves
  behind is kept in both cases.\<close>

type_synonym proc = "state \<Rightarrow> error option \<times> state"

definition and_then :: "proc \<Rightarrow> proc \<Rightarrow> proc" where
  "and_then p q s = (case p s of (Some e, s') \<Rightarrow> (Some e, s') | (None, s') \<Rightarrow> q s')"

text \<open>\<^verbatim>\<open>for x in xs: body(x)\<close>\<close>

fun for_each :: "('a \<Rightarrow> proc) \<Rightarrow> 'a list \<Rightarrow> proc" where
  "for_each body [] s = (None, s)"
| "for_each body (x # xs) s =
     (case body x s of (Some e, s') \<Rightarrow> (Some e, s') | (None, s') \<Rightarrow> for_each body xs s')"

subsection \<open>Broadcast and parameter synchronisation\<close>

text \<open>\<^verbatim>\<open>_Broadcast\<close>: the body of its loop, then the procedure.\<close>

definition Broadcast_body :: "net_ref \<Rightarrow> string \<Rightarrow> int \<Rightarrow> int \<Rightarrow> proc" where
  "Broadcast_body nt param master_gpu gpu_idx s =
     (let device_opt = DeviceOption CUDA gpu_idx
      in case map_of (m_device_grouped_blobs s) param of
           None \<Rightarrow> (Some KeyError, s)
         | Some tbl \<Rightarrow>
             (case map_of tbl master_gpu of
                None \<Rightarrow> (Some KeyError, s)
              | Some src \<Rightarrow>
                  (case map_of tbl gpu_idx of
                     None \<Rightarrow> (Some KeyError, s)
                   | Some dst \<Rightarrow>
                       (None, add_op nt (mk_op ''Copy'' [src] [dst] device_opt None [] []) s))))"

definition Broadcast :: "int list \<Rightarrow> net_ref \<Rightarrow> string \<Rightarrow> proc" where
  "Broadcast devices nt param s =
     (case devices of
        [] \<Rightarrow> (Some IndexError, s)
      | master_gpu # others \<Rightarrow> for_each (Broadcast_body nt param master_gpu) others s)"

definition SyncParams :: "int list \<Rightarrow> net_ref \<Rightarrow> string list option \<Rightarrow> proc" where
  "SyncParams devices nt unique_param_names s =
     (let names = (case unique_param_names of None \<Rightarrow> m_param_names s | Some ns \<Rightarrow> ns)
      in for_each (Broadcast devices nt) names s)"

text \<open>\<^verbatim>\<open>_AddDistributedParameterSync\<close>: the operator that forms a communication group, the
  body of the loop over the sorted names, then the procedure.\<close>

definition CreateCommonWorld :: "rendezvous \<Rightarrow> string \<Rightarrow> string \<Rightarrow> device_option \<Rightarrow> operator" where
  "CreateCommonWorld rdv out nm dev =
     mk_op ''CreateCommonWorld'' [kv_handler rdv] [out] dev None nm
       [(''size'', ArgInt (num_shards rdv)), (''rank'', ArgInt (shard_id rdv)),
        (''engine'', ArgStr (engine rdv))]"

definition param_sync_body ::
  "int \<Rightarrow> net_ref \<Rightarrow> net_ref \<Rightarrow> rendezvous \<Rightarrow> string \<Rightarrow> proc" where
  "param_sync_body d0 init_net nt rdv param_name s =
     (let device_opt = DeviceOption CUDA d0; cpu = DeviceOption CPU 0
      in case map_of (m_device_grouped_blobs s) param_name of
           None \<Rightarrow> (Some KeyError, s)
         | Some tbl \<Rightarrow>
             (case map_of tbl d0 of
                None \<Rightarrow> (Some KeyError, s)
              | Some param \<Rightarrow>
                  let param_cpu = param @ ''cpu'';
                      s1 = add_op nt (mk_op ''CopyGPUToCPU'' [param] [param_cpu] device_opt None [] []) s;
                      comm_world = param_name @ ''_cw'';
                      s2 = add_op init_net
                             (CreateCommonWorld rdv comm_world
                                (proto_name (get_net nt s1) @ ''.'' @ param_name @ ''_cw_op'') cpu) s1;
                      s3 = add_op nt
                             (mk_op ''Broadcast'' [comm_world, param_cpu] [param_cpu] cpu None []
                                [(''engine'', ArgStr (engine rdv))]) s2;
                      s4 = add_op nt (mk_op ''CopyCPUToGPU'' [param_cpu] [param] device_opt None [] []) s3
                  in (None, s4)))"

definition AddDistributedParameterSync ::
  "int list \<Rightarrow> net_ref \<Rightarrow> net_ref \<Rightarrow> rendezvous \<Rightarrow> string list option \<Rightarrow> proc" where
  "AddDistributedParameterSync devices init_net nt rdv uniq_param_names s =
     (let names = (case uniq_param_names of None \<Rightarrow> m_param_names s | Some ns \<Rightarrow> ns)
      in case devices of
           [] \<Rightarrow> (Some IndexError, s)
         | d0 # _ \<Rightarrow>
             let cpu = DeviceOption CPU 0;
                 comm_world = ''iter_cw'';
                 s1 = add_op init_net
                        (CreateCommonWorld rdv comm_world
                           (proto_name (get_net nt s) @ ''.iter_cw_op'') cpu) s;
                 iter = gpu_name d0 @ ''/ITER'';
                 s2 = add_op nt
                        (mk_op ''Broadcast'' [comm_world, iter] [iter] cpu None []
                           [(''engine'', ArgStr (engine rdv))]) s1
             in for_each (param_sync_body d0 init_net nt rdv) (sort names) s2)"

subsection \<open>Gradient synchronisation\<close>

text \<open>\<^verbatim>\<open>_GetReverseOrderedGrads\<close>\<close>

definition GetReverseOrderedGrads :: "state \<Rightarrow> string list" where
  "GetReverseOrderedGrads s = rev (m_grad_names s)"

text \<open>Python's \<^verbatim>\<open>xs[i]\<close> and \<^verbatim>\<open>xs[i] = v\<close> on a list, with negative indices counting from
  the end; and \<^verbatim>\<open>a % b\<close> on integers.\<close>

definition list_get :: "'a list \<Rightarrow> int \<Rightarrow> error + 'a" where
  "list_get xs i =
     (let n = int (length xs)
      in if 0 \<le> i \<and> i < n then Inr (xs ! nat i)
         else if - n \<le> i \<and> i < 0 then Inr (xs ! nat (n + i))
         else Inl IndexError)"

definition list_set :: "'a list \<Rightarrow> int \<Rightarrow> 'a \<Rightarrow> error + 'a list" where
  "list_set xs i v =
     (let n = int (length xs)
      in if 0 \<le> i \<and> i < n then Inr (xs[nat i := v])
         else if - n \<le> i \<and> i < 0 then Inr (xs[nat (n + i) := v])
         else Inl IndexError)"

definition py_mod :: "int \<Rightarrow> int \<Rightarrow> error + int" where
  "py_mod a b = (if b = 0 then Inl ZeroDivisionError else Inr (a mod b))"

text \<open>The control input of the cross-host all-reduce:
  \<^verbatim>\<open>None if len(cyclical_controls) < num_controls else cyclical_controls[counter % num_controls]\<close>.\<close>

definition pick_control :: "blob list \<Rightarrow> int \<Rightarrow> int \<Rightarrow> error + blob option" where
  "pick_control cyclical_controls counter num_controls =
     (if int (length cyclical_controls) < num_controls then Inr None
      else case py_mod counter num_controls of
             Inl e \<Rightarrow> Inl e
           | Inr i \<Rightarrow> (case list_get cyclical_controls i of Inl e \<Rightarrow> Inl e | Inr c \<Rightarrow> Inr (Some c)))"

text \<open>The update of the window after the all-reduce:
  append while it is shorter than \<^verbatim>\<open>num_controls\<close>, overwrite cyclically afterwards.\<close>

definition store_control :: "blob list \<Rightarrow> int \<Rightarrow> int \<Rightarrow> blob \<Rightarrow> error + blob list" where
  "store_control cyclical_controls counter num_controls reduced_grad =
     (if int (length cyclical_controls) < num_controls then Inr (cyclical_controls @ [reduced_grad])
      else case py_mod counter num_controls of
             Inl e \<Rightarrow> Inl e
           | Inr i \<Rightarrow> list_set cyclical_controls i reduced_grad)"

text \<open>The locals that the loop of \<^verbatim>\<open>_AllReduceGradientsDistributed\<close> carries from one
  gradient to the next: \<^verbatim>\<open>cyclical_controls\<close>, \<^verbatim>\<open>counter\<close> and \<^verbatim>\<open>nccl_control_blob\<close>.\<close>

type_synonym dist_locals = "blob list \<times> int \<times> blob option"

text \<open>One iteration of that loop, up to and including \<^verbatim>\<open>counter += 1\<close>; the local
  broadcast that ends the iteration is in the loop below.\<close>

definition allreduce_distributed_body ::
  "int \<Rightarrow> rendezvous \<Rightarrow> int \<Rightarrow> string \<Rightarrow> dist_locals \<Rightarrow> state \<Rightarrow> (error + dist_locals) \<times> state" where
  "allreduce_distributed_body d0 rdv num_controls grad_name locals s =
     (case locals of (cyclical_controls, counter, nccl_control_blob) \<Rightarrow>
      let all_reduce_engine = engine rdv;
          master_device_opt = DeviceOption CUDA d0;
          reducing_device_opt =
            (if all_reduce_engine = ''RDMA_TCP'' then DeviceOption CPU 0 else master_device_opt)
      in (case map_of (m_device_grouped_blobs s) grad_name of
           None \<Rightarrow> (Inl KeyError, s)
         | Some tbl \<Rightarrow>
        (case map_of tbl d0 of
           None \<Rightarrow> (Inl KeyError, s)
         | Some master_grad \<Rightarrow>
        let grads_group = map snd tbl
        in if master_grad \<notin> set grads_group then (Inl (AssertionError []), s)
           else
        let reduced_grad = master_grad @ ''_red'';
            s1 = add_op ModelNet
                   (mk_op ''ConstantFill'' [master_grad] [reduced_grad] master_device_opt None []
                      [(''value'', ArgFloat 0)]) s;
            s2 = add_op ModelNet
                   (mk_op ''NCCLAllreduce'' grads_group grads_group master_device_opt
                      nccl_control_blob [] []) s1
        in (case grads_group of
             [] \<Rightarrow> (Inl IndexError, s2)
           | g0 # _ \<Rightarrow>
        let nccl_control_blob' = Some g0;
            s3 = add_op ModelNet
                   (mk_op ''Copy'' [master_grad] [reduced_grad] master_device_opt None [] []) s2;
            s4 = (if all_reduce_engine = ''RDMA_TCP''
                  then add_op ModelNet
                         (mk_op ''CopyGPUToCPU'' [reduced_grad] [reduced_grad @ ''cpu'']
                            master_device_opt None [] [])
                         (add_op ParamInitNet
                            (mk_op ''CopyGPUToCPU'' [str_replace master_grad ''_grad'' '''']
                               [reduced_grad @ ''cpu''] master_device_opt None [] [])
                            (add_op ParamInitNet
                               (mk_op ''ConstantFill'' [] [reduced_grad @ ''cpu'']
                                  reducing_device_opt None []
                                  [(''shape'', ArgInts [1]), (''value'', ArgFloat 0)]) s3))
                  else s3);
            reduced_grad' =
              (if all_reduce_engine = ''RDMA_TCP'' then reduced_grad @ ''cpu'' else reduced_grad)
        in (case pick_control cyclical_controls counter num_controls of
             Inl e \<Rightarrow> (Inl e, s4)
           | Inr ctrl \<Rightarrow>
        let comm_world = grad_name @ ''_cw'';
            s5 = add_op ParamInitNet
                   (CreateCommonWorld rdv comm_world (grad_name @ ''_cw_op'') reducing_device_opt) s4;
            s6 = add_op ModelNet
                   (mk_op ''Allreduce'' [comm_world, reduced_grad'] [reduced_grad']
                      reducing_device_opt ctrl [] [(''engine'', ArgStr all_reduce_engine)]) s5;
            s7 = (if reducing_device_opt \<noteq> master_device_opt
                  then add_op ModelNet
                         (mk_op ''CopyCPUToGPU'' [reduced_grad'] [master_grad]
                            master_device_opt None [] []) s6
                  else add_op ModelNet
                         (mk_op ''Copy'' [reduced_grad'] [master_grad]
                            master_device_opt None [] []) s6)
        in (case store_control cyclical_controls counter num_controls reduced_grad' of
             Inl e \<Rightarrow> (Inl e, s7)
           | Inr cyclical_controls' \<Rightarrow>
               (Inr (cyclical_controls', counter + 1, nccl_control_blob'), s7)))))))"

fun allreduce_distributed_loop ::
  "int list \<Rightarrow> int \<Rightarrow> rendezvous \<Rightarrow> int \<Rightarrow> string list \<Rightarrow> dist_locals \<Rightarrow> proc" where
  "allreduce_distributed_loop devices d0 rdv num_controls [] locals s = (None, s)"
| "allreduce_distributed_loop devices d0 rdv num_controls (grad_name # rest) locals s =
     (case allreduce_distributed_body d0 rdv num_controls grad_name locals s of
        (Inl e, s') \<Rightarrow> (Some e, s')
      | (Inr locals', s') \<Rightarrow>
          (case Broadcast devices ModelNet grad_name s' of
             (Some e, s'') \<Rightarrow> (Some e, s'')
           | (None, s'') \<Rightarrow>
               allreduce_distributed_loop devices d0 rdv num_controls rest locals' s''))"

definition AllReduceGradientsDistributed :: "int list \<Rightarrow> rendezvous \<Rightarrow> proc" where
  "AllReduceGradientsDistributed devices rdv s =
     (let num_workers = proto_num_workers (m_net s)
      in if \<not> num_workers > 1 then (Some (AssertionError ''Please specify more than 1 worker''), s)
         else
           let reverse_ordered_grads = GetReverseOrderedGrads s
           in case devices of
                [] \<Rightarrow> (Some IndexError, s)
              | d0 # _ \<Rightarrow>
                  let num_controls = min 4 (num_workers - 1)
                  in allreduce_distributed_loop devices d0 rdv num_controls
                       reverse_ordered_grads ([], 0, None) s)"

text \<open>\<^verbatim>\<open>_AllReduceGradientsSingleHost\<close>: its loop, carrying \<^verbatim>\<open>last_out\<close>, then the procedure.\<close>

fun allreduce_single_loop ::
  "int list \<Rightarrow> device_option \<Rightarrow> string list \<Rightarrow> blob option \<Rightarrow> proc" where
  "allreduce_single_loop devices master_device_opt [] last_out s = (None, s)"
| "allreduce_single_loop devices master_device_opt (grad_name # rest) last_out s =
     (case map_of (m_device_grouped_blobs s) grad_name of
        None \<Rightarrow> (Some KeyError, s)
      | Some tbl \<Rightarrow>
          let grads_group = map snd tbl
          in if length grads_group \<noteq> length devices
             then (Some (AssertionError ''Each GPU from {}, should have a copy of {}.''), s)
             else
               let s1 = add_op ModelNet
                          (mk_op ''NCCLAllreduce'' grads_group grads_group master_device_opt
                             last_out [] []) s
               in (case grads_group of
                     [] \<Rightarrow> (Some IndexError, s1)
                   | g0 # _ \<Rightarrow> allreduce_single_loop devices master_device_opt rest (Some g0) s1))"

definition AllReduceGradientsSingleHost :: "int list \<Rightarrow> proc" where
  "AllReduceGradientsSingleHost devices s =
     (if length devices = 1 then (None, s)
      else
        let reverse_ordered_grads = GetReverseOrderedGrads s
        in case devices of
             [] \<Rightarrow> (Some IndexError, s)
           | d0 # _ \<Rightarrow>
               allreduce_single_loop devices (DeviceOption CUDA d0) reverse_ordered_grads None s)"

definition AllReduceGradients :: "int list \<Rightarrow> rendezvous option \<Rightarrow> proc" where
  "AllReduceGradients devices rdv s =
     (case rdv of
        None \<Rightarrow> AllReduceGradientsSingleHost devices s
      | Some r \<Rightarrow> AllReduceGradientsDistributed devices r s)"

subsection \<open>Broadcast of computed parameters\<close>

definition BroadcastComputedParamsSingleHost :: "int list \<Rightarrow> proc" where
  "BroadcastComputedParamsSingleHost devices s =
     (if length devices = 1 then (None, s)
      else for_each (Broadcast devices ModelNet) (m_computed_param_names s) s)"

definition BroadcastComputedParamsDistributed :: "int list \<Rightarrow> rendezvous \<Rightarrow> proc" where
  "BroadcastComputedParamsDistributed devices rdv s = BroadcastComputedParamsSingleHost devices s"

definition BroadcastComputedParams :: "int list \<Rightarrow> rendezvous option \<Rightarrow> proc" where
  "BroadcastComputedParams devices rdv s =
     (case rdv of
        None \<Rightarrow> BroadcastComputedParamsSingleHost devices s
      | Some r \<Rightarrow> BroadcastComputedParamsDistributed devices r s)"

subsection \<open>Floats\<close>

text \<open>
  A Python float is an IEEE 754 double. A finite double is identified with the rational
  number it denotes; the operations round their exact result to the nearest double, a tie
  going to the double with an even significand. \<open>exponent x\<close> is the binary exponent \<open>e\<close>
  of a positive number, \<open>2\<^sup>e \<le> x < 2\<^sup>e\<^sup>+\<^sup>1\<close>; a double has 53 significant bits, and its
  exponent is at least \<open>-1022\<close> (below that the doubles are equally spaced).
\<close>

definition exponent :: "rat \<Rightarrow> int" where
  "exponent x = (if 1 \<le> x then bitlen \<lfloor>x\<rfloor> - 1 else - bitlen (\<lceil>1 / x\<rceil> - 1))"

definition round_half_even :: "rat \<Rightarrow> int" where
  "round_half_even q =
     (let f = \<lfloor>q\<rfloor>; d = q - of_int f
      in if d < 1 / 2 then f else if 1 / 2 < d then f + 1 else if even f then f else f + 1)"

definition round_double :: "rat \<Rightarrow> rat" where
  "round_double x =
     (if x = 0 then 0
      else let ulp = 2 powi (max (exponent \<bar>x\<bar>) (- 1022) - 52)
           in of_int (round_half_even (x / ulp)) * ulp)"

text \<open>The conversion of an integer to a float, as in \<^verbatim>\<open>float(n)\<close> and in the coercion of an
  integer operand of a float operation: it raises \<^verbatim>\<open>OverflowError\<close> when the rounded value is
  beyond the largest double, that is when its exponent is 1024 or more.\<close>

definition float_of_int :: "int \<Rightarrow> error + rat" where
  "float_of_int n =
     (let r = round_double (of_int n)
      in if r \<noteq> 0 \<and> 1024 \<le> exponent \<bar>r\<bar> then Inl OverflowError else Inr r)"

text \<open>\<^verbatim>\<open>1.0 / n\<close> for an integer \<open>n\<close>: the integer is converted, a zero divisor raises, and the
  quotient is rounded (it is at most one in absolute value, so it cannot overflow).\<close>

definition one_over :: "int \<Rightarrow> error + rat" where
  "one_over n =
     (case float_of_int n of
        Inl e \<Rightarrow> Inl e
      | Inr y \<Rightarrow> if y = 0 then Inl ZeroDivisionError else Inr (round_double (1 / y)))"

subsection \<open>The replication driver\<close>

text \<open>
  The caller's builder functions run inside \<^verbatim>\<open>core.DeviceScope\<close> and \<^verbatim>\<open>core.NameScope\<close>;
  here they receive the device option and the name scope as arguments. They may change the
  model in any way and may raise. The parameter-update builder also receives the learning
  rate scale, a float.
\<close>

type_synonym builder = "device_option \<Rightarrow> string \<Rightarrow> proc"
type_synonym forward_builder = "device_option \<Rightarrow> string \<Rightarrow> state \<Rightarrow> (error + pyval) \<times> state"
type_synonym update_builder = "device_option \<Rightarrow> string \<Rightarrow> rat \<Rightarrow> proc"

fun is_blob :: "pyval \<Rightarrow> bool" where
  "is_blob (PyBlob b) = True"
| "is_blob v = False"

text \<open>The two assertions on what the forward-pass builder returned.\<close>

fun check_losses :: "pyval \<Rightarrow> error option" where
  "check_losses (PyList ls) =
     (if list_all is_blob ls then None
      else Some (AssertionError ''Model builder func must return list of loss blobs''))"
| "check_losses v =
     Some (AssertionError ''Model builder function must return list of loss blobs'')"

text \<open>The loop ``add input and model'' of \<^verbatim>\<open>Parallelize_GPU\<close>; it returns
  \<^verbatim>\<open>losses_by_gpu\<close>.\<close>

fun replicate_loop ::
  "builder \<Rightarrow> forward_builder \<Rightarrow> bool \<Rightarrow> int list \<Rightarrow> (int \<times> pyval) list \<Rightarrow> state \<Rightarrow>
   (error + (int \<times> pyval) list) \<times> state" where
  "replicate_loop input_builder_fun forward_pass_builder_fun has_update [] losses_by_gpu s =
     (Inr losses_by_gpu, s)"
| "replicate_loop input_builder_fun forward_pass_builder_fun has_update (device # rest)
     losses_by_gpu s =
     (let device_opt = DeviceOption CUDA device; namescope = gpu_name device
      in case input_builder_fun device_opt namescope s of
           (Some e, s1) \<Rightarrow> (Inl e, s1)
         | (None, s1) \<Rightarrow>
             (case forward_pass_builder_fun device_opt namescope s1 of
                (Inl e, s2) \<Rightarrow> (Inl e, s2)
              | (Inr losses, s2) \<Rightarrow>
                  (case (if has_update then check_losses losses else None) of
                     Some e \<Rightarrow> (Inl e, s2)
                   | None \<Rightarrow>
                       replicate_loop input_builder_fun forward_pass_builder_fun has_update rest
                         (AList.update device losses losses_by_gpu) s2)))"

text \<open>\<^verbatim>\<open>OrderedDict.update\<close>\<close>

definition dict_update :: "grouped \<Rightarrow> grouped \<Rightarrow> grouped" where
  "dict_update g other = fold (\<lambda>kv acc. AList.update (fst kv) (snd kv) acc) other g"

text \<open>The block ``create parameter map'' of \<^verbatim>\<open>Parallelize_GPU\<close>.\<close>

definition create_parameter_map :: "int list \<Rightarrow> proc" where
  "create_parameter_map devices s =
     (case GroupByDevice devices (m_params s) of
        Inl e \<Rightarrow> (Some e, s)
      | Inr g \<Rightarrow>
          let s1 = s\<lparr>m_device_grouped_blobs := g\<rparr>
          in (case GroupByDevice devices (m_computed_params s1) of
                Inl e \<Rightarrow> (Some e, s1)
              | Inr computed_params_grouped \<Rightarrow>
                  let g' = dict_update g computed_params_grouped
                  in (None, s1\<lparr>m_device_grouped_blobs := g',
                               m_param_names := map fst g',
                               m_computed_param_names := map fst computed_params_grouped\<rparr>)))"

text \<open>\<^verbatim>\<open>_AddGradientOperators\<close>: the inner loop over the losses of one device, the outer
  loop over the devices, then the call to the model's own \<^verbatim>\<open>AddGradientOperators\<close>, which
  is not part of the file and is a parameter here.\<close>

fun create_grads ::
  "device_option \<Rightarrow> pyval list \<Rightarrow> (string \<times> string) list \<Rightarrow> state \<Rightarrow>
   (error + (string \<times> string) list) \<times> state" where
  "create_grads device [] loss_grad s = (Inr loss_grad, s)"
| "create_grads device (PyBlob l # ls) loss_grad s =
     (let lg = l @ ''_grad'';
          s1 = add_op ModelNet
                 (mk_op ''ConstantFill'' [l] [lg] device None [] [(''value'', ArgFloat 1)]) s
      in create_grads device ls (AList.update l lg loss_grad) s1)"
| "create_grads device (v # ls) loss_grad s = (Inl TypeError, s)"

fun loss_grad_loop ::
  "int list \<Rightarrow> (int \<times> pyval) list \<Rightarrow> (string \<times> string) list \<Rightarrow> state \<Rightarrow>
   (error + (string \<times> string) list) \<times> state" where
  "loss_grad_loop [] losses_by_gpu loss_grad s = (Inr loss_grad, s)"
| "loss_grad_loop (gpu_id # rest) losses_by_gpu loss_grad s =
     (case map_of losses_by_gpu gpu_id of
        None \<Rightarrow> (Inl KeyError, s)
      | Some (PyList ls) \<Rightarrow>
          (case create_grads (DeviceOption CUDA gpu_id) ls loss_grad s of
             (Inl e, s1) \<Rightarrow> (Inl e, s1)
           | (Inr loss_grad', s1) \<Rightarrow> loss_grad_loop rest losses_by_gpu loss_grad' s1)
      | Some v \<Rightarrow> (Inl TypeError, s))"

definition AddGradientOperators ::
  "((string \<times> string) list \<Rightarrow> proc) \<Rightarrow> int list \<Rightarrow> (int \<times> pyval) list \<Rightarrow> proc" where
  "AddGradientOperators model_AddGradientOperators devices losses_by_gpu s =
     (case loss_grad_loop devices losses_by_gpu [] s of
        (Inl e, s1) \<Rightarrow> (Some e, s1)
      | (Inr loss_grad, s1) \<Rightarrow> model_AddGradientOperators loss_grad s1)"

text \<open>\<^verbatim>\<open>[param_to_grad[p] for p in model_helper_obj.params if p in param_to_grad]\<close>\<close>

definition grads_ordered_of :: "state \<Rightarrow> blob list" where
  "grads_ordered_of s = List.map_filter (map_of (m_param_to_grad s)) (m_params s)"

text \<open>The block ``group gradients by device and register to blob lookup''.\<close>

definition register_gradients :: "int list \<Rightarrow> proc" where
  "register_gradients devices s =
     (case GroupByDevice devices (grads_ordered_of s) of
        Inl e \<Rightarrow> (Some e, s)
      | Inr gradients_grouped \<Rightarrow>
          (None, s\<lparr>m_device_grouped_blobs :=
                      dict_update (m_device_grouped_blobs s) gradients_grouped,
                    m_grad_names := map fst gradients_grouped\<rparr>))"

text \<open>The block ``post-iteration operators for updating params'': the learning rate scale
  and one call of the update builder per device.\<close>

definition lr_scale_of :: "int list \<Rightarrow> rendezvous option \<Rightarrow> error + rat" where
  "lr_scale_of devices rdv =
     (let shards = (case rdv of None \<Rightarrow> 1 | Some r \<Rightarrow> num_shards r)
      in one_over (int (length devices) * shards))"

definition update_params :: "update_builder \<Rightarrow> int list \<Rightarrow> rendezvous option \<Rightarrow> proc" where
  "update_params param_update_builder_fun devices rdv s =
     (case lr_scale_of devices rdv of
        Inl e \<Rightarrow> (Some e, s)
      | Inr lr_scale \<Rightarrow>
          for_each (\<lambda>device. param_update_builder_fun (DeviceOption CUDA device)
                                (gpu_name device) lr_scale) devices s)"

text \<open>\<^verbatim>\<open>_AnalyzeOperators(model)\<close> on the operators of the model's net, and the argument
  \<^verbatim>\<open>first_iter_only_one_worker\<close>.\<close>

definition analyze_model :: proc where
  "analyze_model s =
     (case AnalyzeOperators (proto_op (m_net s)) of Inl e \<Rightarrow> (Some e, s) | Inr _ \<Rightarrow> (None, s))"

definition add_first_iter_arg :: proc where
  "add_first_iter_arg s =
     (None, s\<lparr>m_net := (m_net s)\<lparr>proto_arg := proto_arg (m_net s) @
                  [(''first_iter_only_one_worker'', ArgInt 1)]\<rparr>\<rparr>)"

text \<open>\<^verbatim>\<open>_OptimizeGradientMemory\<close>; \<^verbatim>\<open>memonger.share_grad_blobs\<close> is a parameter.\<close>

definition OptimizeGradientMemory ::
  "(net \<Rightarrow> pyval \<Rightarrow> blob set \<Rightarrow> string \<Rightarrow> net) \<Rightarrow> (int \<times> pyval) list \<Rightarrow> int list \<Rightarrow> proc" where
  "OptimizeGradientMemory share_grad_blobs losses_by_gpu devices s =
     for_each (\<lambda>device s'.
        case map_of losses_by_gpu device of
          None \<Rightarrow> (Some KeyError, s')
        | Some losses \<Rightarrow>
            (None, s'\<lparr>m_net := share_grad_blobs (m_net s') losses
                                 (set (map snd (m_param_to_grad s'))) (gpu_namescope device)\<rparr>))
       devices s"

definition skip :: proc where
  "skip s = (None, s)"

text \<open>\<^verbatim>\<open>Parallelize_GPU\<close>. The first two arguments stand for the model's
  \<^verbatim>\<open>AddGradientOperators\<close> and for \<^verbatim>\<open>memonger.share_grad_blobs\<close>; the state is the model
  helper object; \<^verbatim>\<open>param_update_builder_fun\<close> may be \<^verbatim>\<open>None\<close>.\<close>

definition Parallelize_GPU ::
  "((string \<times> string) list \<Rightarrow> proc) \<Rightarrow> (net \<Rightarrow> pyval \<Rightarrow> blob set \<Rightarrow> string \<Rightarrow> net) \<Rightarrow>
   builder \<Rightarrow> forward_builder \<Rightarrow> update_builder option \<Rightarrow> int list \<Rightarrow> rendezvous option \<Rightarrow>
   string \<Rightarrow> bool \<Rightarrow> bool \<Rightarrow> proc" where
  "Parallelize_GPU model_AddGradientOperators share_grad_blobs input_builder_fun
     forward_pass_builder_fun param_update_builder_fun devices rdv net_typ
     broadcast_computed_params optimize_gradient_memory model_helper_obj =
     (let extra_workers = (if rdv \<noteq> None then 8 else 0);
          s1 = model_helper_obj
                 \<lparr>m_net := (m_net model_helper_obj)
                    \<lparr>proto_num_workers := int (length devices) * 4 + extra_workers,
                     proto_type := net_typ\<rparr>,
                  m_devices := devices, m_rendezvous := rdv, m_grad_names := []\<rparr>
      in if m_params s1 \<noteq> [] then (Some (AssertionError ''Model needs to be empty''), s1)
         else
           (case replicate_loop input_builder_fun forward_pass_builder_fun
                   (param_update_builder_fun \<noteq> None) devices [] s1 of
              (Inl e, s2) \<Rightarrow> (Some e, s2)
            | (Inr losses_by_gpu, s2) \<Rightarrow>
                (case create_parameter_map devices s2 of
                   (Some e, s3) \<Rightarrow> (Some e, s3)
                 | (None, s3) \<Rightarrow>
                     (case param_update_builder_fun of
                        None \<Rightarrow> (None, s3)
                      | Some update \<Rightarrow>
                          and_then (AddGradientOperators model_AddGradientOperators devices
                                      losses_by_gpu)
                         (and_then (register_gradients devices)
                         (and_then (if broadcast_computed_params
                                    then BroadcastComputedParams devices rdv else skip)
                         (and_then (AllReduceGradients devices rdv)
                         (and_then (update_params update devices rdv)
                         (and_then analyze_model
                         (and_then add_first_iter_arg
                         (and_then (case rdv of
                                      None \<Rightarrow> skip
                                    | Some r \<Rightarrow> AddDistributedParameterSync devices
                                                 ParamInitNet ParamInitNet r None)
                         (and_then (SyncParams devices ParamInitNet None)
                                   (if optimize_gradient_memory
                                    then OptimizeGradientMemory share_grad_blobs losses_by_gpu
                                           devices
                                    else skip))))))))) s3))))"

subsection \<open>Synchronisation after a checkpoint\<close>

text \<open>Modelled from the spec: \<^verbatim>\<open>model.GetDevices\<close> of the model helper is not part of the
  file; it gives the device list that the replication driver stored on the model.\<close>

definition GetDevices :: "state \<Rightarrow> int list" where
  "GetDevices s = m_devices s"

text \<open>\<^verbatim>\<open>[stripParamName(p) for p in blobs]\<close>\<close>

fun strip_all :: "blob list \<Rightarrow> error + string list" where
  "strip_all [] = Inr []"
| "strip_all (p # ps) =
     (case stripParamName p of
        Inl e \<Rightarrow> Inl e
      | Inr n \<Rightarrow> (case strip_all ps of Inl e \<Rightarrow> Inl e | Inr ns \<Rightarrow> Inr (n # ns)))"

text \<open>The dictionary \<^verbatim>\<open>{d: BlobReference("gpu_{}{}{}".format(d, sep, name)) for d in devices}\<close>
  and the registration of a name that the lookup map does not hold yet.\<close>

definition synthesized_table :: "int list \<Rightarrow> string \<Rightarrow> device_table" where
  "synthesized_table devices name =
     fold (\<lambda>d t. AList.update d (gpu_name d @ [NAMESCOPE_SEPARATOR] @ name) t) devices []"

definition register_blob :: "int list \<Rightarrow> string \<Rightarrow> grouped \<Rightarrow> grouped" where
  "register_blob devices name g =
     (case map_of g name of
        None \<Rightarrow> AList.update name (synthesized_table devices name) g
      | Some t \<Rightarrow> g)"

definition workspace_call :: "ws_event \<Rightarrow> proc" where
  "workspace_call ev s = (None, s\<lparr>workspace_log := workspace_log s @ [ev]\<rparr>)"

text \<open>The loop that copies \<^verbatim>\<open>ITER\<close> from the first device to the others, on the CPU.\<close>

definition sync_iter_ops :: "int list \<Rightarrow> operator list" where
  "sync_iter_ops devices =
     map (\<lambda>gpu_idx. mk_op ''Copy'' [gpu_name (hd devices) @ ''/ITER'']
                       [gpu_name gpu_idx @ ''/ITER''] (DeviceOption CPU 0) None [] [])
       (tl devices)"

text \<open>The construction of the checkpoint net, run when the model has no
  \<^verbatim>\<open>_checkpoint_net\<close> yet.\<close>

definition build_checkpoint_net :: "blob list \<Rightarrow> bool \<Rightarrow> proc" where
  "build_checkpoint_net blobs sync_iter s =
     (case strip_all blobs of
        Inl e \<Rightarrow> (Some e, s)
      | Inr uniq_blob_names \<Rightarrow>
          let devices = GetDevices s;
              s1 = s\<lparr>m_device_grouped_blobs :=
                       fold (register_blob devices) uniq_blob_names (m_device_grouped_blobs s)\<rparr>;
              s2 = s1\<lparr>m_checkpoint_net := RunAllOnGPU (Net ''checkpoint_sync_net''),
                      has_checkpoint_net := True\<rparr>
          in and_then
               (case m_rendezvous s2 of
                  None \<Rightarrow> skip
                | Some r \<Rightarrow>
                    and_then
                      (\<lambda>s3. AddDistributedParameterSync devices CheckpointInitNet CheckpointNet r
                               (Some uniq_blob_names)
                               (s3\<lparr>checkpoint_init_net := RunAllOnGPU (Net ''checkpoint_init_net'')\<rparr>))
                      (\<lambda>s4. workspace_call (RunNetOnce (checkpoint_init_net s4)) s4))
              (and_then (SyncParams devices CheckpointNet (Some uniq_blob_names))
              (and_then (\<lambda>s5. (None, if sync_iter
                                      then fold (add_op CheckpointNet) (sync_iter_ops devices) s5
                                      else s5))
                        (\<lambda>s6. workspace_call (CreateNet (m_checkpoint_net s6)) s6))) s2)"

definition FinalizeAfterCheckpoint :: "blob list \<Rightarrow> bool \<Rightarrow> proc" where
  "FinalizeAfterCheckpoint blobs sync_iter s =
     and_then (if \<not> has_checkpoint_net s then build_checkpoint_net blobs sync_iter else skip)
              (\<lambda>s'. workspace_call (RunNet (proto_name (m_checkpoint_net s'))) s') s"

subsection \<open>Notions used in the statements\<close>

text \<open>The operators the pass looks at: neither collective (\<^verbatim>\<open>NCCL\<close> in the type) nor a
  copy (\<^verbatim>\<open>Copy\<close> in the type) nor placed on the CPU; and a blob of an operator that carries
  a device prefix other than the operator's own.\<close>

definition scope_checked :: "operator \<Rightarrow> bool" where
  "scope_checked op \<longleftrightarrow>
     \<not> contains ''NCCL'' (op_type op) \<and> \<not> contains ''Copy'' (op_type op) \<and>
     device_type (op_device op) \<noteq> CPU"

definition crosses_scope :: "operator \<Rightarrow> blob \<Rightarrow> bool" where
  "crosses_scope op b \<longleftrightarrow>
     b \<in> set (op_input op @ op_output op) \<and> startswith b ''gpu_'' \<and>
     \<not> startswith b (gpu_namescope (cuda_gpu_id (op_device op)))"

definition append_net_ops :: "operator list \<Rightarrow> state \<Rightarrow> state" where
  "append_net_ops ops s = s\<lparr>m_net := (m_net s)\<lparr>proto_op := proto_op (m_net s) @ ops\<rparr>\<rparr>"

definition grads_group_of :: "grouped \<Rightarrow> string \<Rightarrow> blob list" where
  "grads_group_of g name = (case map_of g name of None \<Rightarrow> [] | Some tbl \<Rightarrow> map snd tbl)"

fun nccl_chain :: "device_option \<Rightarrow> blob list list \<Rightarrow> blob option \<Rightarrow> operator list" where
  "nccl_chain dev [] last_out = []"
| "nccl_chain dev (g # gs) last_out =
     mk_op ''NCCLAllreduce'' g g dev last_out [] [] # nccl_chain dev gs (Some (hd g))"

definition ops_of_type :: "string \<Rightarrow> operator list \<Rightarrow> operator list" where
  "ops_of_type t ops = filter (\<lambda>op. op_type op = t) ops"

definition cross_host_allreduces :: "state \<Rightarrow> operator list" where
  "cross_host_allreduces s = ops_of_type ''Allreduce'' (proto_op (m_net s))"

definition window_chained :: "nat \<Rightarrow> operator list \<Rightarrow> bool" where
  "window_chained w A \<longleftrightarrow>
     (\<forall>k\<in>set [0..<length A]. control_input (A ! k) =
        (if k < w then None else Some (hd (op_output (A ! (k - w))))))"

definition win_inv :: "nat \<Rightarrow> blob list \<Rightarrow> blob list \<Rightarrow> bool" where
  "win_inv w cyc R \<longleftrightarrow>
     length cyc = min (length R) w \<and>
     (\<forall>j<length R. length R - w \<le> j \<longrightarrow> cyc ! (j mod w) = R ! j)"

definition reduced_name :: "rendezvous \<Rightarrow> blob \<Rightarrow> blob" where
  "reduced_name rdv master_grad =
     (if engine rdv = ''RDMA_TCP'' then master_grad @ ''_red'' @ ''cpu'' else master_grad @ ''_red'')"

definition reducing_device :: "rendezvous \<Rightarrow> int \<Rightarrow> device_option" where
  "reducing_device rdv d0 =
     (if engine rdv = ''RDMA_TCP'' then DeviceOption CPU 0 else DeviceOption CUDA d0)"

definition add_ops :: "net_ref \<Rightarrow> operator list \<Rightarrow> state \<Rightarrow> state" where
  "add_ops r ops s = put_net r ((get_net r s)\<lparr>proto_op := proto_op (get_net r s) @ ops\<rparr>) s"

definition copy_ops :: "device_table \<Rightarrow> int \<Rightarrow> int list \<Rightarrow> operator list" where
  "copy_ops tbl master_gpu others =
     map (\<lambda>d. mk_op ''Copy'' [the (map_of tbl master_gpu)] [the (map_of tbl d)]
                 (DeviceOption CUDA d) None [] []) others"

definition store_complete :: "int list \<Rightarrow> string list \<Rightarrow> state \<Rightarrow> bool" where
  "store_complete devices names s \<longleftrightarrow>
     (\<forall>name\<in>set names. \<exists>tbl. map_of (m_device_grouped_blobs s) name = Some tbl \<and>
        (\<forall>d\<in>set devices. map_of tbl d \<noteq> None))"

definition master_grad_of :: "state \<Rightarrow> int \<Rightarrow> string \<Rightarrow> blob" where
  "master_grad_of s d0 name = the (map_of (the (map_of (m_device_grouped_blobs s) name)) d0)"


definition common_world_creations :: "net \<Rightarrow> operator list" where
  "common_world_creations n = ops_of_type ''CreateCommonWorld'' (proto_op n)"

definition creations_of :: "string \<Rightarrow> net \<Rightarrow> operator list" where
  "creations_of key n =
     filter (\<lambda>op. op_type op = ''CreateCommonWorld'' \<and> op_output op = [key @ ''_cw'']) (proto_op n)"

definition sync_frame :: "state \<Rightarrow> state \<Rightarrow> bool" where
  "sync_frame s s' \<longleftrightarrow>
     m_device_grouped_blobs s' = m_device_grouped_blobs s \<and>
     workspace_log s' = workspace_log s \<and>
     has_checkpoint_net s' = has_checkpoint_net s \<and>
     m_devices s' = m_devices s \<and>
     m_rendezvous s' = m_rendezvous s \<and>
     (\<forall>r. proto_name (get_net r s') = proto_name (get_net r s)) \<and>
     (\<forall>r. ops_of_type ''Copy'' (proto_op (get_net r s')) =
          ops_of_type ''Copy'' (proto_op (get_net r s)))"

definition param_world_creations :: "rendezvous \<Rightarrow> string \<Rightarrow> string list \<Rightarrow> operator list" where
  "param_world_creations rdv net_name names =
     CreateCommonWorld rdv ''iter_cw'' (net_name @ ''.iter_cw_op'') (DeviceOption CPU 0) #
     map (\<lambda>n. CreateCommonWorld rdv (n @ ''_cw'') (net_name @ ''.'' @ n @ ''_cw_op'')
                 (DeviceOption CPU 0)) (sort names)"

definition finalize_calls :: "(blob list \<times> bool) list \<Rightarrow> proc" where
  "finalize_calls calls = for_each (\<lambda>c. FinalizeAfterCheckpoint (fst c) (snd c)) calls"

definition registered_table :: "int list \<Rightarrow> grouped \<Rightarrow> string \<Rightarrow> device_table" where
  "registered_table devices g name =
     (case map_of g name of None \<Rightarrow> synthesized_table devices name | Some t \<Rightarrow> t)"

definition sync_copies :: "grouped \<Rightarrow> int list \<Rightarrow> string list \<Rightarrow> operator list" where
  "sync_copies g devices names =
     concat (map (\<lambda>n. copy_ops (the (map_of g n)) (hd devices) (tl devices)) names)"

definition canonical :: "blob \<Rightarrow> string" where
  "canonical p = (case stripParamName p of Inl e \<Rightarrow> [] | Inr n \<Rightarrow> n)"

definition handle_ok :: "int \<Rightarrow> blob \<Rightarrow> bool" where
  "handle_ok d p \<longleftrightarrow> \<not> isl (stripParamName p) \<and> contains (gpu_namescope d) (GetNameScope p)"

definition first_occ :: "'a list \<Rightarrow> 'a list" where
  "first_occ xs = rev (remdups (rev xs))"

fun grouping :: "int list \<Rightarrow> nat \<Rightarrow> nat \<Rightarrow> blob list \<Rightarrow> grouped \<Rightarrow> grouped" where
  "grouping devices m i [] g = g"
| "grouping devices m i (p # ps) g =
     grouping devices m (Suc i) ps (grouped_put (canonical p) (devices ! (i div m)) p g)"

fun writes :: "int list \<Rightarrow> nat \<Rightarrow> nat \<Rightarrow> blob list \<Rightarrow> (string \<times> int \<times> blob) list" where
  "writes devices m i [] = []"
| "writes devices m i (p # ps) = (canonical p, devices ! (i div m), p) # writes devices m (Suc i) ps"

fun put_all :: "(string \<times> int \<times> blob) list \<Rightarrow> grouped \<Rightarrow> grouped" where
  "put_all [] g = g"
| "put_all (w # ws) g = put_all ws (grouped_put (fst w) (fst (snd w)) (snd (snd w)) g)"

fun table_of :: "string \<Rightarrow> (string \<times> int \<times> blob) list \<Rightarrow> device_table \<Rightarrow> device_table" where
  "table_of k [] t = t"
| "table_of k (w # ws) t =
     table_of k ws (if fst w = k then AList.update (fst (snd w)) (snd (snd w)) t else t)"

definition handles_ok :: "int list \<Rightarrow> blob list \<Rightarrow> bool" where
  "handles_ok devices params \<longleftrightarrow>
     (\<forall>i\<in>set [0..<length params].
        handle_ok (devices ! (i div (length params div length devices))) (params ! i))"

definition tables_complete :: "int list \<Rightarrow> grouped \<Rightarrow> bool" where
  "tables_complete devices g \<longleftrightarrow> (\<forall>kt\<in>set g. length (snd kt) = length devices)"

definition order_kept :: "int list \<Rightarrow> blob list \<Rightarrow> grouped \<Rightarrow> bool" where
  "order_kept devices params g \<longleftrightarrow>
     (\<forall>j\<in>set [0..<length g]. map_of (snd (g ! j)) (hd devices) = Some (params ! j))"

definition block :: "nat \<Rightarrow> nat \<Rightarrow> blob list \<Rightarrow> blob list" where
  "block m i params = take m (drop (i * m) params)"

definition replicated_layout :: "int list \<Rightarrow> blob list \<Rightarrow> bool" where
  "replicated_layout devices params \<longleftrightarrow>
     devices \<noteq> [] \<and> distinct devices \<and> length params mod length devices = 0 \<and>
     handles_ok devices params \<and>
     (\<forall>i\<in>set [0..<length devices].
        distinct (map canonical (block (length params div length devices) i params)) \<and>
        set (map canonical (block (length params div length devices) i params)) =
        set (map canonical (block (length params div length devices) 0 params)))"

definition first_pos :: "string \<Rightarrow> blob list \<Rightarrow> nat" where
  "first_pos k params = length (takeWhile (\<lambda>p. canonical p \<noteq> k) params)"

subsection \<open>Concrete inputs\<close>

definition relu_on :: "int \<Rightarrow> blob \<Rightarrow> operator" where
  "relu_on d x = \<lparr>op_type = ''Relu'', op_input = [x], op_output = [''gpu_2/y''],
     op_device = DeviceOption CUDA d, control_input = None, op_name = [], op_args = []\<rparr>"

definition fresh_model :: state where
  "fresh_model =
     \<lparr>m_net = Net ''train'', m_param_init_net = Net ''train_init'', m_params = [],
      m_computed_params = [], m_param_to_grad = [], m_devices = [], m_rendezvous = None,
      m_grad_names = [], m_device_grouped_blobs = [], m_param_names = [],
      m_computed_param_names = [], has_checkpoint_net = False,
      m_checkpoint_net = Net [], checkpoint_init_net = Net [], workspace_log = []\<rparr>"

definition two_gpu_grads :: state where
  "two_gpu_grads = fresh_model
     \<lparr>m_grad_names := [''w_grad'', ''b_grad''],
      m_device_grouped_blobs :=
        [(''w_grad'', [(0, ''gpu_0/w_grad''), (1, ''gpu_1/w_grad'')]),
         (''b_grad'', [(0, ''gpu_0/b_grad''), (1, ''gpu_1/b_grad'')])]\<rparr>"

definition demo_input :: builder where
  "demo_input dev ns s = (None, s)"

definition demo_forward :: forward_builder where
  "demo_forward dev ns s =
     (Inr (PyList [PyBlob (ns @ ''/loss'')]),
      add_op ModelNet
        (mk_op ''FC'' [ns @ ''/data'', ns @ ''/w'', ns @ ''/b''] [ns @ ''/loss''] dev None [] [])
        (s\<lparr>m_params := m_params s @ [ns @ ''/w'', ns @ ''/b'']\<rparr>))"

definition demo_gradients :: "(string \<times> string) list \<Rightarrow> proc" where
  "demo_gradients loss_grad s =
     (None, s\<lparr>m_param_to_grad := map (\<lambda>p. (p, p @ ''_grad'')) (m_params s)\<rparr>)"

definition logging_update :: update_builder where
  "logging_update dev ns lr_scale s =
     (None, add_op ModelNet
        (mk_op ''Update'' [] [] dev None ns [(''lr_scale'', ArgFloat lr_scale)]) s)"

definition no_sharing :: "net \<Rightarrow> pyval \<Rightarrow> blob set \<Rightarrow> string \<Rightarrow> net" where
  "no_sharing n losses grads ns = n"

definition demo_run :: "int list \<Rightarrow> rendezvous option \<Rightarrow> error option \<times> state" where
  "demo_run devices rdv =
     Parallelize_GPU demo_gradients no_sharing demo_input demo_forward (Some logging_update)
       devices rdv ''dag'' True False fresh_model"

definition shard2 :: rendezvous where
  "shard2 = \<lparr>kv_handler = ''kv'', num_shards = 2, shard_id = 0, engine = ''GLOO''\<rparr>"

definition one_gpu_grads :: state where
  "one_gpu_grads = fresh_model
     \<lparr>m_net := (Net ''train'')\<lparr>proto_num_workers := 12\<rparr>,
      m_grad_names := [''w_grad'', ''b_grad''],
      m_device_grouped_blobs :=
        [(''w_grad'', [(0, ''gpu_0/w_grad'')]), (''b_grad'', [(0, ''gpu_0/b_grad'')])]\<rparr>"

definition nonempty_model :: state where
  "nonempty_model = fresh_model\<lparr>m_params := [''w'']\<rparr>"

definition demo_checkpoint :: "error option \<times> state" where
  "demo_checkpoint =
     FinalizeAfterCheckpoint [''gpu_0/w'', ''gpu_0/w_momentum''] True
       (snd (demo_run [0] (Some shard2)))"

definition checkpoint_demo :: state where
  "checkpoint_demo = two_gpu_grads\<lparr>m_devices := [0, 1]\<rparr>"

definition two_gpu_params :: "blob list" where
  "two_gpu_params = [''gpu_0/w'', ''gpu_0/b'', ''gpu_1/w'', ''gpu_1/b'']"

definition nested_params :: "blob list" where
  "nested_params = [''gpu_0/fc1/w'', ''gpu_0/fc2/w'', ''gpu_1/fc1/w'', ''gpu_1/fc2/w'']"

definition three_params :: state where
  "three_params = fresh_model
     \<lparr>m_params := [''gpu_0/w1'', ''gpu_0/w2'', ''gpu_0/w3''],
      m_param_to_grad := [(''gpu_0/w1'', ''gpu_0/w1_grad''), (''gpu_0/w2'', ''gpu_0/w2_grad''),
                          (''gpu_0/w3'', ''gpu_0/w3_grad'')]\<rparr>"

section \<open>Properties\<close>

subsection \<open>Strings and device names\<close>

declare str_nat.simps [simp del]

lemma startswith_take: "startswith s pre \<longleftrightarrow> take (length pre) s = pre"
  by (induction s pre rule: startswith.induct) auto

lemma startswith_append [simp]: "startswith (pre @ t) pre"
  by (simp add: startswith_take)

lemma startswith_append_iff: "startswith (a @ s) (a @ pre) \<longleftrightarrow> startswith s pre"
  by (induction a) auto

lemma digit_not_sep: "digit d \<noteq> CHR ''/'' \<and> digit d \<noteq> CHR ''-''"
  by (simp add: digit_def)

lemma digit_inj: "d < 10 \<Longrightarrow> e < 10 \<Longrightarrow> digit d = digit e \<Longrightarrow> d = e"
  by (simp add: digit_def split: if_splits) arith

lemma str_nat_chars: "c \<in> set (str_nat n) \<Longrightarrow> c \<noteq> CHR ''/'' \<and> c \<noteq> CHR ''-''"
proof (induction n rule: str_nat.induct)
  case (1 n)
  then show ?case
    using digit_not_sep by (subst (asm) (2) str_nat.simps) (auto split: if_splits)
qed

lemma str_nat_nonempty: "str_nat n \<noteq> []"
  by (subst str_nat.simps) simp

lemma str_nat_inj: "str_nat n = str_nat m \<Longrightarrow> n = m"
proof (induction n arbitrary: m rule: str_nat.induct)
  case (1 n)
  show ?case
  proof (cases "n < 10")
    case True
    have "m < 10"
    proof (rule ccontr)
      assume "\<not> m < 10"
      then have "str_nat m = str_nat (m div 10) @ [digit (m mod 10)]"
        by (subst str_nat.simps) simp
      moreover have "str_nat n = [digit n]" using True by (subst str_nat.simps) simp
      ultimately show False using "1.prems" str_nat_nonempty [of "m div 10"] by simp
    qed
    moreover have "str_nat n = [digit n]" using True by (subst str_nat.simps) simp
    moreover have "str_nat m = [digit m]" using \<open>m < 10\<close> by (subst str_nat.simps) simp
    ultimately show ?thesis using True "1.prems" digit_inj by simp
  next
    case False
    then have n: "str_nat n = str_nat (n div 10) @ [digit (n mod 10)]"
      by (subst str_nat.simps) simp
    have "\<not> m < 10"
    proof
      assume "m < 10"
      then have "str_nat m = [digit m]" by (subst str_nat.simps) simp
      then show False using n "1.prems" str_nat_nonempty [of "n div 10"] by simp
    qed
    then have m: "str_nat m = str_nat (m div 10) @ [digit (m mod 10)]"
      by (subst str_nat.simps) simp
    from n m "1.prems" have a: "str_nat (n div 10) = str_nat (m div 10)"
      and b: "digit (n mod 10) = digit (m mod 10)" by simp_all
    from "1.IH" [OF False a] have "n div 10 = m div 10" .
    moreover from b have "n mod 10 = m mod 10" by (intro digit_inj) simp_all
    ultimately show ?thesis by (metis div_mult_mod_eq)
  qed
qed

lemma str_int_chars: "CHR ''/'' \<notin> set (str_int i)"
  using str_nat_chars by (auto simp: str_int_def)

lemma str_int_inj: "str_int i = str_int j \<Longrightarrow> i = j"
proof -
  assume a: "str_int i = str_int j"
  have hd: "\<And>n. hd (str_nat n) \<noteq> CHR ''-''"
    using str_nat_chars str_nat_nonempty by (metis hd_in_set)
  show ?thesis
  proof (cases "i < 0")
    case True
    show ?thesis
    proof (cases "j < 0")
      case True
      with \<open>i < 0\<close> a have "str_nat (nat (- i)) = str_nat (nat (- j))"
        by (simp add: str_int_def)
      then have "nat (- i) = nat (- j)" by (rule str_nat_inj)
      with True \<open>i < 0\<close> show ?thesis by simp
    next
      case False
      with True a have "CHR ''-'' # str_nat (nat (- i)) = str_nat (nat j)"
        by (simp add: str_int_def)
      then have "hd (str_nat (nat j)) = CHR ''-''" by (metis list.sel(1))
      with hd show ?thesis by blast
    qed
  next
    case False
    show ?thesis
    proof (cases "j < 0")
      case True
      with False a have "str_nat (nat i) = CHR ''-'' # str_nat (nat (- j))"
        by (simp add: str_int_def)
      then have "hd (str_nat (nat i)) = CHR ''-''" by (metis list.sel(1))
      with hd show ?thesis by blast
    next
      case jn: False
      with False a have "str_nat (nat i) = str_nat (nat j)"
        by (simp add: str_int_def)
      then have "nat i = nat j" by (rule str_nat_inj)
      with False jn show ?thesis by simp
    qed
  qed
qed

lemma sep_prefix_eq:
  "c \<notin> set a \<Longrightarrow> c \<notin> set b \<Longrightarrow> startswith (b @ c # r) (a @ [c]) \<Longrightarrow> a = b"
proof (induction a arbitrary: b)
  case Nil
  then show ?case by (cases b) auto
next
  case (Cons x a)
  then show ?case by (cases b) auto
qed

lemma namescope_mismatch:
  "startswith (gpu_namescope d' @ rest) (gpu_namescope d) \<Longrightarrow> d = d'"
proof -
  assume "startswith (gpu_namescope d' @ rest) (gpu_namescope d)"
  then have "startswith (str_int d' @ CHR ''/'' # rest) (str_int d @ [CHR ''/''])"
    by (simp add: gpu_namescope_def)
  then have "str_int d = str_int d'"
    using sep_prefix_eq str_int_chars by blast
  then show ?thesis by (rule str_int_inj)
qed

lemma gpu_namescope_gpu: "startswith (gpu_namescope d @ rest) ''gpu_''"
  by (simp add: gpu_namescope_def)

subsection \<open>Device-scope analysis\<close>

lemma check_blobs_Inr:
  "check_blobs op ns bs = Inr u \<longleftrightarrow> (\<forall>b\<in>set bs. startswith b ''gpu_'' \<longrightarrow> startswith b ns)"
  by (induction bs) auto

lemma check_blobs_Inl:
  "check_blobs op ns bs = Inl e \<Longrightarrow>
     \<exists>b\<in>set bs. startswith b ''gpu_'' \<and> \<not> startswith b ns \<and>
       e = ScopeException b (op_type op) ns op"
  by (induction bs) (auto split: if_splits)

lemma AnalyzeOperators_Inr:
  "AnalyzeOperators ops = Inr u \<longleftrightarrow>
     \<not> (\<exists>op\<in>set ops. scope_checked op \<and> (\<exists>b. crosses_scope op b))"
proof (induction ops)
  case Nil
  show ?case by simp
next
  case (Cons op ops)
  show ?case
  proof (cases "scope_checked op")
    case False
    then show ?thesis using Cons by (auto simp: scope_checked_def Let_def)
  next
    case True
    then have "AnalyzeOperators (op # ops) =
      (case check_blobs op (gpu_namescope (cuda_gpu_id (op_device op)))
              (op_input op @ op_output op) of
         Inl e \<Rightarrow> Inl e | Inr _ \<Rightarrow> AnalyzeOperators ops)"
      by (simp add: scope_checked_def Let_def)
    moreover have "(\<exists>b. crosses_scope op b) \<longleftrightarrow>
       (\<forall>u. check_blobs op (gpu_namescope (cuda_gpu_id (op_device op)))
              (op_input op @ op_output op) \<noteq> Inr u)"
      unfolding check_blobs_Inr crosses_scope_def by blast
    ultimately show ?thesis using Cons True
      by (cases "check_blobs op (gpu_namescope (cuda_gpu_id (op_device op)))
              (op_input op @ op_output op)") auto
  qed
qed

lemma AnalyzeOperators_Inl:
  "AnalyzeOperators ops = Inl e \<Longrightarrow>
     \<exists>op\<in>set ops. \<exists>b. scope_checked op \<and> crosses_scope op b \<and>
        e = ScopeException b (op_type op) (gpu_namescope (cuda_gpu_id (op_device op))) op"
proof (induction ops)
  case Nil
  then show ?case by simp
next
  case (Cons op ops)
  show ?case
  proof (cases "scope_checked op")
    case False
    then have "AnalyzeOperators (op # ops) = AnalyzeOperators ops"
      by (auto simp: scope_checked_def Let_def)
    with Cons show ?thesis by auto
  next
    case True
    then have eq: "AnalyzeOperators (op # ops) =
      (case check_blobs op (gpu_namescope (cuda_gpu_id (op_device op)))
              (op_input op @ op_output op) of
         Inl e \<Rightarrow> Inl e | Inr _ \<Rightarrow> AnalyzeOperators ops)"
      by (simp add: scope_checked_def Let_def)
    show ?thesis
    proof (cases "check_blobs op (gpu_namescope (cuda_gpu_id (op_device op)))
              (op_input op @ op_output op)")
      case (Inl e')
      with eq Cons.prems have "e' = e" by simp
      with Inl check_blobs_Inl [of op _ _ e] True show ?thesis
        unfolding crosses_scope_def by fastforce
    next
      case (Inr u)
      with eq Cons show ?thesis by auto
    qed
  qed
qed

lemma AnalyzeOperators_exempt:
  "AnalyzeOperators (filter scope_checked ops) = AnalyzeOperators ops"
  by (induction ops) (auto simp: scope_checked_def Let_def split: sum.splits)

lemma crosses_other_device:
  "d' \<noteq> cuda_gpu_id (op_device op) \<Longrightarrow>
   gpu_namescope d' @ rest \<in> set (op_input op @ op_output op) \<Longrightarrow>
   crosses_scope op (gpu_namescope d' @ rest)"
  unfolding crosses_scope_def using namescope_mismatch gpu_namescope_gpu by blast

text \<open>
  Claim C5. \<^verbatim>\<open>_AnalyzeOperators\<close> accepts a graph exactly when no operator that is
  neither collective nor a copy nor on the CPU has an input or output with a device prefix
  other than its own namescope \<^verbatim>\<open>gpu_<id>/\<close>; when it rejects, the exception names the
  offending blob, the operator's type and the expected namescope; an operator on device
  \<open>d\<close> with a blob \<^verbatim>\<open>gpu_<d'>/...\<close>, \<open>d' \<noteq> d\<close>, is rejected; and the exempt operators
  (collective, copy, CPU) play no part in the result.
\<close>

theorem AnalyzeOperators_scope_check:
  "(AnalyzeOperators ops = Inr () \<longleftrightarrow>
      (\<forall>op\<in>set ops. scope_checked op \<longrightarrow> \<not> (\<exists>b. crosses_scope op b))) \<and>
   (\<forall>e. AnalyzeOperators ops = Inl e \<longrightarrow>
      (\<exists>op\<in>set ops. \<exists>b. scope_checked op \<and> crosses_scope op b \<and>
         e = ScopeException b (op_type op) (gpu_namescope (cuda_gpu_id (op_device op))) op)) \<and>
   (\<forall>op\<in>set ops. \<forall>d' rest.
      scope_checked op \<and> d' \<noteq> cuda_gpu_id (op_device op) \<and>
      gpu_namescope d' @ rest \<in> set (op_input op @ op_output op) \<longrightarrow>
      (\<exists>e. AnalyzeOperators ops = Inl e)) \<and>
   AnalyzeOperators (filter scope_checked ops) = AnalyzeOperators ops"
proof (intro conjI allI ballI impI)
  show "AnalyzeOperators ops = Inr () \<longleftrightarrow>
      (\<forall>op\<in>set ops. scope_checked op \<longrightarrow> \<not> (\<exists>b. crosses_scope op b))"
    unfolding AnalyzeOperators_Inr by blast
next
  fix e assume "AnalyzeOperators ops = Inl e"
  then show "\<exists>op\<in>set ops. \<exists>b. scope_checked op \<and> crosses_scope op b \<and>
         e = ScopeException b (op_type op) (gpu_namescope (cuda_gpu_id (op_device op))) op"
    by (rule AnalyzeOperators_Inl)
next
  fix op d' rest
  assume op: "op \<in> set ops"
    and h: "scope_checked op \<and> d' \<noteq> cuda_gpu_id (op_device op) \<and>
      gpu_namescope d' @ rest \<in> set (op_input op @ op_output op)"
  then have "crosses_scope op (gpu_namescope d' @ rest)"
    using crosses_other_device by blast
  with op h have "AnalyzeOperators ops \<noteq> Inr ()"
    unfolding AnalyzeOperators_Inr by blast
  then show "\<exists>e. AnalyzeOperators ops = Inl e"
    by (cases "AnalyzeOperators ops") auto
next
  show "AnalyzeOperators (filter scope_checked ops) = AnalyzeOperators ops"
    by (rule AnalyzeOperators_exempt)
qed

theorem AnalyzeOperators_scope_check_witness:
  "AnalyzeOperators [relu_on 2 ''gpu_2/x''] = Inr () \<and>
   (\<exists>e. AnalyzeOperators [relu_on 2 (gpu_namescope 1 @ ''x'')] = Inl e)"
proof -
  have a: "scope_checked (relu_on 2 x)" for x
    by (simp add: scope_checked_def relu_on_def DeviceOption_def)
  have ns: "gpu_namescope 2 = ''gpu_2/''"
    by (simp add: gpu_namescope_def str_int_def str_nat.simps digit_def)
  have b: "\<not> crosses_scope (relu_on 2 ''gpu_2/x'') b" for b
    by (auto simp: crosses_scope_def relu_on_def DeviceOption_def ns)
  from AnalyzeOperators_scope_check [of "[relu_on 2 ''gpu_2/x'']"] a b
  have 1: "AnalyzeOperators [relu_on 2 ''gpu_2/x''] = Inr ()" by simp
  have "gpu_namescope 1 @ ''x'' \<in> set (op_input (relu_on 2 (gpu_namescope 1 @ ''x'')) @
     op_output (relu_on 2 (gpu_namescope 1 @ ''x'')))"
    by (simp add: relu_on_def)
  moreover have "(1::int) \<noteq> cuda_gpu_id (op_device (relu_on 2 (gpu_namescope 1 @ ''x'')))"
    by (simp add: relu_on_def DeviceOption_def)
  ultimately have 2: "\<exists>e. AnalyzeOperators [relu_on 2 (gpu_namescope 1 @ ''x'')] = Inl e"
    using AnalyzeOperators_scope_check [of "[relu_on 2 (gpu_namescope 1 @ ''x'')]"] a
    by (metis list.set_intros(1))
  from 1 2 show ?thesis by blast
qed

subsection \<open>Single-host gradient synchronisation\<close>

lemma add_op_ModelNet: "add_op ModelNet op s = append_net_ops [op] s"
  by (simp add: add_op_def append_net_ops_def)

lemma append_net_ops_Nil [simp]: "append_net_ops [] s = s"
  by (simp add: append_net_ops_def)

lemma append_net_ops_append [simp]:
  "append_net_ops b (append_net_ops a s) = append_net_ops (a @ b) s"
  by (simp add: append_net_ops_def)

lemma append_net_ops_store [simp]:
  "m_device_grouped_blobs (append_net_ops a s) = m_device_grouped_blobs s"
  by (simp add: append_net_ops_def)

lemma length_nccl_chain [simp]: "length (nccl_chain dev gs lo) = length gs"
  by (induction gs arbitrary: lo) auto

lemma nth_nccl_chain:
  "k < length gs \<Longrightarrow>
   nccl_chain dev gs lo ! k =
     mk_op ''NCCLAllreduce'' (gs ! k) (gs ! k) dev
       (if k = 0 then lo else Some (hd (gs ! (k - 1)))) [] []"
proof (induction gs arbitrary: lo k)
  case Nil
  then show ?case by simp
next
  case (Cons g gs)
  show ?case
  proof (cases k)
    case 0
    then show ?thesis by simp
  next
    case (Suc j)
    with Cons.prems have "j < length gs" by simp
    from Cons.IH [OF this] Suc show ?thesis by (cases j) auto
  qed
qed

lemma allreduce_single_loop_ok:
  "devices \<noteq> [] \<Longrightarrow>
   \<forall>name\<in>set names. \<exists>tbl. map_of (m_device_grouped_blobs s) name = Some tbl \<and>
        length tbl = length devices \<Longrightarrow>
   allreduce_single_loop devices dev names last_out s =
     (None, append_net_ops
        (nccl_chain dev (map (grads_group_of (m_device_grouped_blobs s)) names) last_out) s)"
proof (induction names arbitrary: last_out s)
  case Nil
  then show ?case by simp
next
  case (Cons name names)
  from Cons.prems obtain tbl where tbl: "map_of (m_device_grouped_blobs s) name = Some tbl"
    and len: "length tbl = length devices" by auto
  with Cons.prems(1) obtain kv rest where tbl_eq: "tbl = kv # rest" by (cases tbl) auto
  let ?g = "map snd tbl"
  let ?s1 = "append_net_ops [mk_op ''NCCLAllreduce'' ?g ?g dev last_out [] []] s"
  have pre: "\<forall>name\<in>set names. \<exists>tbl. map_of (m_device_grouped_blobs ?s1) name = Some tbl \<and>
        length tbl = length devices"
    using Cons.prems(2) by simp
  have step: "allreduce_single_loop devices dev (name # names) last_out s =
     allreduce_single_loop devices dev names (Some (snd kv)) ?s1"
    using tbl len tbl_eq by (simp add: add_op_ModelNet Let_def)
  have g: "grads_group_of (m_device_grouped_blobs s) name = ?g"
    using tbl by (simp add: grads_group_of_def)
  show ?case
    unfolding step Cons.IH [OF Cons.prems(1) pre]
    using g tbl_eq by simp
qed

text \<open>
  Claim C6. With a single device \<^verbatim>\<open>_AllReduceGradientsSingleHost\<close> and
  \<^verbatim>\<open>_BroadcastComputedParamsSingleHost\<close> return without touching the graph. With more
  than one device, and a store that holds one handle per device for every gradient key,
  the single-host sync appends exactly one \<^verbatim>\<open>NCCLAllreduce\<close> per gradient key, in
  reduction order, over all the handles of the key and on the master device; the first has
  no control input and every later one has the first handle of the previous key's group as
  its control input.
\<close>

theorem single_host_sync:
  "AllReduceGradientsSingleHost [d] s = (None, s) \<and>
   BroadcastComputedParamsSingleHost [d] s = (None, s) \<and>
   (1 < length devices \<and>
    (\<forall>name\<in>set (m_grad_names s). \<exists>tbl.
        map_of (m_device_grouped_blobs s) name = Some tbl \<and> length tbl = length devices) \<longrightarrow>
    (\<exists>ops. AllReduceGradientsSingleHost devices s = (None, append_net_ops ops s) \<and>
       length ops = length (m_grad_names s) \<and>
       (\<forall>k<length ops.
          ops ! k =
            mk_op ''NCCLAllreduce''
              (grads_group_of (m_device_grouped_blobs s) (GetReverseOrderedGrads s ! k))
              (grads_group_of (m_device_grouped_blobs s) (GetReverseOrderedGrads s ! k))
              (DeviceOption CUDA (hd devices))
              (if k = 0 then None
               else Some (hd (grads_group_of (m_device_grouped_blobs s)
                                (GetReverseOrderedGrads s ! (k - 1)))))
              [] [])))"
proof (intro conjI impI)
  show "AllReduceGradientsSingleHost [d] s = (None, s)"
    by (simp add: AllReduceGradientsSingleHost_def)
  show "BroadcastComputedParamsSingleHost [d] s = (None, s)"
    by (simp add: BroadcastComputedParamsSingleHost_def)
next
  assume h: "1 < length devices \<and>
    (\<forall>name\<in>set (m_grad_names s). \<exists>tbl.
        map_of (m_device_grouped_blobs s) name = Some tbl \<and> length tbl = length devices)"
  then obtain d0 ds where dev: "devices = d0 # ds" by (cases devices) auto
  let ?names = "GetReverseOrderedGrads s"
  let ?gs = "map (grads_group_of (m_device_grouped_blobs s)) ?names"
  let ?ops = "nccl_chain (DeviceOption CUDA d0) ?gs None"
  have pre: "\<forall>name\<in>set ?names. \<exists>tbl.
        map_of (m_device_grouped_blobs s) name = Some tbl \<and> length tbl = length devices"
    using h by (simp add: GetReverseOrderedGrads_def)
  have ne: "devices \<noteq> []" using dev by simp
  have run: "AllReduceGradientsSingleHost devices s = (None, append_net_ops ?ops s)"
    using h dev allreduce_single_loop_ok [OF ne pre, of "DeviceOption CUDA d0" None]
    by (simp add: AllReduceGradientsSingleHost_def Let_def)
  have len: "length ?ops = length (m_grad_names s)"
    by (simp add: GetReverseOrderedGrads_def)
  have nth: "\<forall>k<length ?ops. ?ops ! k =
            mk_op ''NCCLAllreduce''
              (grads_group_of (m_device_grouped_blobs s) (?names ! k))
              (grads_group_of (m_device_grouped_blobs s) (?names ! k))
              (DeviceOption CUDA (hd devices))
              (if k = 0 then None
               else Some (hd (grads_group_of (m_device_grouped_blobs s) (?names ! (k - 1)))))
              [] []"
  proof (intro allI impI)
    fix k assume "k < length ?ops"
    then have k: "k < length ?gs" by simp
    then have k': "k < length ?names" by simp
    then have "k - 1 < length ?names" by simp
    with nth_nccl_chain [OF k, of "DeviceOption CUDA d0" None] k' dev
    show "?ops ! k =
            mk_op ''NCCLAllreduce''
              (grads_group_of (m_device_grouped_blobs s) (?names ! k))
              (grads_group_of (m_device_grouped_blobs s) (?names ! k))
              (DeviceOption CUDA (hd devices))
              (if k = 0 then None
               else Some (hd (grads_group_of (m_device_grouped_blobs s) (?names ! (k - 1)))))
              [] []"
      by simp
  qed
  from run len nth show "\<exists>ops. AllReduceGradientsSingleHost devices s = (None, append_net_ops ops s) \<and>
       length ops = length (m_grad_names s) \<and>
       (\<forall>k<length ops.
          ops ! k =
            mk_op ''NCCLAllreduce''
              (grads_group_of (m_device_grouped_blobs s) (GetReverseOrderedGrads s ! k))
              (grads_group_of (m_device_grouped_blobs s) (GetReverseOrderedGrads s ! k))
              (DeviceOption CUDA (hd devices))
              (if k = 0 then None
               else Some (hd (grads_group_of (m_device_grouped_blobs s)
                                (GetReverseOrderedGrads s ! (k - 1)))))
              [] [])"
    by blast
qed

theorem single_host_sync_witness:
  "\<exists>ops. AllReduceGradientsSingleHost [0, 1] two_gpu_grads = (None, append_net_ops ops two_gpu_grads) \<and>
     length ops = 2 \<and>
     ops ! 0 = mk_op ''NCCLAllreduce'' [''gpu_0/b_grad'', ''gpu_1/b_grad'']
                [''gpu_0/b_grad'', ''gpu_1/b_grad''] (DeviceOption CUDA 0) None [] [] \<and>
     ops ! 1 = mk_op ''NCCLAllreduce'' [''gpu_0/w_grad'', ''gpu_1/w_grad'']
                [''gpu_0/w_grad'', ''gpu_1/w_grad''] (DeviceOption CUDA 0)
                (Some ''gpu_0/b_grad'') [] []"
proof -
  have names: "m_grad_names two_gpu_grads = [''w_grad'', ''b_grad'']"
    by (simp add: two_gpu_grads_def)
  have store: "m_device_grouped_blobs two_gpu_grads =
        [(''w_grad'', [(0, ''gpu_0/w_grad''), (1, ''gpu_1/w_grad'')]),
         (''b_grad'', [(0, ''gpu_0/b_grad''), (1, ''gpu_1/b_grad'')])]"
    by (simp add: two_gpu_grads_def)
  have pre: "1 < length [0::int, 1] \<and>
    (\<forall>name\<in>set (m_grad_names two_gpu_grads). \<exists>tbl.
        map_of (m_device_grouped_blobs two_gpu_grads) name = Some tbl \<and>
        length tbl = length [0::int, 1])"
    by (simp add: names store)
  from single_host_sync [of 0 two_gpu_grads "[0, 1]"] pre
  obtain ops where run: "AllReduceGradientsSingleHost [0, 1] two_gpu_grads =
        (None, append_net_ops ops two_gpu_grads)"
    and len: "length ops = length (m_grad_names two_gpu_grads)"
    and nth: "\<forall>k<length ops.
          ops ! k =
            mk_op ''NCCLAllreduce''
              (grads_group_of (m_device_grouped_blobs two_gpu_grads)
                 (GetReverseOrderedGrads two_gpu_grads ! k))
              (grads_group_of (m_device_grouped_blobs two_gpu_grads)
                 (GetReverseOrderedGrads two_gpu_grads ! k))
              (DeviceOption CUDA (hd [0, 1]))
              (if k = 0 then None
               else Some (hd (grads_group_of (m_device_grouped_blobs two_gpu_grads)
                                (GetReverseOrderedGrads two_gpu_grads ! (k - 1)))))
              [] []"
    by blast
  from len have len2: "length ops = 2" by (simp add: names)
  from nth len2 have "ops ! 0 = mk_op ''NCCLAllreduce'' [''gpu_0/b_grad'', ''gpu_1/b_grad'']
                [''gpu_0/b_grad'', ''gpu_1/b_grad''] (DeviceOption CUDA 0) None [] []"
    by (simp add: GetReverseOrderedGrads_def names store grads_group_of_def)
  moreover from nth len2 have "ops ! 1 = mk_op ''NCCLAllreduce'' [''gpu_0/w_grad'', ''gpu_1/w_grad'']
                [''gpu_0/w_grad'', ''gpu_1/w_grad''] (DeviceOption CUDA 0)
                (Some ''gpu_0/b_grad'') [] []"
    by (simp add: GetReverseOrderedGrads_def names store grads_group_of_def)
  ultimately show ?thesis using run len2 by blast
qed

subsection \<open>The control window\<close>

lemma ops_of_type_append [simp]:
  "ops_of_type t (a @ b) = ops_of_type t a @ ops_of_type t b"
  by (simp add: ops_of_type_def)

lemma ops_of_type_Cons:
  "ops_of_type t (op # b) = (if op_type op = t then op # ops_of_type t b else ops_of_type t b)"
  by (simp add: ops_of_type_def)

lemma ops_of_type_Nil [simp]: "ops_of_type t [] = []"
  by (simp add: ops_of_type_def)

lemma window_chained_iff:
  "window_chained w A \<longleftrightarrow>
     (\<forall>k<length A. control_input (A ! k) =
        (if k < w then None else Some (hd (op_output (A ! (k - w))))))"
  by (auto simp: window_chained_def)

lemma win_inv_Nil: "win_inv w [] []"
  by (simp add: win_inv_def)

lemma pick_control_inv:
  assumes "win_inv w cyc R" "0 < w"
  shows "pick_control cyc (int (length R)) (int w) =
           Inr (if length R < w then None else Some (R ! (length R - w)))"
proof (cases "length R < w")
  case True
  with assms have "length cyc < w" by (simp add: win_inv_def)
  with True show ?thesis by (simp add: pick_control_def)
next
  case False
  with assms have len: "length cyc = w" by (simp add: win_inv_def min_def)
  let ?j = "length R - w"
  have j: "?j < length R" "length R - w \<le> ?j" using False assms(2) by simp_all
  have "?j mod w = length R mod w"
    using False by (metis le_add_diff_inverse2 mod_add_self2 not_less)
  with assms(1) j have c: "cyc ! (length R mod w) = R ! ?j"
    unfolding win_inv_def by metis
  have m: "int (length R) mod int w = int (length R mod w)"
    by (simp add: zmod_int)
  have lt: "length R mod w < w" using assms(2) by simp
  show ?thesis
    using False len c lt assms(2)
    by (simp add: pick_control_def py_mod_def list_get_def m)
qed

lemma store_control_inv:
  assumes "win_inv w cyc R" "0 < w"
  shows "\<exists>cyc'. store_control cyc (int (length R)) (int w) r = Inr cyc' \<and>
            win_inv w cyc' (R @ [r])"
proof (cases "length R < w")
  case True
  with assms have len: "length cyc = length R" by (simp add: win_inv_def)
  have "win_inv w (cyc @ [r]) (R @ [r])"
    unfolding win_inv_def
  proof (intro conjI allI impI)
    show "length (cyc @ [r]) = min (length (R @ [r])) w" using True len by simp
  next
    fix j assume j: "j < length (R @ [r])" and "length (R @ [r]) - w \<le> j"
    then have jw: "j mod w = j" using True by simp
    show "(cyc @ [r]) ! (j mod w) = (R @ [r]) ! j"
    proof (cases "j < length R")
      case True
      then have "length R - w \<le> j" using \<open>length R < w\<close> by simp
      with assms(1) True have "cyc ! (j mod w) = R ! j" unfolding win_inv_def by blast
      with True jw len show ?thesis by (simp add: nth_append)
    next
      case False
      with j have "j = length R" by simp
      with jw len show ?thesis by (simp add: nth_append)
    qed
  qed
  moreover have "store_control cyc (int (length R)) (int w) r = Inr (cyc @ [r])"
    using True len by (simp add: store_control_def)
  ultimately show ?thesis by blast
next
  case False
  with assms have len: "length cyc = w" by (simp add: win_inv_def min_def)
  let ?i = "length R mod w"
  have lt: "?i < w" using assms(2) by simp
  have m: "int (length R) mod int w = int ?i" by (simp add: zmod_int)
  have st: "store_control cyc (int (length R)) (int w) r = Inr (cyc[?i := r])"
    using False len lt assms(2) by (simp add: store_control_def py_mod_def list_set_def m)
  have "win_inv w (cyc[?i := r]) (R @ [r])"
    unfolding win_inv_def
  proof (intro conjI allI impI)
    show "length (cyc[?i := r]) = min (length (R @ [r])) w" using False len by simp
  next
    fix j assume j: "j < length (R @ [r])" and lo: "length (R @ [r]) - w \<le> j"
    show "cyc[?i := r] ! (j mod w) = (R @ [r]) ! j"
    proof (cases "j < length R")
      case False
      with j have "j = length R" by simp
      then show ?thesis using lt len by simp
    next
      case True
      from lo have lo': "length R + 1 - w \<le> j" by simp
      have ne: "j mod w \<noteq> ?i"
      proof
        assume eq: "j mod w = ?i"
        have d: "0 < length R - j" "length R - j < w" using True lo' assms(2) by arith+
        from eq have "(length R - j) mod w = 0"
          using True by (metis less_imp_le_nat mod_eq_dvd_iff_nat mod_0_imp_dvd dvd_imp_mod_0)
        with d show False by (simp add: mod_less)
      qed
      have "length R - w \<le> j" using lo' by simp
      with assms(1) True have "cyc ! (j mod w) = R ! j" unfolding win_inv_def by blast
      with ne True show ?thesis by (simp add: nth_append)
    qed
  qed
  with st show ?thesis by blast
qed

subsection \<open>Effects on the nets\<close>

lemma add_op_add_ops: "add_op r op s = add_ops r [op] s"
  by (simp add: add_op_def add_ops_def)

lemma add_ops_Nil [simp]: "add_ops r [] s = s"
  by (cases r) (simp_all add: add_ops_def)

lemma add_ops_add_ops [simp]: "add_ops r b (add_ops r a s) = add_ops r (a @ b) s"
  by (cases r) (simp_all add: add_ops_def)

lemma add_ops_store [simp]:
  "m_device_grouped_blobs (add_ops r ops s) = m_device_grouped_blobs s"
  by (cases r) (simp_all add: add_ops_def)

lemma get_net_add_ops:
  "get_net r' (add_ops r ops s) =
     (if r' = r then (get_net r s)\<lparr>proto_op := proto_op (get_net r s) @ ops\<rparr> else get_net r' s)"
  by (cases r; cases r') (simp_all add: add_ops_def)

lemma net_add_ops [simp]:
  "proto_op (m_net (add_ops r ops s)) =
     (if r = ModelNet then proto_op (m_net s) @ ops else proto_op (m_net s))"
  by (cases r) (simp_all add: add_ops_def)

lemma init_net_add_ops [simp]:
  "proto_op (m_param_init_net (add_ops r ops s)) =
     (if r = ParamInitNet then proto_op (m_param_init_net s) @ ops
      else proto_op (m_param_init_net s))"
  by (cases r) (simp_all add: add_ops_def)

lemma append_net_ops_add_ops: "append_net_ops ops s = add_ops ModelNet ops s"
  by (simp add: append_net_ops_def add_ops_def)

lemma for_each_Broadcast_body:
  "map_of (m_device_grouped_blobs s) param = Some tbl \<Longrightarrow>
   map_of tbl master_gpu \<noteq> None \<Longrightarrow>
   \<forall>d\<in>set others. map_of tbl d \<noteq> None \<Longrightarrow>
   for_each (Broadcast_body nt param master_gpu) others s =
     (None, add_ops nt (copy_ops tbl master_gpu others) s)"
proof (induction others arbitrary: s)
  case Nil
  then show ?case by (simp add: copy_ops_def)
next
  case (Cons d others)
  from Cons.prems obtain src dst where src: "map_of tbl master_gpu = Some src"
    and dst: "map_of tbl d = Some dst" by auto
  let ?s1 = "add_ops nt [mk_op ''Copy'' [src] [dst] (DeviceOption CUDA d) None [] []] s"
  have b: "Broadcast_body nt param master_gpu d s = (None, ?s1)"
    using Cons.prems(1) src dst by (simp add: Broadcast_body_def add_op_add_ops)
  have "for_each (Broadcast_body nt param master_gpu) others ?s1 =
     (None, add_ops nt (copy_ops tbl master_gpu others) ?s1)"
    using Cons.prems by (intro Cons.IH) simp_all
  with b src dst show ?case by (simp add: copy_ops_def)
qed

lemma Broadcast_ok:
  "map_of (m_device_grouped_blobs s) param = Some tbl \<Longrightarrow>
   \<forall>d\<in>set (d0 # ds). map_of tbl d \<noteq> None \<Longrightarrow>
   Broadcast (d0 # ds) nt param s = (None, add_ops nt (copy_ops tbl d0 ds) s)"
  by (simp add: Broadcast_def for_each_Broadcast_body)

lemma ops_of_type_copy_ops [simp]:
  "t \<noteq> ''Copy'' \<Longrightarrow> ops_of_type t (copy_ops tbl d0 ds) = []"
  by (induction ds) (auto simp: copy_ops_def ops_of_type_def mk_op_def)

lemma body_ok:
  assumes tbl: "map_of (m_device_grouped_blobs s) gn = Some tbl"
    and mg: "map_of tbl d0 = Some mg"
    and pick: "pick_control cyc counter nc = Inr ctrl"
    and store: "store_control cyc counter nc (reduced_name rdv mg) = Inr cyc'"
  shows "\<exists>s'. allreduce_distributed_body d0 rdv nc gn (cyc, counter, nccl) s =
            (Inr (cyc', counter + 1, Some (hd (map snd tbl))), s') \<and>
          m_device_grouped_blobs s' = m_device_grouped_blobs s \<and>
          ops_of_type ''Allreduce'' (proto_op (m_net s')) =
            ops_of_type ''Allreduce'' (proto_op (m_net s)) @
            [mk_op ''Allreduce'' [gn @ ''_cw'', reduced_name rdv mg] [reduced_name rdv mg]
               (reducing_device rdv d0) ctrl [] [(''engine'', ArgStr (engine rdv))]] \<and>
          ops_of_type ''CreateCommonWorld'' (proto_op (m_param_init_net s')) =
            ops_of_type ''CreateCommonWorld'' (proto_op (m_param_init_net s)) @
            [CreateCommonWorld rdv (gn @ ''_cw'') (gn @ ''_cw_op'') (reducing_device rdv d0)]"
proof -
  from mg have "(d0, mg) \<in> set tbl" by (rule map_of_SomeD)
  then have mem: "mg \<in> snd ` set tbl" by force
  then obtain kv rest where tbl_eq: "tbl = kv # rest" by (cases tbl) auto
  show ?thesis
  proof (cases "engine rdv = ''RDMA_TCP''")
    case True
    then have red: "reduced_name rdv mg = mg @ ''_red'' @ ''cpu''"
      and dev: "reducing_device rdv d0 = DeviceOption CPU 0"
      by (simp_all add: reduced_name_def reducing_device_def)
    have ne: "DeviceOption CPU 0 \<noteq> DeviceOption CUDA d0" by (simp add: DeviceOption_def)
    show ?thesis
      using tbl mg mem pick store True ne unfolding red dev tbl_eq
      by (simp add: allreduce_distributed_body_def Let_def add_op_add_ops
          ops_of_type_Cons mk_op_def CreateCommonWorld_def)
  next
    case False
    then have red: "reduced_name rdv mg = mg @ ''_red''"
      and dev: "reducing_device rdv d0 = DeviceOption CUDA d0"
      by (simp_all add: reduced_name_def reducing_device_def)
    show ?thesis
      using tbl mg mem pick store False unfolding red dev tbl_eq
      by (simp add: allreduce_distributed_body_def Let_def add_op_add_ops
          ops_of_type_Cons mk_op_def CreateCommonWorld_def)
  qed
qed

subsection \<open>The loop of the distributed synchronisation\<close>

lemma window_chained_snoc:
  assumes "window_chained w A" "win_inv w cyc (map (\<lambda>op. hd (op_output op)) A)"
    and "control_input a = (if length A < w then None
            else Some ((map (\<lambda>op. hd (op_output op)) A) ! (length A - w)))"
    and "0 < w"
  shows "window_chained w (A @ [a])"
  unfolding window_chained_iff
proof (intro allI impI)
  fix k assume k: "k < length (A @ [a])"
  show "control_input ((A @ [a]) ! k) =
     (if k < w then None else Some (hd (op_output ((A @ [a]) ! (k - w)))))"
  proof (cases "k < length A")
    case True
    then have "k - w < length A" by simp
    with True assms(1) show ?thesis
      unfolding window_chained_iff by (simp add: nth_append)
  next
    case False
    with k have keq: "k = length A" by simp
    show ?thesis
    proof (cases "length A < w")
      case True
      with keq assms(3) show ?thesis by simp
    next
      case False
      then have "length A - w < length A" using assms(4) by simp
      with keq False assms(3) show ?thesis by (simp add: nth_append)
    qed
  qed
qed

lemma allreduce_distributed_loop_ok:
  assumes "store_complete (d0 # ds) names s" "0 < w"
    and "win_inv w cyc (map (\<lambda>op. hd (op_output op)) A0)"
    and "window_chained w A0"
  shows "\<exists>s' A1.
     allreduce_distributed_loop (d0 # ds) d0 rdv (int w) names
        (cyc, int (length A0), nccl) s = (None, s') \<and>
     m_device_grouped_blobs s' = m_device_grouped_blobs s \<and>
     ops_of_type ''Allreduce'' (proto_op (m_net s')) =
       ops_of_type ''Allreduce'' (proto_op (m_net s)) @ A1 \<and>
     length A1 = length names \<and>
     (\<forall>k<length names.
        op_input (A1 ! k) = [names ! k @ ''_cw'', reduced_name rdv (master_grad_of s d0 (names ! k))] \<and>
        op_output (A1 ! k) = [reduced_name rdv (master_grad_of s d0 (names ! k))]) \<and>
     window_chained w (A0 @ A1) \<and>
     ops_of_type ''CreateCommonWorld'' (proto_op (m_param_init_net s')) =
       ops_of_type ''CreateCommonWorld'' (proto_op (m_param_init_net s)) @
       map (\<lambda>n. CreateCommonWorld rdv (n @ ''_cw'') (n @ ''_cw_op'') (reducing_device rdv d0)) names"
  using assms
proof (induction names arbitrary: s cyc A0 nccl)
  case Nil
  then show ?case by simp
next
  case (Cons gn names)
  let ?R = "map (\<lambda>op. hd (op_output op)) A0"
  from Cons.prems(1) obtain tbl where tbl: "map_of (m_device_grouped_blobs s) gn = Some tbl"
    and all: "\<forall>d\<in>set (d0 # ds). map_of tbl d \<noteq> None"
    unfolding store_complete_def by auto
  then obtain mg where mg: "map_of tbl d0 = Some mg" by auto
  have mgo: "master_grad_of s d0 gn = mg" using tbl mg by (simp add: master_grad_of_def)
  let ?red = "reduced_name rdv mg"
  let ?ctrl = "if length ?R < w then None else Some (?R ! (length ?R - w))"
  have pick: "pick_control cyc (int (length A0)) (int w) = Inr ?ctrl"
    using pick_control_inv [OF Cons.prems(3) Cons.prems(2)] by simp
  from store_control_inv [OF Cons.prems(3) Cons.prems(2), of ?red]
  obtain cyc' where st: "store_control cyc (int (length A0)) (int w) ?red = Inr cyc'"
    and inv': "win_inv w cyc' (?R @ [?red])" by auto
  let ?a = "mk_op ''Allreduce'' [gn @ ''_cw'', ?red] [?red]
               (reducing_device rdv d0) ?ctrl [] [(''engine'', ArgStr (engine rdv))]"
  from body_ok [OF tbl mg pick st, where nccl = nccl]
  obtain s1 where body: "allreduce_distributed_body d0 rdv (int w) gn (cyc, int (length A0), nccl) s =
            (Inr (cyc', int (length A0) + 1, Some (hd (map snd tbl))), s1)"
    and store1: "m_device_grouped_blobs s1 = m_device_grouped_blobs s"
    and ar1: "ops_of_type ''Allreduce'' (proto_op (m_net s1)) =
            ops_of_type ''Allreduce'' (proto_op (m_net s)) @ [?a]"
    and cw1: "ops_of_type ''CreateCommonWorld'' (proto_op (m_param_init_net s1)) =
            ops_of_type ''CreateCommonWorld'' (proto_op (m_param_init_net s)) @
            [CreateCommonWorld rdv (gn @ ''_cw'') (gn @ ''_cw_op'') (reducing_device rdv d0)]"
    by blast
  let ?s2 = "add_ops ModelNet (copy_ops tbl d0 ds) s1"
  have bc: "Broadcast (d0 # ds) ModelNet gn s1 = (None, ?s2)"
    using tbl all store1 by (intro Broadcast_ok) simp_all
  have store2: "m_device_grouped_blobs ?s2 = m_device_grouped_blobs s" using store1 by simp
  have ar2: "ops_of_type ''Allreduce'' (proto_op (m_net ?s2)) =
            ops_of_type ''Allreduce'' (proto_op (m_net s)) @ [?a]"
    using ar1 by simp
  have cw2: "ops_of_type ''CreateCommonWorld'' (proto_op (m_param_init_net ?s2)) =
            ops_of_type ''CreateCommonWorld'' (proto_op (m_param_init_net s)) @
            [CreateCommonWorld rdv (gn @ ''_cw'') (gn @ ''_cw_op'') (reducing_device rdv d0)]"
    using cw1 by simp
  have sc2: "store_complete (d0 # ds) names ?s2"
    using Cons.prems(1) store2 unfolding store_complete_def by simp
  have out_a: "hd (op_output ?a) = ?red" by (simp add: mk_op_def)
  have inv2: "win_inv w cyc' (map (\<lambda>op. hd (op_output op)) (A0 @ [?a]))"
    using inv' out_a by simp
  have ctrl_a: "control_input ?a = (if length A0 < w then None
            else Some (?R ! (length A0 - w)))"
    by (simp add: mk_op_def)
  have wc2: "window_chained w (A0 @ [?a])"
    using window_chained_snoc [OF Cons.prems(4) Cons.prems(3) ctrl_a Cons.prems(2)] .
  have cnt: "int (length A0) + 1 = int (length (A0 @ [?a]))" by simp
  from Cons.IH [OF sc2 Cons.prems(2) inv2 wc2, where nccl = "Some (hd (map snd tbl))"]
  obtain s' A1 where
    run: "allreduce_distributed_loop (d0 # ds) d0 rdv (int w) names
        (cyc', int (length (A0 @ [?a])), Some (hd (map snd tbl))) ?s2 = (None, s')"
    and store': "m_device_grouped_blobs s' = m_device_grouped_blobs ?s2"
    and ar': "ops_of_type ''Allreduce'' (proto_op (m_net s')) =
       ops_of_type ''Allreduce'' (proto_op (m_net ?s2)) @ A1"
    and len': "length A1 = length names"
    and io': "\<forall>k<length names.
        op_input (A1 ! k) = [names ! k @ ''_cw'', reduced_name rdv (master_grad_of ?s2 d0 (names ! k))] \<and>
        op_output (A1 ! k) = [reduced_name rdv (master_grad_of ?s2 d0 (names ! k))]"
    and wc': "window_chained w ((A0 @ [?a]) @ A1)"
    and cw': "ops_of_type ''CreateCommonWorld'' (proto_op (m_param_init_net s')) =
       ops_of_type ''CreateCommonWorld'' (proto_op (m_param_init_net ?s2)) @
       map (\<lambda>n. CreateCommonWorld rdv (n @ ''_cw'') (n @ ''_cw_op'') (reducing_device rdv d0)) names"
    by blast
  have mgo2: "master_grad_of ?s2 d0 n = master_grad_of s d0 n" for n
    using store2 by (simp add: master_grad_of_def)
  have run0: "allreduce_distributed_loop (d0 # ds) d0 rdv (int w) (gn # names)
        (cyc, int (length A0), nccl) s = (None, s')"
    using body bc run unfolding cnt by simp
  have io: "\<forall>k<length (gn # names).
        op_input ((?a # A1) ! k) =
          [(gn # names) ! k @ ''_cw'', reduced_name rdv (master_grad_of s d0 ((gn # names) ! k))] \<and>
        op_output ((?a # A1) ! k) = [reduced_name rdv (master_grad_of s d0 ((gn # names) ! k))]"
  proof (intro allI impI)
    fix k assume k: "k < length (gn # names)"
    show "op_input ((?a # A1) ! k) =
          [(gn # names) ! k @ ''_cw'', reduced_name rdv (master_grad_of s d0 ((gn # names) ! k))] \<and>
        op_output ((?a # A1) ! k) = [reduced_name rdv (master_grad_of s d0 ((gn # names) ! k))]"
    proof (cases k)
      case 0
      then show ?thesis using mgo by (simp add: mk_op_def)
    next
      case (Suc j)
      with k have "j < length names" by simp
      with io' Suc mgo2 show ?thesis by simp
    qed
  qed
  show ?case
    apply (rule exI [of _ s'])
    apply (rule exI [of _ "?a # A1"])
    using run0 store' store2 ar' ar2 len' io wc' cw' cw2 by simp
qed

subsection \<open>Distributed gradient synchronisation\<close>

text \<open>
  Claim C1, amended. In distributed gradient sync, for every number of gradients and every
  shard count, exactly one cross-host \<^verbatim>\<open>Allreduce\<close> is issued per gradient key, in
  reduction order, and its control input comes from a sliding window whose size is
  \<open>min 4 (num_workers - 1)\<close>, where \<open>num_workers\<close> is the worker count of the model's net
  (which \<^verbatim>\<open>Parallelize_GPU\<close> sets to four per device plus eight): the first
  \<open>min 4 (num_workers - 1)\<close> all-reduces have no control input and every later one has the
  reduced tensor issued that many steps earlier. The shard count plays no part in the size
  of the window. The sync succeeds whenever there is a device, more than one worker, and
  the store holds a handle on every device for every gradient key.
\<close>

theorem distributed_allreduce_window:
  assumes "devices \<noteq> []" and "1 < proto_num_workers (m_net s)"
    and "store_complete devices (m_grad_names s) s"
  shows "\<exists>s' A. AllReduceGradientsDistributed devices rdv s = (None, s') \<and>
      cross_host_allreduces s' = cross_host_allreduces s @ A \<and>
      length A = length (m_grad_names s) \<and>
      (\<forall>k<length A.
         op_input (A ! k) =
           [GetReverseOrderedGrads s ! k @ ''_cw'',
            reduced_name rdv (master_grad_of s (hd devices) (GetReverseOrderedGrads s ! k))] \<and>
         op_output (A ! k) =
           [reduced_name rdv (master_grad_of s (hd devices) (GetReverseOrderedGrads s ! k))]) \<and>
      window_chained (nat (min 4 (proto_num_workers (m_net s) - 1))) A"
proof -
  from assms(1) obtain d0 ds where dev: "devices = d0 # ds" by (cases devices) auto
  let ?w = "nat (min 4 (proto_num_workers (m_net s) - 1))"
  let ?names = "GetReverseOrderedGrads s"
  have w: "0 < ?w" using assms(2) by simp
  have nc: "min 4 (proto_num_workers (m_net s) - 1) = int ?w" using assms(2) by simp
  have sc: "store_complete (d0 # ds) ?names s"
    using assms(3) dev by (simp add: store_complete_def GetReverseOrderedGrads_def)
  have wc0: "window_chained ?w []" by (simp add: window_chained_def)
  have inv0: "win_inv ?w [] (map (\<lambda>op. hd (op_output op)) [])" by (simp add: win_inv_def)
  from allreduce_distributed_loop_ok [OF sc w inv0 wc0, where rdv = rdv and nccl = None]
  obtain s' A where run: "allreduce_distributed_loop (d0 # ds) d0 rdv (int ?w) ?names
        ([], int (length ([]::operator list)), None) s = (None, s')"
    and ar: "ops_of_type ''Allreduce'' (proto_op (m_net s')) =
       ops_of_type ''Allreduce'' (proto_op (m_net s)) @ A"
    and len: "length A = length ?names"
    and io: "\<forall>k<length ?names.
        op_input (A ! k) = [?names ! k @ ''_cw'', reduced_name rdv (master_grad_of s d0 (?names ! k))] \<and>
        op_output (A ! k) = [reduced_name rdv (master_grad_of s d0 (?names ! k))]"
    and wc: "window_chained ?w ([] @ A)"
    by blast
  have "AllReduceGradientsDistributed devices rdv s = (None, s')"
    using assms(2) dev run nc by (simp add: AllReduceGradientsDistributed_def Let_def)
  moreover have "cross_host_allreduces s' = cross_host_allreduces s @ A"
    using ar by (simp add: cross_host_allreduces_def)
  moreover have "length A = length (m_grad_names s)"
    using len by (simp add: GetReverseOrderedGrads_def)
  ultimately show ?thesis using io wc len dev by auto
qed

theorem distributed_allreduce_window_witness:
  "\<exists>s' A. AllReduceGradientsDistributed [0] shard2 one_gpu_grads = (None, s') \<and>
      cross_host_allreduces s' = A \<and> length A = 2 \<and> window_chained 4 A"
proof -
  have 1: "[0::int] \<noteq> []" by simp
  have 2: "1 < proto_num_workers (m_net one_gpu_grads)"
    by (simp add: one_gpu_grads_def Net_def)
  have 3: "store_complete [0] (m_grad_names one_gpu_grads) one_gpu_grads"
    by (simp add: store_complete_def one_gpu_grads_def fresh_model_def)
  have 4: "nat (min 4 (proto_num_workers (m_net one_gpu_grads) - 1)) = 4"
    by (simp add: one_gpu_grads_def Net_def)
  have 5: "cross_host_allreduces one_gpu_grads = []"
    by (simp add: cross_host_allreduces_def one_gpu_grads_def Net_def)
  have 6: "length (m_grad_names one_gpu_grads) = 2"
    by (simp add: one_gpu_grads_def)
  from distributed_allreduce_window [OF 1 2 3, of shard2] show ?thesis
    unfolding 4 5 6 by auto
qed

text \<open>
  Claim C1 as stated fails: with one device and two shards, \<^verbatim>\<open>Parallelize_GPU\<close> sets twelve
  workers, the window has size four, and the second of two all-reduces has no control
  input, where a window of size \<open>min 4 (shard_count - 1) = 1\<close> would chain it to the first.
\<close>

theorem shard_count_window_counterexample:
  "fst (demo_run [0] (Some shard2)) = None \<and>
   length (cross_host_allreduces (snd (demo_run [0] (Some shard2)))) = 2 \<and>
   nat (min 4 (num_shards shard2 - 1)) = 1 \<and>
   \<not> window_chained (nat (min 4 (num_shards shard2 - 1)))
        (cross_host_allreduces (snd (demo_run [0] (Some shard2))))"
  by code_simp

subsection \<open>Floats\<close>

subsubsection \<open>Powers of two and the binary exponent\<close>




lemma powi_nat: "0 \<le> k \<Longrightarrow> (2::rat) powi k = 2 ^ nat k"
  by (simp add: power_int_def)




subsubsection \<open>Rounding to a double\<close>


lemma round_half_even_of_int [simp]: "round_half_even (of_int m) = m"
  by (simp add: round_half_even_def)



subsubsection \<open>Integers and their inverses\<close>










subsubsection \<open>The error of an inverse\<close>







subsection \<open>The replication driver\<close>









text \<open>
  Claim C10. When the model's parameter list is not empty at entry, \<^verbatim>\<open>Parallelize_GPU\<close>
  raises the assertion error ``Model needs to be empty'' whatever the builder functions
  are, so before any of them is called; it has by then stored the worker count, the net
  type, the devices, the rendezvous and an empty list of gradient names on the model, and
  the operators of the model's nets are those it had at entry.
\<close>

theorem Parallelize_GPU_requires_empty_model:
  assumes "m_params s \<noteq> []"
  shows "Parallelize_GPU grads share ibf fpf pubf devices rdv nt bcp ogm s =
           (Some (AssertionError ''Model needs to be empty''),
            s\<lparr>m_net := (m_net s)
                 \<lparr>proto_num_workers := int (length devices) * 4 + (if rdv \<noteq> None then 8 else 0),
                  proto_type := nt\<rparr>,
               m_devices := devices, m_rendezvous := rdv, m_grad_names := []\<rparr>) \<and>
         proto_op (m_net (snd (Parallelize_GPU grads share ibf fpf pubf devices rdv nt bcp ogm s))) =
           proto_op (m_net s) \<and>
         m_param_init_net (snd (Parallelize_GPU grads share ibf fpf pubf devices rdv nt bcp ogm s)) =
           m_param_init_net s"
  using assms by (simp add: Parallelize_GPU_def Let_def)

theorem Parallelize_GPU_requires_empty_model_witness:
  "fst (Parallelize_GPU demo_gradients no_sharing demo_input demo_forward (Some logging_update)
      [0, 1] None ''dag'' True False nonempty_model) =
     Some (AssertionError ''Model needs to be empty'') \<and>
   proto_op (m_net (snd (Parallelize_GPU demo_gradients no_sharing demo_input demo_forward
      (Some logging_update) [0, 1] None ''dag'' True False nonempty_model))) = []"
proof -
  have "m_params nonempty_model \<noteq> []" by (simp add: nonempty_model_def)
  from Parallelize_GPU_requires_empty_model [OF this, where grads = demo_gradients
      and share = no_sharing and ibf = demo_input and fpf = demo_forward
      and pubf = "Some logging_update" and devices = "[0, 1]" and rdv = None
      and nt = "''dag''" and bcp = True and ogm = False]
  show ?thesis by (simp add: nonempty_model_def fresh_model_def Net_def)
qed

subsection \<open>Parameter synchronisation across hosts\<close>

lemma sync_frame_refl [simp]: "sync_frame s s"
  by (simp add: sync_frame_def)

lemma sync_frame_trans: "sync_frame s s1 \<Longrightarrow> sync_frame s1 s2 \<Longrightarrow> sync_frame s s2"
  by (simp add: sync_frame_def)

lemma add_ops_fields [simp]:
  "workspace_log (add_ops r ops s) = workspace_log s"
  "has_checkpoint_net (add_ops r ops s) = has_checkpoint_net s"
  "m_devices (add_ops r ops s) = m_devices s"
  "m_rendezvous (add_ops r ops s) = m_rendezvous s"
  by (cases r; simp add: add_ops_def)+

lemma sync_frame_add_ops:
  "ops_of_type ''Copy'' ops = [] \<Longrightarrow> sync_frame s (add_ops r ops s)"
  by (simp add: sync_frame_def get_net_add_ops)

lemma creations_add_ops:
  "common_world_creations (get_net r' (add_ops r ops s)) =
     (if r' = r then common_world_creations (get_net r s) @ ops_of_type ''CreateCommonWorld'' ops
      else common_world_creations (get_net r' s))"
  by (simp add: common_world_creations_def get_net_add_ops)

lemma param_sync_body_ok:
  assumes tbl: "map_of (m_device_grouped_blobs s) pn = Some tbl"
    and p: "map_of tbl d0 = Some param"
  shows "\<exists>s'. param_sync_body d0 init_net nt rdv pn s = (None, s') \<and> sync_frame s s' \<and>
      common_world_creations (get_net init_net s') =
        common_world_creations (get_net init_net s) @
        [CreateCommonWorld rdv (pn @ ''_cw'') (proto_name (get_net nt s) @ ''.'' @ pn @ ''_cw_op'')
           (DeviceOption CPU 0)]"
proof -
  let ?o1 = "mk_op ''CopyGPUToCPU'' [param] [param @ ''cpu''] (DeviceOption CUDA d0) None [] []"
  let ?o2 = "CreateCommonWorld rdv (pn @ ''_cw'') (proto_name (get_net nt s) @ ''.'' @ pn @ ''_cw_op'')
           (DeviceOption CPU 0)"
  let ?o3 = "mk_op ''Broadcast'' [pn @ ''_cw'', param @ ''cpu''] [param @ ''cpu'']
               (DeviceOption CPU 0) None [] [(''engine'', ArgStr (engine rdv))]"
  let ?o4 = "mk_op ''CopyCPUToGPU'' [param @ ''cpu''] [param] (DeviceOption CUDA d0) None [] []"
  let ?s1 = "add_ops nt [?o1] s"
  let ?s2 = "add_ops init_net [?o2] ?s1"
  let ?s3 = "add_ops nt [?o3] ?s2"
  let ?s4 = "add_ops nt [?o4] ?s3"
  have run: "param_sync_body d0 init_net nt rdv pn s = (None, ?s4)"
    using tbl p by (simp add: param_sync_body_def Let_def add_op_add_ops get_net_add_ops)
  have t: "ops_of_type ''Copy'' [?o1] = []" "ops_of_type ''Copy'' [?o2] = []"
    "ops_of_type ''Copy'' [?o3] = []" "ops_of_type ''Copy'' [?o4] = []"
    by (simp_all add: ops_of_type_def mk_op_def CreateCommonWorld_def)
  have f: "sync_frame s ?s4"
    using sync_frame_add_ops [OF t(1), of s nt] sync_frame_add_ops [OF t(2), of ?s1 init_net]
      sync_frame_add_ops [OF t(3), of ?s2 nt] sync_frame_add_ops [OF t(4), of ?s3 nt]
    by (meson sync_frame_trans)
  have cw: "common_world_creations (get_net init_net ?s4) =
        common_world_creations (get_net init_net s) @ [?o2]"
    by (simp add: creations_add_ops ops_of_type_Cons mk_op_def CreateCommonWorld_def
        del: add_ops_add_ops)
  from run f cw show ?thesis by blast
qed

lemma for_each_param_sync_body:
  assumes "store_complete (d0 # ds) names s"
  shows "\<exists>s'. for_each (param_sync_body d0 init_net nt rdv) names s = (None, s') \<and>
      sync_frame s s' \<and>
      common_world_creations (get_net init_net s') =
        common_world_creations (get_net init_net s) @
        map (\<lambda>n. CreateCommonWorld rdv (n @ ''_cw'')
                    (proto_name (get_net nt s) @ ''.'' @ n @ ''_cw_op'') (DeviceOption CPU 0)) names"
  using assms
proof (induction names arbitrary: s)
  case Nil
  show ?case by simp
next
  case (Cons pn names)
  from Cons.prems obtain tbl param where tbl: "map_of (m_device_grouped_blobs s) pn = Some tbl"
    and p: "map_of tbl d0 = Some param"
    unfolding store_complete_def by fastforce
  from param_sync_body_ok [OF tbl p, of init_net nt rdv]
  obtain s1 where b: "param_sync_body d0 init_net nt rdv pn s = (None, s1)"
    and f1: "sync_frame s s1"
    and c1: "common_world_creations (get_net init_net s1) =
        common_world_creations (get_net init_net s) @
        [CreateCommonWorld rdv (pn @ ''_cw'') (proto_name (get_net nt s) @ ''.'' @ pn @ ''_cw_op'')
           (DeviceOption CPU 0)]" by blast
  have sc: "store_complete (d0 # ds) names s1"
    using Cons.prems f1 by (simp add: store_complete_def sync_frame_def)
  from Cons.IH [OF sc] obtain s' where
    r: "for_each (param_sync_body d0 init_net nt rdv) names s1 = (None, s')"
    and f2: "sync_frame s1 s'"
    and c2: "common_world_creations (get_net init_net s') =
        common_world_creations (get_net init_net s1) @
        map (\<lambda>n. CreateCommonWorld rdv (n @ ''_cw'')
                    (proto_name (get_net nt s1) @ ''.'' @ n @ ''_cw_op'') (DeviceOption CPU 0)) names"
    by blast
  have nm: "proto_name (get_net nt s1) = proto_name (get_net nt s)"
    using f1 by (simp add: sync_frame_def)
  show ?case
    using b r sync_frame_trans [OF f1 f2] c1 c2 nm by simp
qed

lemma AddDistributedParameterSync_ok:
  assumes "store_complete (d0 # ds) names s"
  shows "\<exists>s'. AddDistributedParameterSync (d0 # ds) init_net nt rdv (Some names) s = (None, s') \<and>
      sync_frame s s' \<and>
      common_world_creations (get_net init_net s') =
        common_world_creations (get_net init_net s) @
        CreateCommonWorld rdv ''iter_cw'' (proto_name (get_net nt s) @ ''.iter_cw_op'')
          (DeviceOption CPU 0) #
        map (\<lambda>n. CreateCommonWorld rdv (n @ ''_cw'')
                    (proto_name (get_net nt s) @ ''.'' @ n @ ''_cw_op'') (DeviceOption CPU 0))
          (sort names)"
proof -
  let ?o1 = "CreateCommonWorld rdv ''iter_cw'' (proto_name (get_net nt s) @ ''.iter_cw_op'')
          (DeviceOption CPU 0)"
  let ?o2 = "mk_op ''Broadcast'' [''iter_cw'', gpu_name d0 @ ''/ITER''] [gpu_name d0 @ ''/ITER'']
               (DeviceOption CPU 0) None [] [(''engine'', ArgStr (engine rdv))]"
  let ?s1 = "add_ops init_net [?o1] s"
  let ?s2 = "add_ops nt [?o2] ?s1"
  have t: "ops_of_type ''Copy'' [?o1] = []" "ops_of_type ''Copy'' [?o2] = []"
    by (simp_all add: ops_of_type_def mk_op_def CreateCommonWorld_def)
  have f: "sync_frame s ?s2"
    using sync_frame_add_ops [OF t(1), of s init_net] sync_frame_add_ops [OF t(2), of ?s1 nt]
    by (meson sync_frame_trans)
  have cw: "common_world_creations (get_net init_net ?s2) =
        common_world_creations (get_net init_net s) @ [?o1]"
    by (simp add: creations_add_ops ops_of_type_Cons mk_op_def CreateCommonWorld_def
        del: add_ops_add_ops)
  have sc: "store_complete (d0 # ds) (sort names) ?s2"
    using assms by (simp add: store_complete_def)
  from for_each_param_sync_body [OF sc, of init_net nt rdv] obtain s' where
    r: "for_each (param_sync_body d0 init_net nt rdv) (sort names) ?s2 = (None, s')"
    and f2: "sync_frame ?s2 s'"
    and c2: "common_world_creations (get_net init_net s') =
        common_world_creations (get_net init_net ?s2) @
        map (\<lambda>n. CreateCommonWorld rdv (n @ ''_cw'')
                    (proto_name (get_net nt ?s2) @ ''.'' @ n @ ''_cw_op'') (DeviceOption CPU 0))
          (sort names)"
    by blast
  have nm: "proto_name (get_net nt ?s2) = proto_name (get_net nt s)"
    using f by (simp add: sync_frame_def)
  have run: "AddDistributedParameterSync (d0 # ds) init_net nt rdv (Some names) s = (None, s')"
    using r by (simp add: AddDistributedParameterSync_def Let_def add_op_add_ops)
  show ?thesis
    using run sync_frame_trans [OF f f2] c2 cw nm by simp
qed

subsection \<open>Formation of communication groups\<close>

text \<open>
  Claim C9, amended. Forming a communication group is not memoized: every formation
  inserts one \<^verbatim>\<open>CreateCommonWorld\<close> operator into the init net, with the output blob
  \<^verbatim>\<open><key>_cw\<close> that the key determines, whether or not a group was formed for that key
  before. A parameter sync forms one group for the iteration counter and one for each
  name it is given, in sorted order; a distributed gradient sync forms one group for each
  gradient key, in reduction order; and a second parameter sync over the same names
  inserts the same creations a second time.
\<close>

theorem common_world_created_at_each_formation:
  "(devices \<noteq> [] \<and> store_complete devices names s \<longrightarrow>
      (\<exists>s'. AddDistributedParameterSync devices init_net nt rdv (Some names) s = (None, s') \<and>
         common_world_creations (get_net init_net s') =
           common_world_creations (get_net init_net s) @
           param_world_creations rdv (proto_name (get_net nt s)) names)) \<and>
   (devices \<noteq> [] \<and> store_complete devices names s \<longrightarrow>
      (\<exists>s1 s2. AddDistributedParameterSync devices init_net nt rdv (Some names) s = (None, s1) \<and>
         AddDistributedParameterSync devices init_net nt rdv (Some names) s1 = (None, s2) \<and>
         common_world_creations (get_net init_net s2) =
           common_world_creations (get_net init_net s) @
           param_world_creations rdv (proto_name (get_net nt s)) names @
           param_world_creations rdv (proto_name (get_net nt s)) names)) \<and>
   (devices \<noteq> [] \<and> 1 < proto_num_workers (m_net s) \<and>
    store_complete devices (m_grad_names s) s \<longrightarrow>
      (\<exists>s'. AllReduceGradientsDistributed devices rdv s = (None, s') \<and>
         common_world_creations (m_param_init_net s') =
           common_world_creations (m_param_init_net s) @
           map (\<lambda>n. CreateCommonWorld rdv (n @ ''_cw'') (n @ ''_cw_op'')
                       (reducing_device rdv (hd devices))) (GetReverseOrderedGrads s)))"
proof (intro conjI impI)
  assume h: "devices \<noteq> [] \<and> store_complete devices names s"
  then obtain d0 ds where dev: "devices = d0 # ds" by (cases devices) auto
  from h dev have sc: "store_complete (d0 # ds) names s" by simp
  from AddDistributedParameterSync_ok [OF sc, of init_net nt rdv] dev
  show "\<exists>s'. AddDistributedParameterSync devices init_net nt rdv (Some names) s = (None, s') \<and>
         common_world_creations (get_net init_net s') =
           common_world_creations (get_net init_net s) @
           param_world_creations rdv (proto_name (get_net nt s)) names"
    unfolding param_world_creations_def by auto
next
  assume h: "devices \<noteq> [] \<and> store_complete devices names s"
  then obtain d0 ds where dev: "devices = d0 # ds" by (cases devices) auto
  from h dev have sc: "store_complete (d0 # ds) names s" by simp
  from AddDistributedParameterSync_ok [OF sc, of init_net nt rdv] obtain s1 where
    r1: "AddDistributedParameterSync (d0 # ds) init_net nt rdv (Some names) s = (None, s1)"
    and f1: "sync_frame s s1"
    and c1: "common_world_creations (get_net init_net s1) =
           common_world_creations (get_net init_net s) @
           param_world_creations rdv (proto_name (get_net nt s)) names"
    unfolding param_world_creations_def by blast
  have sc1: "store_complete (d0 # ds) names s1"
    using sc f1 by (simp add: store_complete_def sync_frame_def)
  from AddDistributedParameterSync_ok [OF sc1, of init_net nt rdv] obtain s2 where
    r2: "AddDistributedParameterSync (d0 # ds) init_net nt rdv (Some names) s1 = (None, s2)"
    and c2: "common_world_creations (get_net init_net s2) =
           common_world_creations (get_net init_net s1) @
           param_world_creations rdv (proto_name (get_net nt s1)) names"
    unfolding param_world_creations_def by blast
  have nm: "proto_name (get_net nt s1) = proto_name (get_net nt s)"
    using f1 by (simp add: sync_frame_def)
  from r1 r2 c1 c2 nm dev
  show "\<exists>s1 s2. AddDistributedParameterSync devices init_net nt rdv (Some names) s = (None, s1) \<and>
         AddDistributedParameterSync devices init_net nt rdv (Some names) s1 = (None, s2) \<and>
         common_world_creations (get_net init_net s2) =
           common_world_creations (get_net init_net s) @
           param_world_creations rdv (proto_name (get_net nt s)) names @
           param_world_creations rdv (proto_name (get_net nt s)) names"
    by auto
next
  assume h: "devices \<noteq> [] \<and> 1 < proto_num_workers (m_net s) \<and>
    store_complete devices (m_grad_names s) s"
  then obtain d0 ds where dev: "devices = d0 # ds" by (cases devices) auto
  let ?w = "nat (min 4 (proto_num_workers (m_net s) - 1))"
  let ?names = "GetReverseOrderedGrads s"
  have w: "0 < ?w" using h by simp
  have nc: "min 4 (proto_num_workers (m_net s) - 1) = int ?w" using h by simp
  have sc: "store_complete (d0 # ds) ?names s"
    using h dev by (simp add: store_complete_def GetReverseOrderedGrads_def)
  have wc0: "window_chained ?w []" by (simp add: window_chained_def)
  have inv0: "win_inv ?w [] (map (\<lambda>op. hd (op_output op)) [])" by (simp add: win_inv_def)
  from allreduce_distributed_loop_ok [OF sc w inv0 wc0, where rdv = rdv and nccl = None]
  obtain s' where run: "allreduce_distributed_loop (d0 # ds) d0 rdv (int ?w) ?names
        ([], int (length ([]::operator list)), None) s = (None, s')"
    and cw: "ops_of_type ''CreateCommonWorld'' (proto_op (m_param_init_net s')) =
       ops_of_type ''CreateCommonWorld'' (proto_op (m_param_init_net s)) @
       map (\<lambda>n. CreateCommonWorld rdv (n @ ''_cw'') (n @ ''_cw_op'') (reducing_device rdv d0)) ?names"
    by blast
  have "AllReduceGradientsDistributed devices rdv s = (None, s')"
    using h dev run nc by (simp add: AllReduceGradientsDistributed_def Let_def)
  with cw dev
  show "\<exists>s'. AllReduceGradientsDistributed devices rdv s = (None, s') \<and>
         common_world_creations (m_param_init_net s') =
           common_world_creations (m_param_init_net s) @
           map (\<lambda>n. CreateCommonWorld rdv (n @ ''_cw'') (n @ ''_cw_op'')
                       (reducing_device rdv (hd devices))) (GetReverseOrderedGrads s)"
    by (auto simp: common_world_creations_def)
qed

theorem common_world_created_at_each_formation_witness:
  "(\<exists>s1 s2. AddDistributedParameterSync [0] ParamInitNet ParamInitNet shard2 (Some [''w_grad''])
        one_gpu_grads = (None, s1) \<and>
      AddDistributedParameterSync [0] ParamInitNet ParamInitNet shard2 (Some [''w_grad'']) s1 =
        (None, s2) \<and>
      length (common_world_creations (m_param_init_net s2)) = 4) \<and>
   (\<exists>s'. AllReduceGradientsDistributed [0] shard2 one_gpu_grads = (None, s') \<and>
      length (common_world_creations (m_param_init_net s')) = 2)"
proof -
  have sc: "store_complete [0] [''w_grad''] one_gpu_grads"
    by (simp add: store_complete_def one_gpu_grads_def fresh_model_def)
  have sc2: "store_complete [0] (m_grad_names one_gpu_grads) one_gpu_grads"
    by (simp add: store_complete_def one_gpu_grads_def fresh_model_def)
  have nw: "1 < proto_num_workers (m_net one_gpu_grads)"
    by (simp add: one_gpu_grads_def Net_def)
  have c0: "common_world_creations (m_param_init_net one_gpu_grads) = []"
    by (simp add: common_world_creations_def one_gpu_grads_def fresh_model_def Net_def)
  have n: "length (GetReverseOrderedGrads one_gpu_grads) = 2"
    by (simp add: GetReverseOrderedGrads_def one_gpu_grads_def)
  note inst = common_world_created_at_each_formation [where devices = "[0]"
      and names = "[''w_grad'']" and s = one_gpu_grads and init_net = ParamInitNet
      and nt = ParamInitNet and rdv = shard2]
  from inst sc obtain s1 s2 where
    "AddDistributedParameterSync [0] ParamInitNet ParamInitNet shard2 (Some [''w_grad''])
        one_gpu_grads = (None, s1)"
    "AddDistributedParameterSync [0] ParamInitNet ParamInitNet shard2 (Some [''w_grad'']) s1 =
        (None, s2)"
    "common_world_creations (get_net ParamInitNet s2) =
           common_world_creations (get_net ParamInitNet one_gpu_grads) @
           param_world_creations shard2 (proto_name (get_net ParamInitNet one_gpu_grads)) [''w_grad''] @
           param_world_creations shard2 (proto_name (get_net ParamInitNet one_gpu_grads)) [''w_grad'']"
    by auto
  then have a: "\<exists>s1 s2. AddDistributedParameterSync [0] ParamInitNet ParamInitNet shard2
        (Some [''w_grad'']) one_gpu_grads = (None, s1) \<and>
      AddDistributedParameterSync [0] ParamInitNet ParamInitNet shard2 (Some [''w_grad'']) s1 =
        (None, s2) \<and>
      length (common_world_creations (m_param_init_net s2)) = 4"
    using c0 by (auto simp: param_world_creations_def)
  from inst sc2 nw obtain s' where
    "AllReduceGradientsDistributed [0] shard2 one_gpu_grads = (None, s')"
    "common_world_creations (m_param_init_net s') =
           common_world_creations (m_param_init_net one_gpu_grads) @
           map (\<lambda>n. CreateCommonWorld shard2 (n @ ''_cw'') (n @ ''_cw_op'')
                       (reducing_device shard2 (hd [0]))) (GetReverseOrderedGrads one_gpu_grads)"
    by auto
  then have b: "\<exists>s'. AllReduceGradientsDistributed [0] shard2 one_gpu_grads = (None, s') \<and>
      length (common_world_creations (m_param_init_net s')) = 2"
    using c0 n by auto
  from a b show ?thesis by blast
qed

text \<open>
  Claim C9 as stated fails: after a distributed run of \<^verbatim>\<open>Parallelize_GPU\<close> on one device,
  whose parameter sync formed the group of the parameter \<open>w\<close> in the init net,
  \<^verbatim>\<open>FinalizeAfterCheckpoint\<close> forms a group for \<open>w\<close> once more, in its own init net: the
  process holds two creations of \<^verbatim>\<open>w_cw\<close>.
\<close>

theorem common_world_created_twice_counterexample:
  "fst (demo_run [0] (Some shard2)) = None \<and> fst demo_checkpoint = None \<and>
   length (creations_of ''w'' (m_param_init_net (snd demo_checkpoint))) +
   length (creations_of ''w'' (checkpoint_init_net (snd demo_checkpoint))) = 2"
  by code_simp

subsection \<open>Registration and local synchronisation\<close>

lemma fold_add_op: "fold (add_op r) ops s = add_ops r ops s"
  by (induction ops arbitrary: s) (simp_all add: add_op_add_ops)

lemma map_of_fold_update:
  "map_of (fold (\<lambda>d t. AList.update d (f d) t) ds acc) k =
     (if k \<in> set ds then Some (f k) else map_of acc k)"
  by (induction ds arbitrary: acc) (auto simp: update_conv')

lemma map_of_synthesized_table:
  "map_of (synthesized_table devices name) d =
     (if d \<in> set devices then Some (gpu_name d @ [NAMESCOPE_SEPARATOR] @ name) else None)"
  unfolding synthesized_table_def by (simp add: map_of_fold_update)

lemma map_of_register_blob:
  "map_of (register_blob devices n g) k =
     (if k = n \<and> map_of g n = None then Some (synthesized_table devices n) else map_of g k)"
  by (auto simp: register_blob_def update_conv' split: option.splits)

lemma map_of_fold_register_blob:
  "map_of (fold (register_blob devices) names g) k =
     (case map_of g k of
        Some t \<Rightarrow> Some t
      | None \<Rightarrow> (if k \<in> set names then Some (synthesized_table devices k) else None))"
proof (induction names arbitrary: g)
  case Nil
  show ?case by (simp split: option.splits)
next
  case (Cons n names)
  show ?case
    by (simp add: Cons.IH map_of_register_blob split: option.splits)
qed

lemma registered_lookup:
  "n \<in> set names \<Longrightarrow>
   map_of (fold (register_blob devices) names g) n = Some (registered_table devices g n)"
  by (simp add: map_of_fold_register_blob registered_table_def split: option.splits)

lemma ops_of_type_Copy_copy_ops [simp]:
  "ops_of_type ''Copy'' (copy_ops tbl d0 ds) = copy_ops tbl d0 ds"
  by (induction ds) (simp_all add: copy_ops_def ops_of_type_def mk_op_def)

lemma ops_of_type_Copy_sync_copies [simp]:
  "ops_of_type ''Copy'' (sync_copies g devices names) = sync_copies g devices names"
  by (induction names) (simp_all add: sync_copies_def)

lemma ops_of_type_Copy_sync_iter_ops [simp]:
  "ops_of_type ''Copy'' (sync_iter_ops devices) = sync_iter_ops devices"
  unfolding sync_iter_ops_def
  by (induction "tl devices") (simp_all add: ops_of_type_def mk_op_def)

lemma for_each_Broadcast:
  assumes "store_complete (d0 # ds) names s"
  shows "for_each (Broadcast (d0 # ds) nt) names s =
           (None, add_ops nt (sync_copies (m_device_grouped_blobs s) (d0 # ds) names) s)"
  using assms
proof (induction names arbitrary: s)
  case Nil
  show ?case by (simp add: sync_copies_def)
next
  case (Cons n names)
  from Cons.prems obtain tbl where tbl: "map_of (m_device_grouped_blobs s) n = Some tbl"
    and all: "\<forall>d\<in>set (d0 # ds). map_of tbl d \<noteq> None"
    unfolding store_complete_def by auto
  let ?s1 = "add_ops nt (copy_ops tbl d0 ds) s"
  have b: "Broadcast (d0 # ds) nt n s = (None, ?s1)"
    using tbl all by (rule Broadcast_ok)
  have sc: "store_complete (d0 # ds) names ?s1"
    using Cons.prems by (simp add: store_complete_def)
  show ?case
    using b Cons.IH [OF sc] tbl by (simp add: sync_copies_def)
qed

lemma SyncParams_ok:
  assumes "store_complete (d0 # ds) names s"
  shows "SyncParams (d0 # ds) nt (Some names) s =
           (None, add_ops nt (sync_copies (m_device_grouped_blobs s) (d0 # ds) names) s)"
  using for_each_Broadcast [OF assms] by (simp add: SyncParams_def)

lemma FinalizeAfterCheckpoint_built:
  "has_checkpoint_net s \<Longrightarrow>
   FinalizeAfterCheckpoint blobs si s =
     (None, s\<lparr>workspace_log := workspace_log s @ [RunNet (proto_name (m_checkpoint_net s))]\<rparr>)"
  by (simp add: FinalizeAfterCheckpoint_def and_then_def skip_def workspace_call_def)

lemma finalize_calls_built:
  "has_checkpoint_net s \<Longrightarrow>
   finalize_calls calls s =
     (None, s\<lparr>workspace_log := workspace_log s @
                 replicate (length calls) (RunNet (proto_name (m_checkpoint_net s)))\<rparr>)"
proof (induction calls arbitrary: s)
  case Nil
  show ?case by (simp add: finalize_calls_def)
next
  case (Cons c calls)
  let ?s1 = "s\<lparr>workspace_log := workspace_log s @ [RunNet (proto_name (m_checkpoint_net s))]\<rparr>"
  have 1: "FinalizeAfterCheckpoint (fst c) (snd c) s = (None, ?s1)"
    using Cons.prems by (rule FinalizeAfterCheckpoint_built)
  have 2: "has_checkpoint_net ?s1" using Cons.prems by simp
  have 3: "finalize_calls (c # calls) s = finalize_calls calls ?s1"
    using 1 by (simp add: finalize_calls_def)
  show ?case
    unfolding 3 Cons.IH [OF 2] by (simp add: replicate_append_same)
qed

subsection \<open>Construction of the checkpoint net\<close>

lemma and_then_ok: "p s = (None, s1) \<Longrightarrow> q s1 = r \<Longrightarrow> and_then p q s = r"
  by (simp add: and_then_def)

lemma checkpoint_net_add_ops [simp]:
  "m_checkpoint_net (add_ops r ops s) =
     (if r = CheckpointNet
      then (m_checkpoint_net s)\<lparr>proto_op := proto_op (m_checkpoint_net s) @ ops\<rparr>
      else m_checkpoint_net s)"
  "checkpoint_init_net (add_ops r ops s) =
     (if r = CheckpointInitNet
      then (checkpoint_init_net s)\<lparr>proto_op := proto_op (checkpoint_init_net s) @ ops\<rparr>
      else checkpoint_init_net s)"
  by (cases r; simp add: add_ops_def)+

lemma build_checkpoint_net_ok:
  assumes D: "m_devices s = d0 # ds"
    and names: "strip_all blobs = Inr names"
    and complete: "\<forall>n\<in>set names. \<forall>t. map_of (m_device_grouped_blobs s) n = Some t \<longrightarrow>
          (\<forall>d\<in>set (d0 # ds). map_of t d \<noteq> None)"
  shows "\<exists>s'. build_checkpoint_net blobs si s = (None, s') \<and> has_checkpoint_net s' \<and>
      proto_name (m_checkpoint_net s') = ''checkpoint_sync_net'' \<and>
      m_device_grouped_blobs s' =
        fold (register_blob (d0 # ds)) names (m_device_grouped_blobs s) \<and>
      workspace_log s' = workspace_log s @
        (case m_rendezvous s of None \<Rightarrow> [] | Some r \<Rightarrow> [RunNetOnce (checkpoint_init_net s')]) @
        [CreateNet (m_checkpoint_net s')] \<and>
      ops_of_type ''Copy'' (proto_op (m_checkpoint_net s')) =
        sync_copies (m_device_grouped_blobs s') (d0 # ds) names @
        (if si then sync_iter_ops (d0 # ds) else [])"
proof -
  let ?D = "d0 # ds"
  let ?g = "fold (register_blob ?D) names (m_device_grouped_blobs s)"
  let ?s1 = "s\<lparr>m_device_grouped_blobs := ?g\<rparr>"
  let ?s2 = "?s1\<lparr>m_checkpoint_net := RunAllOnGPU (Net ''checkpoint_sync_net''),
                 has_checkpoint_net := True\<rparr>"
  let ?copies = "sync_copies ?g ?D names"
  let ?iter = "if si then sync_iter_ops ?D else []"
  have tbls: "\<forall>n\<in>set names. \<exists>tbl. map_of ?g n = Some tbl \<and> (\<forall>d\<in>set ?D. map_of tbl d \<noteq> None)"
  proof
    fix n assume n: "n \<in> set names"
    have l: "map_of ?g n = Some (registered_table ?D (m_device_grouped_blobs s) n)"
      using n by (rule registered_lookup)
    have "\<forall>d\<in>set ?D. map_of (registered_table ?D (m_device_grouped_blobs s) n) d \<noteq> None"
    proof (cases "map_of (m_device_grouped_blobs s) n")
      case None
      then show ?thesis
        by (simp add: registered_table_def map_of_synthesized_table)
    next
      case (Some t)
      with complete n show ?thesis by (simp add: registered_table_def)
    qed
    with l show "\<exists>tbl. map_of ?g n = Some tbl \<and> (\<forall>d\<in>set ?D. map_of tbl d \<noteq> None)"
      by blast
  qed
  have tail: "\<exists>s'. and_then (SyncParams ?D CheckpointNet (Some names))
              (and_then (\<lambda>s5. (None, if si
                                      then fold (add_op CheckpointNet) (sync_iter_ops ?D) s5
                                      else s5))
                        (\<lambda>s6. workspace_call (CreateNet (m_checkpoint_net s6)) s6)) sB = (None, s') \<and>
       has_checkpoint_net s' \<and> proto_name (m_checkpoint_net s') = ''checkpoint_sync_net'' \<and>
       m_device_grouped_blobs s' = ?g \<and>
       workspace_log s' = workspace_log sB @ [CreateNet (m_checkpoint_net s')] \<and>
       checkpoint_init_net s' = checkpoint_init_net sB \<and>
       ops_of_type ''Copy'' (proto_op (m_checkpoint_net s')) = ?copies @ ?iter"
    if sB: "m_device_grouped_blobs sB = ?g" "has_checkpoint_net sB"
      "proto_name (m_checkpoint_net sB) = ''checkpoint_sync_net''"
      "ops_of_type ''Copy'' (proto_op (m_checkpoint_net sB)) = []" for sB
  proof -
    have sc: "store_complete ?D names sB"
      using tbls sB(1) by (simp add: store_complete_def)
    let ?sC = "add_ops CheckpointNet ?copies sB"
    let ?sD = "add_ops CheckpointNet ?iter ?sC"
    let ?sE = "?sD\<lparr>workspace_log := workspace_log ?sD @ [CreateNet (m_checkpoint_net ?sD)]\<rparr>"
    have 1: "SyncParams ?D CheckpointNet (Some names) sB = (None, ?sC)"
      using SyncParams_ok [OF sc, of CheckpointNet] sB(1) by simp
    have 2: "(if si then fold (add_op CheckpointNet) (sync_iter_ops ?D) ?sC else ?sC) = ?sD"
      by (simp add: fold_add_op del: add_ops_add_ops)
    have run: "and_then (SyncParams ?D CheckpointNet (Some names))
              (and_then (\<lambda>s5. (None, if si
                                      then fold (add_op CheckpointNet) (sync_iter_ops ?D) s5
                                      else s5))
                        (\<lambda>s6. workspace_call (CreateNet (m_checkpoint_net s6)) s6)) sB = (None, ?sE)"
    proof (rule and_then_ok)
      show "SyncParams ?D CheckpointNet (Some names) sB = (None, ?sC)" by (rule 1)
      show "and_then (\<lambda>s5. (None, if si
                                      then fold (add_op CheckpointNet) (sync_iter_ops ?D) s5
                                      else s5))
                        (\<lambda>s6. workspace_call (CreateNet (m_checkpoint_net s6)) s6) ?sC = (None, ?sE)"
        by (simp add: and_then_def workspace_call_def 2 del: add_ops_add_ops)
    qed
    have "has_checkpoint_net ?sE" using sB(2) by simp
    moreover have "proto_name (m_checkpoint_net ?sE) = ''checkpoint_sync_net''"
      using sB(3) by simp
    moreover have "m_device_grouped_blobs ?sE = ?g" using sB(1) by simp
    moreover have "workspace_log ?sE = workspace_log sB @ [CreateNet (m_checkpoint_net ?sE)]"
      by simp
    moreover have "checkpoint_init_net ?sE = checkpoint_init_net sB" by simp
    moreover have "ops_of_type ''Copy'' (proto_op (m_checkpoint_net ?sE)) = ?copies @ ?iter"
      using sB(4) by simp
    ultimately show ?thesis using run by blast
  qed
  have start: "build_checkpoint_net blobs si s =
      and_then
        (case m_rendezvous s of
           None \<Rightarrow> skip
         | Some r \<Rightarrow>
             and_then
               (\<lambda>s3. AddDistributedParameterSync ?D CheckpointInitNet CheckpointNet r (Some names)
                        (s3\<lparr>checkpoint_init_net := RunAllOnGPU (Net ''checkpoint_init_net'')\<rparr>))
               (\<lambda>s4. workspace_call (RunNetOnce (checkpoint_init_net s4)) s4))
        (and_then (SyncParams ?D CheckpointNet (Some names))
        (and_then (\<lambda>s5. (None, if si then fold (add_op CheckpointNet) (sync_iter_ops ?D) s5 else s5))
                  (\<lambda>s6. workspace_call (CreateNet (m_checkpoint_net s6)) s6))) ?s2"
    using names D by (simp add: build_checkpoint_net_def GetDevices_def Let_def)
  show ?thesis
  proof (cases "m_rendezvous s")
    case None
    have first: "(case m_rendezvous s of
           None \<Rightarrow> skip
         | Some r \<Rightarrow>
             and_then
               (\<lambda>s3. AddDistributedParameterSync ?D CheckpointInitNet CheckpointNet r (Some names)
                        (s3\<lparr>checkpoint_init_net := RunAllOnGPU (Net ''checkpoint_init_net'')\<rparr>))
               (\<lambda>s4. workspace_call (RunNetOnce (checkpoint_init_net s4)) s4)) ?s2 = (None, ?s2)"
      using None by (simp add: skip_def)
    have "m_device_grouped_blobs ?s2 = ?g" "has_checkpoint_net ?s2"
      "proto_name (m_checkpoint_net ?s2) = ''checkpoint_sync_net''"
      "ops_of_type ''Copy'' (proto_op (m_checkpoint_net ?s2)) = []"
      by (simp_all add: RunAllOnGPU_def Net_def)
    from tail [OF this] obtain s' where
      r: "and_then (SyncParams ?D CheckpointNet (Some names))
              (and_then (\<lambda>s5. (None, if si
                                      then fold (add_op CheckpointNet) (sync_iter_ops ?D) s5
                                      else s5))
                        (\<lambda>s6. workspace_call (CreateNet (m_checkpoint_net s6)) s6)) ?s2 = (None, s')"
      and p: "has_checkpoint_net s'" "proto_name (m_checkpoint_net s') = ''checkpoint_sync_net''"
      "m_device_grouped_blobs s' = ?g"
      "workspace_log s' = workspace_log ?s2 @ [CreateNet (m_checkpoint_net s')]"
      "ops_of_type ''Copy'' (proto_op (m_checkpoint_net s')) = ?copies @ ?iter"
      by blast
    have "build_checkpoint_net blobs si s = (None, s')"
      unfolding start by (rule and_then_ok, rule first, rule r)
    with p show ?thesis using None by auto
  next
    case (Some r)
    let ?s3 = "?s2\<lparr>checkpoint_init_net := RunAllOnGPU (Net ''checkpoint_init_net'')\<rparr>"
    have sc3: "store_complete ?D names ?s3"
      using tbls by (simp add: store_complete_def)
    from AddDistributedParameterSync_ok [OF sc3, of CheckpointInitNet CheckpointNet r]
    obtain sA where
      a: "AddDistributedParameterSync ?D CheckpointInitNet CheckpointNet r (Some names) ?s3 =
            (None, sA)"
      and f: "sync_frame ?s3 sA" by blast
    let ?sB = "sA\<lparr>workspace_log := workspace_log sA @ [RunNetOnce (checkpoint_init_net sA)]\<rparr>"
    have first: "(case m_rendezvous s of
           None \<Rightarrow> skip
         | Some r \<Rightarrow>
             and_then
               (\<lambda>s3. AddDistributedParameterSync ?D CheckpointInitNet CheckpointNet r (Some names)
                        (s3\<lparr>checkpoint_init_net := RunAllOnGPU (Net ''checkpoint_init_net'')\<rparr>))
               (\<lambda>s4. workspace_call (RunNetOnce (checkpoint_init_net s4)) s4)) ?s2 = (None, ?sB)"
      using Some a by (simp add: and_then_def workspace_call_def)
    from f have f1: "m_device_grouped_blobs sA = m_device_grouped_blobs ?s3"
      and f2: "has_checkpoint_net sA = has_checkpoint_net ?s3"
      and f3: "workspace_log sA = workspace_log ?s3"
      and f4: "proto_name (get_net CheckpointNet sA) = proto_name (get_net CheckpointNet ?s3)"
      and f5: "ops_of_type ''Copy'' (proto_op (get_net CheckpointNet sA)) =
                 ops_of_type ''Copy'' (proto_op (get_net CheckpointNet ?s3))"
      unfolding sync_frame_def by blast+
    have fr: "m_device_grouped_blobs sA = ?g" "has_checkpoint_net sA"
      "workspace_log sA = workspace_log s"
      "proto_name (m_checkpoint_net sA) = ''checkpoint_sync_net''"
      "ops_of_type ''Copy'' (proto_op (m_checkpoint_net sA)) = []"
      using f1 f2 f3 f4 f5 by (simp_all add: RunAllOnGPU_def Net_def)
    have "m_device_grouped_blobs ?sB = ?g" "has_checkpoint_net ?sB"
      "proto_name (m_checkpoint_net ?sB) = ''checkpoint_sync_net''"
      "ops_of_type ''Copy'' (proto_op (m_checkpoint_net ?sB)) = []"
      using fr by simp_all
    from tail [OF this] obtain s' where
      r: "and_then (SyncParams ?D CheckpointNet (Some names))
              (and_then (\<lambda>s5. (None, if si
                                      then fold (add_op CheckpointNet) (sync_iter_ops ?D) s5
                                      else s5))
                        (\<lambda>s6. workspace_call (CreateNet (m_checkpoint_net s6)) s6)) ?sB = (None, s')"
      and p: "has_checkpoint_net s'" "proto_name (m_checkpoint_net s') = ''checkpoint_sync_net''"
      "m_device_grouped_blobs s' = ?g"
      "workspace_log s' = workspace_log ?sB @ [CreateNet (m_checkpoint_net s')]"
      "checkpoint_init_net s' = checkpoint_init_net ?sB"
      "ops_of_type ''Copy'' (proto_op (m_checkpoint_net s')) = ?copies @ ?iter"
      by blast
    have "build_checkpoint_net blobs si s = (None, s')"
      unfolding start by (rule and_then_ok, rule first, rule r)
    with p show ?thesis using Some fr(3) by auto
  qed
qed

subsection \<open>Synchronisation after a checkpoint\<close>

text \<open>
  Claim C8. Once the model has a checkpoint net, any number of calls of
  \<^verbatim>\<open>FinalizeAfterCheckpoint\<close> only run it: each call adds one \<^verbatim>\<open>RunNet\<close> to the calls made
  to the workspace and changes nothing else. On a model without a checkpoint net, with a
  device and blob names that carry a separator, the first call registers every name that
  the store lacks with the synthesized handles \<^verbatim>\<open>gpu_<d>/<name>\<close>, one per device, builds
  the net over the registered store (its copies go from the first device's handle to the
  others', followed by the copies of \<^verbatim>\<open>ITER\<close>), creates it once and runs it; over the first
  call and any number of further calls the net is created once and run once per call.
\<close>

theorem checkpoint_net_built_once:
  "(has_checkpoint_net s \<longrightarrow>
      finalize_calls calls s =
        (None, s\<lparr>workspace_log := workspace_log s @
                    replicate (length calls) (RunNet (proto_name (m_checkpoint_net s)))\<rparr>)) \<and>
   (\<not> has_checkpoint_net s \<and> m_devices s \<noteq> [] \<and> strip_all blobs = Inr names \<and>
    (\<forall>n\<in>set names. \<forall>t. map_of (m_device_grouped_blobs s) n = Some t \<longrightarrow>
        (\<forall>d\<in>set (m_devices s). map_of t d \<noteq> None)) \<longrightarrow>
      (\<exists>s'. FinalizeAfterCheckpoint blobs si s = (None, s') \<and> has_checkpoint_net s' \<and>
         (\<forall>n\<in>set names. map_of (m_device_grouped_blobs s') n =
              Some (registered_table (m_devices s) (m_device_grouped_blobs s) n)) \<and>
         ops_of_type ''Copy'' (proto_op (m_checkpoint_net s')) =
           sync_copies (m_device_grouped_blobs s') (m_devices s) names @
           (if si then sync_iter_ops (m_devices s) else []) \<and>
         workspace_log s' = workspace_log s @
           (case m_rendezvous s of None \<Rightarrow> [] | Some r \<Rightarrow> [RunNetOnce (checkpoint_init_net s')]) @
           [CreateNet (m_checkpoint_net s'), RunNet ''checkpoint_sync_net''] \<and>
         (\<exists>s''. finalize_calls ((blobs, si) # calls) s = (None, s'') \<and>
            m_checkpoint_net s'' = m_checkpoint_net s' \<and>
            workspace_log s'' = workspace_log s @
              (case m_rendezvous s of None \<Rightarrow> []
               | Some r \<Rightarrow> [RunNetOnce (checkpoint_init_net s')]) @
              CreateNet (m_checkpoint_net s') #
              replicate (Suc (length calls)) (RunNet ''checkpoint_sync_net'')))) \<and>
   (\<forall>d\<in>set devices.
      map_of (synthesized_table devices name) d = Some (gpu_name d @ ''/'' @ name))"
proof (intro conjI impI ballI)
  assume "has_checkpoint_net s"
  then show "finalize_calls calls s =
        (None, s\<lparr>workspace_log := workspace_log s @
                    replicate (length calls) (RunNet (proto_name (m_checkpoint_net s)))\<rparr>)"
    by (rule finalize_calls_built)
next
  fix d assume "d \<in> set devices"
  then show "map_of (synthesized_table devices name) d = Some (gpu_name d @ ''/'' @ name)"
    by (simp add: map_of_synthesized_table NAMESCOPE_SEPARATOR_def)
next
  assume h: "\<not> has_checkpoint_net s \<and> m_devices s \<noteq> [] \<and> strip_all blobs = Inr names \<and>
    (\<forall>n\<in>set names. \<forall>t. map_of (m_device_grouped_blobs s) n = Some t \<longrightarrow>
        (\<forall>d\<in>set (m_devices s). map_of t d \<noteq> None))"
  then obtain d0 ds where D: "m_devices s = d0 # ds" by (cases "m_devices s") auto
  from h have names: "strip_all blobs = Inr names" by blast
  from h D have complete: "\<forall>n\<in>set names. \<forall>t. map_of (m_device_grouped_blobs s) n = Some t \<longrightarrow>
          (\<forall>d\<in>set (d0 # ds). map_of t d \<noteq> None)" by simp
  from build_checkpoint_net_ok [OF D names complete, of si] obtain s1 where
    b: "build_checkpoint_net blobs si s = (None, s1)"
    and hc: "has_checkpoint_net s1"
    and nm: "proto_name (m_checkpoint_net s1) = ''checkpoint_sync_net''"
    and st: "m_device_grouped_blobs s1 =
        fold (register_blob (d0 # ds)) names (m_device_grouped_blobs s)"
    and lg: "workspace_log s1 = workspace_log s @
        (case m_rendezvous s of None \<Rightarrow> [] | Some r \<Rightarrow> [RunNetOnce (checkpoint_init_net s1)]) @
        [CreateNet (m_checkpoint_net s1)]"
    and cp: "ops_of_type ''Copy'' (proto_op (m_checkpoint_net s1)) =
        sync_copies (m_device_grouped_blobs s1) (d0 # ds) names @
        (if si then sync_iter_ops (d0 # ds) else [])"
    by blast
  let ?s' = "s1\<lparr>workspace_log := workspace_log s1 @ [RunNet ''checkpoint_sync_net'']\<rparr>"
  have run: "FinalizeAfterCheckpoint blobs si s = (None, ?s')"
    using h b nm by (simp add: FinalizeAfterCheckpoint_def and_then_def workspace_call_def)
  have hc': "has_checkpoint_net ?s'" using hc by simp
  have reg: "\<forall>n\<in>set names. map_of (m_device_grouped_blobs ?s') n =
              Some (registered_table (m_devices s) (m_device_grouped_blobs s) n)"
    using st D by (simp add: registered_lookup)
  have cp': "ops_of_type ''Copy'' (proto_op (m_checkpoint_net ?s')) =
           sync_copies (m_device_grouped_blobs ?s') (m_devices s) names @
           (if si then sync_iter_ops (m_devices s) else [])"
    using cp D by simp
  have lg': "workspace_log ?s' = workspace_log s @
           (case m_rendezvous s of None \<Rightarrow> [] | Some r \<Rightarrow> [RunNetOnce (checkpoint_init_net ?s')]) @
           [CreateNet (m_checkpoint_net ?s'), RunNet ''checkpoint_sync_net'']"
    using lg by (simp split: option.splits)
  let ?s'' = "?s'\<lparr>workspace_log := workspace_log ?s' @
                 replicate (length calls) (RunNet (proto_name (m_checkpoint_net ?s')))\<rparr>"
  have more: "finalize_calls calls ?s' = (None, ?s'')"
    using hc' by (rule finalize_calls_built)
  have all: "finalize_calls ((blobs, si) # calls) s = (None, ?s'')"
    using run more by (simp add: finalize_calls_def)
  have net'': "m_checkpoint_net ?s'' = m_checkpoint_net ?s'" by simp
  have lg'': "workspace_log ?s'' = workspace_log s @
              (case m_rendezvous s of None \<Rightarrow> []
               | Some r \<Rightarrow> [RunNetOnce (checkpoint_init_net ?s')]) @
              CreateNet (m_checkpoint_net ?s') #
              replicate (Suc (length calls)) (RunNet ''checkpoint_sync_net'')"
    using lg nm by (simp add: replicate_append_same split: option.splits)
  from run hc' reg cp' lg' all net'' lg''
  show "\<exists>s'. FinalizeAfterCheckpoint blobs si s = (None, s') \<and> has_checkpoint_net s' \<and>
         (\<forall>n\<in>set names. map_of (m_device_grouped_blobs s') n =
              Some (registered_table (m_devices s) (m_device_grouped_blobs s) n)) \<and>
         ops_of_type ''Copy'' (proto_op (m_checkpoint_net s')) =
           sync_copies (m_device_grouped_blobs s') (m_devices s) names @
           (if si then sync_iter_ops (m_devices s) else []) \<and>
         workspace_log s' = workspace_log s @
           (case m_rendezvous s of None \<Rightarrow> [] | Some r \<Rightarrow> [RunNetOnce (checkpoint_init_net s')]) @
           [CreateNet (m_checkpoint_net s'), RunNet ''checkpoint_sync_net''] \<and>
         (\<exists>s''. finalize_calls ((blobs, si) # calls) s = (None, s'') \<and>
            m_checkpoint_net s'' = m_checkpoint_net s' \<and>
            workspace_log s'' = workspace_log s @
              (case m_rendezvous s of None \<Rightarrow> []
               | Some r \<Rightarrow> [RunNetOnce (checkpoint_init_net s')]) @
              CreateNet (m_checkpoint_net s') #
              replicate (Suc (length calls)) (RunNet ''checkpoint_sync_net''))"
    by blast
qed

theorem checkpoint_net_built_once_witness:
  "\<exists>s' s''. FinalizeAfterCheckpoint [''gpu_0/w_grad'', ''gpu_0/momentum''] True checkpoint_demo =
       (None, s') \<and>
     map_of (m_device_grouped_blobs s') ''momentum'' =
       Some [(0, ''gpu_0/momentum''), (1, ''gpu_1/momentum'')] \<and>
     finalize_calls [([''gpu_0/w_grad'', ''gpu_0/momentum''], True), ([], True), ([], False)]
       checkpoint_demo = (None, s'') \<and>
     workspace_log s'' =
       [CreateNet (m_checkpoint_net s'), RunNet ''checkpoint_sync_net'',
        RunNet ''checkpoint_sync_net'', RunNet ''checkpoint_sync_net'']"
proof -
  have st: "m_device_grouped_blobs checkpoint_demo =
        [(''w_grad'', [(0, ''gpu_0/w_grad''), (1, ''gpu_1/w_grad'')]),
         (''b_grad'', [(0, ''gpu_0/b_grad''), (1, ''gpu_1/b_grad'')])]"
    and dv: "m_devices checkpoint_demo = [0, 1]"
    and hc: "\<not> has_checkpoint_net checkpoint_demo"
    and lg: "workspace_log checkpoint_demo = []"
    and rv: "m_rendezvous checkpoint_demo = None"
    by (simp_all add: checkpoint_demo_def two_gpu_grads_def fresh_model_def)
  have names: "strip_all [''gpu_0/w_grad'', ''gpu_0/momentum''] = Inr [''w_grad'', ''momentum'']"
    by code_simp
  have pre: "\<not> has_checkpoint_net checkpoint_demo \<and> m_devices checkpoint_demo \<noteq> [] \<and>
    strip_all [''gpu_0/w_grad'', ''gpu_0/momentum''] = Inr [''w_grad'', ''momentum''] \<and>
    (\<forall>n\<in>set [''w_grad'', ''momentum'']. \<forall>t.
        map_of (m_device_grouped_blobs checkpoint_demo) n = Some t \<longrightarrow>
        (\<forall>d\<in>set (m_devices checkpoint_demo). map_of t d \<noteq> None))"
    using hc names by (auto simp: st dv)
  have tab: "registered_table [0, 1] (m_device_grouped_blobs checkpoint_demo) ''momentum'' =
      [(0, ''gpu_0/momentum''), (1, ''gpu_1/momentum'')]"
    unfolding st by code_simp
  from checkpoint_net_built_once [where s = checkpoint_demo
      and blobs = "[''gpu_0/w_grad'', ''gpu_0/momentum'']" and names = "[''w_grad'', ''momentum'']"
      and si = True and calls = "[([], True), ([], False)]"] pre
  obtain s' s'' where
    1: "FinalizeAfterCheckpoint [''gpu_0/w_grad'', ''gpu_0/momentum''] True checkpoint_demo =
       (None, s')"
    and 2: "\<forall>n\<in>set [''w_grad'', ''momentum'']. map_of (m_device_grouped_blobs s') n =
              Some (registered_table (m_devices checkpoint_demo)
                      (m_device_grouped_blobs checkpoint_demo) n)"
    and 3: "finalize_calls (([''gpu_0/w_grad'', ''gpu_0/momentum''], True) #
              [([], True), ([], False)]) checkpoint_demo = (None, s'')"
    and 4: "workspace_log s'' = workspace_log checkpoint_demo @
              (case m_rendezvous checkpoint_demo of None \<Rightarrow> []
               | Some r \<Rightarrow> [RunNetOnce (checkpoint_init_net s')]) @
              CreateNet (m_checkpoint_net s') #
              replicate (Suc (length [([]::blob list, True), ([], False)]))
                (RunNet ''checkpoint_sync_net'')"
    by blast
  from 2 have "map_of (m_device_grouped_blobs s') ''momentum'' =
       Some [(0, ''gpu_0/momentum''), (1, ''gpu_1/momentum'')]"
    using tab dv by simp
  moreover from 4 have "workspace_log s'' =
       [CreateNet (m_checkpoint_net s'), RunNet ''checkpoint_sync_net'',
        RunNet ''checkpoint_sync_net'', RunNet ''checkpoint_sync_net'']"
    by (simp add: lg rv)
  ultimately show ?thesis using 1 3 by blast
qed

subsection \<open>The grouping loop as a sequence of writes\<close>

lemma grouping_put_all: "grouping devices m i ps g = put_all (writes devices m i ps) g"
  by (induction ps arbitrary: i g) simp_all

lemma length_writes [simp]: "length (writes devices m i ps) = length ps"
  by (induction ps arbitrary: i) simp_all

lemma nth_writes:
  "j < length ps \<Longrightarrow>
   writes devices m i ps ! j = (canonical (ps ! j), devices ! ((i + j) div m), ps ! j)"
proof (induction ps arbitrary: i j)
  case Nil
  then show ?case by simp
next
  case (Cons p ps)
  then show ?case by (cases j) simp_all
qed

lemma map_fst_writes [simp]: "map fst (writes devices m i ps) = map canonical ps"
  by (induction ps arbitrary: i) simp_all

subsubsection \<open>Keys in the order of their first occurrence\<close>

lemma remdups_drop_left: "set c \<subseteq> set e \<Longrightarrow> remdups (c @ e) = remdups e"
  by (induction c) auto

lemma first_occ_Nil [simp]: "first_occ [] = []"
  by (simp add: first_occ_def)

lemma first_occ_snoc:
  "first_occ (xs @ [x]) = (if x \<in> set xs then first_occ xs else first_occ xs @ [x])"
  by (simp add: first_occ_def)

lemma set_first_occ [simp]: "set (first_occ xs) = set xs"
  by (simp add: first_occ_def)

lemma distinct_first_occ [simp]: "distinct (first_occ xs)"
  by (simp add: first_occ_def)

lemma length_first_occ: "length (first_occ xs) \<le> length xs"
  unfolding first_occ_def using length_remdups_leq [of "rev xs"] by simp

lemma first_occ_distinct: "distinct xs \<Longrightarrow> first_occ xs = xs"
  by (simp add: first_occ_def distinct_remdups_id)

lemma first_occ_append_subset:
  "distinct a \<Longrightarrow> set b \<subseteq> set a \<Longrightarrow> first_occ (a @ b) = a"
  using remdups_drop_left [of "rev b" "rev a"]
  by (simp add: first_occ_def distinct_remdups_id)

lemma first_occ_skip:
  "k \<in> set ys \<Longrightarrow> first_occ (ys @ k # zs) = first_occ (ys @ zs)"
proof -
  assume k: "k \<in> set ys"
  have "remdups (a @ k # rev ys) = remdups (a @ rev ys)" for a
    using k by (induction a) auto
  from this [of "rev zs"] show ?thesis by (simp add: first_occ_def)
qed

lemma first_occ_keep:
  "distinct ys \<Longrightarrow> k \<notin> set ys \<Longrightarrow> first_occ ((ys @ [k]) @ zs) = first_occ (ys @ k # zs)"
  by simp

subsubsection \<open>The keys of the grouped store\<close>

lemma map_fst_update:
  "map fst (AList.update k v al) = (if k \<in> fst ` set al then map fst al else map fst al @ [k])"
  by (induction al) auto

lemma map_fst_grouped_put:
  "map fst (grouped_put k d p g) = (if k \<in> set (map fst g) then map fst g else map fst g @ [k])"
  by (simp add: grouped_put_def map_fst_update)

lemma keys_put_all:
  "distinct (map fst g) \<Longrightarrow> map fst (put_all ws g) = first_occ (map fst g @ map fst ws)"
proof (induction ws arbitrary: g)
  case Nil
  then show ?case by (simp add: first_occ_distinct)
next
  case (Cons w ws)
  let ?g1 = "grouped_put (fst w) (fst (snd w)) (snd (snd w)) g"
  show ?case
  proof (cases "fst w \<in> set (map fst g)")
    case True
    then have k: "map fst ?g1 = map fst g" by (simp add: map_fst_grouped_put)
    with Cons.prems have d: "distinct (map fst ?g1)" by simp
    show ?thesis
      using Cons.IH [OF d] k True first_occ_skip [of "fst w" "map fst g" "map fst ws"] by simp
  next
    case False
    then have k: "map fst ?g1 = map fst g @ [fst w]" by (simp add: map_fst_grouped_put)
    with Cons.prems False have d: "distinct (map fst ?g1)" by simp
    show ?thesis
      using Cons.IH [OF d] k by simp
  qed
qed

lemma keys_grouping:
  "map fst (grouping devices m i ps []) = first_occ (map canonical ps)"
  by (simp add: grouping_put_all keys_put_all)

subsubsection \<open>The table of one key\<close>

lemma map_of_grouped_put:
  "map_of (grouped_put k d p g) k' =
     (if k' = k then Some (AList.update d p (case map_of g k of None \<Rightarrow> [] | Some t \<Rightarrow> t))
      else map_of g k')"
  by (simp add: grouped_put_def update_conv')

lemma table_of_other: "k \<notin> fst ` set ws \<Longrightarrow> table_of k ws t = t"
  by (induction ws arbitrary: t) auto

lemma map_of_put_all:
  "map_of (put_all ws g) k =
     (if k \<in> set (map fst ws)
      then Some (table_of k ws (case map_of g k of None \<Rightarrow> [] | Some t \<Rightarrow> t))
      else map_of g k)"
proof (induction ws arbitrary: g)
  case Nil
  show ?case by simp
next
  case (Cons w ws)
  show ?case
    by (cases "fst w = k")
      (auto simp: Cons.IH map_of_grouped_put table_of_other split: option.splits)
qed

lemma distinct_table_of:
  "distinct (map fst t) \<Longrightarrow> distinct (map fst (table_of k ws t))"
  by (induction ws arbitrary: t) (simp_all add: distinct_update)

lemma dom_table_of:
  "fst ` set (table_of k ws t) =
     fst ` set t \<union> {d. \<exists>p. (k, d, p) \<in> set ws}"
proof (induction ws arbitrary: t)
  case Nil
  show ?case by simp
next
  case (Cons w ws)
  obtain k' d' p' where w: "w = (k', d', p')" by (cases w) auto
  show ?case
  proof (cases "k' = k")
    case True
    have "{d. \<exists>p. (k, d, p) \<in> set (w # ws)} = insert d' {d. \<exists>p. (k, d, p) \<in> set ws}"
      using w True by auto
    then show ?thesis using w True by (simp add: Cons.IH dom_update)
  next
    case False
    have "{d. \<exists>p. (k, d, p) \<in> set (w # ws)} = {d. \<exists>p. (k, d, p) \<in> set ws}"
      using w False by auto
    then show ?thesis using w False by (simp add: Cons.IH)
  qed
qed

lemma map_of_table_of_keep:
  "\<forall>p. (k, d, p) \<notin> set ws \<Longrightarrow> map_of (table_of k ws t) d = map_of t d"
proof (induction ws arbitrary: t)
  case Nil
  show ?case by simp
next
  case (Cons w ws)
  then show ?case
    by (cases w) (auto simp: update_conv')
qed

lemma map_of_table_of_single:
  "(k, d, p) \<in> set ws \<Longrightarrow> \<forall>p'. (k, d, p') \<in> set ws \<longrightarrow> p' = p \<Longrightarrow>
   map_of (table_of k ws t) d = Some p"
proof (induction ws arbitrary: t)
  case Nil
  then show ?case by simp
next
  case (Cons w ws)
  have one: "\<forall>p'. (k, d, p') \<in> set ws \<longrightarrow> p' = p" using Cons.prems(2) by simp
  show ?case
  proof (cases "(k, d, p) \<in> set ws")
    case True
    have "map_of (table_of k ws t') d = Some p" for t'
      using True one by (rule Cons.IH)
    then show ?thesis by simp
  next
    case False
    with Cons.prems(1) have w: "w = (k, d, p)" by simp
    have none: "\<forall>p'. (k, d, p') \<notin> set ws"
      using one False by blast
    have "table_of k (w # ws) t = table_of k ws (AList.update d p t)"
      using w by simp
    then have "map_of (table_of k (w # ws) t) d = map_of (AList.update d p t) d"
      using map_of_table_of_keep [OF none] by simp
    then show ?thesis by (simp add: update_conv')
  qed
qed

subsection \<open>When the grouping succeeds\<close>

lemma stripParamName_canonical: "stripParamName p = Inr n \<Longrightarrow> canonical p = n"
  by (simp add: canonical_def)

lemma group_loop_ok:
  "ps = [] \<or> m \<noteq> 0 \<Longrightarrow>
   \<forall>j<length ps. (i + j) div m < length devices \<and> handle_ok (devices ! ((i + j) div m)) (ps ! j) \<Longrightarrow>
   group_loop devices m i ps g = Inr (grouping devices m i ps g)"
proof (induction ps arbitrary: i g)
  case Nil
  show ?case by simp
next
  case (Cons p ps)
  from Cons.prems(1) have m: "m \<noteq> 0" by simp
  from Cons.prems(2) have 0: "i div m < length devices" "handle_ok (devices ! (i div m)) p"
    by force+
  from 0(2) obtain n where n: "stripParamName p = Inr n"
    by (cases "stripParamName p") (auto simp: handle_ok_def)
  have rest: "\<forall>j<length ps. (Suc i + j) div m < length devices \<and>
       handle_ok (devices ! ((Suc i + j) div m)) (ps ! j)"
  proof (intro allI impI)
    fix j assume "j < length ps"
    then have "Suc j < length (p # ps)" by simp
    from Cons.prems(2) [rule_format, OF this]
    show "(Suc i + j) div m < length devices \<and> handle_ok (devices ! ((Suc i + j) div m)) (ps ! j)"
      by simp
  qed
  have "ps = [] \<or> m \<noteq> 0" using m by simp
  from Cons.IH [OF this rest]
  show ?case
    using n m 0 by (simp add: stripParamName_canonical handle_ok_def Let_def)
qed

lemma group_loop_Inr:
  "group_loop devices m i ps g = Inr g' \<Longrightarrow>
   (\<forall>j<length ps. handle_ok (devices ! ((i + j) div m)) (ps ! j)) \<and>
   g' = grouping devices m i ps g"
proof (induction ps arbitrary: i g)
  case Nil
  then show ?case by simp
next
  case (Cons p ps)
  from Cons.prems obtain n where n: "stripParamName p = Inr n"
    by (cases "stripParamName p") auto
  from Cons.prems n have ok: "contains (gpu_namescope (devices ! (i div m))) (GetNameScope p)"
    and rec: "group_loop devices m (Suc i) ps (grouped_put n (devices ! (i div m)) p g) = Inr g'"
    by (auto simp: Let_def split: if_splits)
  from Cons.IH [OF rec] have
    ih: "\<forall>j<length ps. handle_ok (devices ! ((Suc i + j) div m)) (ps ! j)"
    and g': "g' = grouping devices m (Suc i) ps (grouped_put n (devices ! (i div m)) p g)"
    by blast+
  have "\<forall>j<length (p # ps). handle_ok (devices ! ((i + j) div m)) ((p # ps) ! j)"
  proof (intro allI impI)
    fix j assume j: "j < length (p # ps)"
    show "handle_ok (devices ! ((i + j) div m)) ((p # ps) ! j)"
    proof (cases j)
      case 0
      then show ?thesis using n ok by (simp add: handle_ok_def)
    next
      case (Suc j')
      with j ih show ?thesis by simp
    qed
  qed
  then show ?case using g' n by (simp add: stripParamName_canonical)
qed

lemma check_loop_Inr_iff:
  "check_loop devices params j g = Inr u \<longleftrightarrow>
     (\<forall>t<length g. length (snd (g ! t)) = length devices \<and> devices \<noteq> [] \<and>
        map_of (snd (g ! t)) (hd devices) = Some (params ! (j + t)) \<and> j + t < length params)"
proof (induction g arbitrary: j)
  case Nil
  show ?case by simp
next
  case (Cons kt g)
  obtain k tbl where kt: "kt = (k, tbl)" by (cases kt) auto
  let ?head = "length tbl = length devices \<and> devices \<noteq> [] \<and>
        map_of tbl (hd devices) = Some (params ! j) \<and> j < length params"
  have split: "(\<forall>t<length (kt # g). length (snd ((kt # g) ! t)) = length devices \<and> devices \<noteq> [] \<and>
        map_of (snd ((kt # g) ! t)) (hd devices) = Some (params ! (j + t)) \<and> j + t < length params) \<longleftrightarrow>
     ?head \<and>
     (\<forall>t<length g. length (snd (g ! t)) = length devices \<and> devices \<noteq> [] \<and>
        map_of (snd (g ! t)) (hd devices) = Some (params ! (Suc j + t)) \<and> Suc j + t < length params)"
    using kt by (simp add: All_less_Suc2)
  have step: "check_loop devices params j (kt # g) = Inr u \<longleftrightarrow>
     ?head \<and> check_loop devices params (Suc j) g = Inr u"
    using kt by (cases devices) (auto split: option.splits)
  show ?case unfolding split step Cons.IH ..
qed

lemma length_grouping_le: "length (grouping devices m i ps []) \<le> length ps"
proof -
  have "length (map fst (grouping devices m i ps [])) \<le> length (map canonical ps)"
    unfolding keys_grouping by (rule length_first_occ)
  then show ?thesis by simp
qed

lemma GroupByDevice_Inr_iff:
  assumes "devices \<noteq> []"
  shows "GroupByDevice devices params = Inr g \<longleftrightarrow>
     length params mod length devices = 0 \<and> handles_ok devices params \<and>
     g = grouping devices (length params div length devices) 0 params [] \<and>
     tables_complete devices g \<and> order_kept devices params g"
proof (cases "length params mod length devices = 0")
  case False
  then show ?thesis using assms by (simp add: GroupByDevice_def)
next
  case True
  let ?m = "length params div length devices"
  let ?G = "grouping devices ?m 0 params []"
  have len: "length params = length devices * ?m" using True by auto
  have m: "params = [] \<or> ?m \<noteq> 0"
  proof (cases "?m = 0")
    case True
    with len have "length params = 0" by simp
    then show ?thesis by simp
  next
    case False
    then show ?thesis by simp
  qed
  have bound: "j div ?m < length devices" if "j < length params" for j
  proof -
    have "?m \<noteq> 0"
    proof
      assume "?m = 0"
      with len have "length params = 0" by simp
      with that show False by simp
    qed
    moreover have "j < length devices * ?m" using that len by simp
    ultimately show ?thesis by (simp add: less_mult_imp_div_less mult.commute)
  qed
  have loop: "group_loop devices ?m 0 params [] = Inr g' \<longleftrightarrow> handles_ok devices params \<and> g' = ?G"
    for g'
  proof
    assume "group_loop devices ?m 0 params [] = Inr g'"
    from group_loop_Inr [OF this] show "handles_ok devices params \<and> g' = ?G"
      by (simp add: handles_ok_def)
  next
    assume h: "handles_ok devices params \<and> g' = ?G"
    then have "\<forall>j<length params. (0 + j) div ?m < length devices \<and>
        handle_ok (devices ! ((0 + j) div ?m)) (params ! j)"
      using bound by (simp add: handles_ok_def)
    from group_loop_ok [OF m this] h show "group_loop devices ?m 0 params [] = Inr g'" by simp
  qed
  have chk: "check_loop devices params 0 ?G = Inr () \<longleftrightarrow>
      tables_complete devices ?G \<and> order_kept devices params ?G"
  proof -
    have lt: "t < length params" if "t < length ?G" for t
      using that length_grouping_le [of devices ?m 0 params] by simp
    have tc: "tables_complete devices ?G \<longleftrightarrow> (\<forall>t<length ?G. length (snd (?G ! t)) = length devices)"
      unfolding tables_complete_def by (simp add: all_set_conv_all_nth)
    show ?thesis
      unfolding check_loop_Inr_iff tc order_kept_def using assms lt by auto
  qed
  show ?thesis
  proof (cases "handles_ok devices params")
    case False
    with loop have "\<forall>g'. group_loop devices ?m 0 params [] \<noteq> Inr g'" by simp
    then obtain e where "group_loop devices ?m 0 params [] = Inl e"
      by (cases "group_loop devices ?m 0 params []") auto
    with False True assms show ?thesis by (simp add: GroupByDevice_def Let_def)
  next
    case ok: True
    with loop have l: "group_loop devices ?m 0 params [] = Inr ?G" by simp
    show ?thesis
    proof (cases "check_loop devices params 0 ?G")
      case (Inl e)
      with chk have "\<not> (tables_complete devices ?G \<and> order_kept devices params ?G)" by simp
      with Inl l True assms show ?thesis by (auto simp: GroupByDevice_def Let_def)
    next
      case (Inr u)
      with chk have "tables_complete devices ?G \<and> order_kept devices params ?G" by simp
      with Inr l True ok assms show ?thesis by (auto simp: GroupByDevice_def Let_def)
    qed
  qed
qed

subsection \<open>Grouping a replicated layout\<close>

lemma map_of_nth_distinct:
  "distinct (map fst xs) \<Longrightarrow> t < length xs \<Longrightarrow> map_of xs (fst (xs ! t)) = Some (snd (xs ! t))"
  by (simp add: map_of_eq_Some_iff [THEN iffD2])

lemma first_pos_nth:
  assumes "t < length params" and "distinct (map canonical (take (Suc t) params))"
  shows "first_pos (canonical (params ! t)) params = t"
proof -
  let ?xs = "map canonical (take (Suc t) params)"
  have l: "length ?xs = Suc t" using assms(1) by simp
  have nth: "?xs ! i = canonical (params ! i)" if "i \<le> t" for i
    using that assms(1) by simp
  have "takeWhile (\<lambda>p. canonical p \<noteq> canonical (params ! t)) params = take t params"
  proof (rule takeWhile_eq_take_P_nth)
    fix i assume i: "i < t" "i < length params"
    have "i < length ?xs" "t < length ?xs" using i l by simp_all
    with assms(2) i(1) have "?xs ! i \<noteq> ?xs ! t"
      using nth_eq_iff_index_eq [of ?xs i t] by simp
    then show "canonical (params ! i) \<noteq> canonical (params ! t)"
      using nth [of i] nth [of t] i(1) by simp
  next
    show "\<not> canonical (params ! t) \<noteq> canonical (params ! t)" by simp
  qed
  then show ?thesis using assms(1) by (simp add: first_pos_def)
qed

lemma replicated_grouping:
  assumes wf: "replicated_layout devices params"
  defines "m \<equiv> length params div length devices"
  defines "G \<equiv> grouping devices m 0 params []"
  shows "map fst G = map canonical (take m params)"
    and "length G = m"
    and "\<forall>t<length G. length (snd (G ! t)) = length devices \<and>
           fst ` set (snd (G ! t)) = set devices \<and>
           map_of (snd (G ! t)) (hd devices) = Some (params ! t) \<and>
           first_pos (fst (G ! t)) params = t"
proof -
  let ?n = "length devices"
  let ?W = "writes devices m 0 params"
  from wf have ne: "devices \<noteq> []" and dist: "distinct devices"
    and dv: "length params mod ?n = 0"
    by (simp_all add: replicated_layout_def)
  from wf have blocks: "\<forall>i\<in>set [0..<?n]. distinct (map canonical (block m i params)) \<and>
        set (map canonical (block m i params)) = set (map canonical (block m 0 params))"
    unfolding replicated_layout_def m_def by blast
  have n: "0 < ?n" using ne by simp
  have len: "length params = ?n * m" using dv unfolding m_def by auto
  have m_le: "m \<le> length params" using len n by (cases ?n) auto
  have b0: "block m 0 params = take m params" by (simp add: block_def)
  have bd: "distinct (map canonical (block m i params))" if "i < ?n" for i
  proof -
    from that have "i \<in> set [0..<?n]" by simp
    with blocks show ?thesis by blast
  qed
  have bs: "set (map canonical (block m i params)) = set (map canonical (take m params))"
    if "i < ?n" for i
  proof -
    from that have "i \<in> set [0..<?n]" by simp
    with blocks have "set (map canonical (block m i params)) =
        set (map canonical (block m 0 params))" by blast
    then show ?thesis unfolding b0 .
  qed
  have blen: "length (block m i params) = m" if "i < ?n" for i
  proof -
    have "Suc i * m \<le> ?n * m" using that by (intro mult_le_mono1) simp
    then have "i * m + m \<le> length params" using len by simp
    then show ?thesis by (simp add: block_def)
  qed
  have bnth: "block m i params ! j = params ! (i * m + j)" if "i < ?n" "j < m" for i j
  proof -
    have "Suc i * m \<le> ?n * m" using that by (intro mult_le_mono1) simp
    then have "i * m + j < length params" using len that by simp
    then show ?thesis using that by (simp add: block_def)
  qed
  have pos: "t div m < ?n \<and> t mod m < m \<and> params ! t = block m (t div m) params ! (t mod m)"
    if "t < length params" for t
  proof -
    have m0: "0 < m" using that len by (cases m) auto
    have i: "t div m < ?n" using that len m0 by (simp add: less_mult_imp_div_less mult.commute)
    have j: "t mod m < m" using m0 by simp
    from bnth [OF i j] show ?thesis using i j by simp
  qed
  have key_in_block0: "canonical (params ! t) \<in> set (map canonical (take m params))"
    if "t < length params" for t
  proof -
    from pos [OF that] have i: "t div m < ?n" and j: "t mod m < m"
      and e: "params ! t = block m (t div m) params ! (t mod m)" by blast+
    have "block m (t div m) params ! (t mod m) \<in> set (block m (t div m) params)"
      using j blen [OF i] by simp
    then have "canonical (params ! t) \<in> set (map canonical (block m (t div m) params))"
      using e by simp
    then show ?thesis unfolding bs [OF i] .
  qed
  have d0: "distinct (map canonical (take m params))"
    using bd [OF n] unfolding b0 .
  have sub: "set (map canonical (drop m params)) \<subseteq> set (map canonical (take m params))"
  proof
    fix k assume "k \<in> set (map canonical (drop m params))"
    then obtain p where p: "p \<in> set (drop m params)" and k: "k = canonical p" by auto
    then have "p \<in> set params" by (meson in_set_dropD)
    then obtain t where "t < length params" "params ! t = p" by (auto simp: in_set_conv_nth)
    with key_in_block0 k show "k \<in> set (map canonical (take m params))" by blast
  qed
  have "map canonical params = map canonical (take m params) @ map canonical (drop m params)"
    by (metis append_take_drop_id map_append)
  then have "first_occ (map canonical params) = map canonical (take m params)"
    using first_occ_append_subset [OF d0 sub] by simp
  then show keys: "map fst G = map canonical (take m params)"
    unfolding G_def by (simp add: keys_grouping)
  then have "length (map fst G) = length (map canonical (take m params))" by simp
  then show lenG: "length G = m" using m_le by simp
  have Wnth: "?W ! t = (canonical (params ! t), devices ! (t div m), params ! t)"
    if "t < length params" for t
    using nth_writes [OF that, of devices m 0] by simp
  have Wset: "w \<in> set ?W \<longleftrightarrow>
      (\<exists>t<length params. w = (canonical (params ! t), devices ! (t div m), params ! t))" for w
  proof
    assume "w \<in> set ?W"
    then obtain t where "t < length ?W" "?W ! t = w" by (auto simp: in_set_conv_nth)
    with Wnth show "\<exists>t<length params. w = (canonical (params ! t), devices ! (t div m), params ! t)"
      by auto
  next
    assume "\<exists>t<length params. w = (canonical (params ! t), devices ! (t div m), params ! t)"
    then obtain t where t: "t < length params"
      and w: "w = (canonical (params ! t), devices ! (t div m), params ! t)" by blast
    from t have "?W ! t \<in> set ?W" by simp
    with Wnth [OF t] w show "w \<in> set ?W" by simp
  qed
  show "\<forall>t<length G. length (snd (G ! t)) = length devices \<and>
           fst ` set (snd (G ! t)) = set devices \<and>
           map_of (snd (G ! t)) (hd devices) = Some (params ! t) \<and>
           first_pos (fst (G ! t)) params = t"
  proof (intro allI impI)
    fix t assume "t < length G"
    then have tm: "t < m" using lenG by simp
    then have tl: "t < length params" using m_le by simp
    let ?k = "canonical (params ! t)"
    have fk: "fst (G ! t) = ?k"
    proof -
      have "map fst G ! t = map canonical (take m params) ! t" using keys by simp
      then show ?thesis using tm tl \<open>t < length G\<close> by simp
    qed
    have dG: "distinct (map fst G)" using keys d0 by simp
    have kW: "?k \<in> set (map fst ?W)" using tl by simp
    have "map_of G ?k = Some (table_of ?k ?W [])"
      unfolding G_def grouping_put_all using kW by (simp add: map_of_put_all)
    moreover have "map_of G (fst (G ! t)) = Some (snd (G ! t))"
      using dG \<open>t < length G\<close> by (rule map_of_nth_distinct)
    ultimately have tbl: "snd (G ! t) = table_of ?k ?W []" using fk by simp
    have dt: "distinct (map fst (table_of ?k ?W []))"
      by (rule distinct_table_of) simp
    have dom: "fst ` set (table_of ?k ?W []) = set devices"
    proof -
      have "{d. \<exists>p. (?k, d, p) \<in> set ?W} = set devices"
      proof (intro set_eqI iffI)
        fix d assume "d \<in> {d. \<exists>p. (?k, d, p) \<in> set ?W}"
        then obtain p where "(?k, d, p) \<in> set ?W" by blast
        then obtain t' where t': "t' < length params" and "d = devices ! (t' div m)"
          unfolding Wset by auto
        with pos [OF t'] show "d \<in> set devices" by simp
      next
        fix d assume "d \<in> set devices"
        then obtain i where i: "i < ?n" and d: "devices ! i = d" by (auto simp: in_set_conv_nth)
        have "?k \<in> set (map canonical (take m params))" using key_in_block0 [OF tl] .
        then have "?k \<in> set (map canonical (block m i params))" unfolding bs [OF i] .
        then obtain j where j: "j < m" and kj: "canonical (block m i params ! j) = ?k"
          using blen [OF i] by (auto simp: in_set_conv_nth)
        let ?t' = "i * m + j"
        have "Suc i * m \<le> ?n * m" using i by (intro mult_le_mono1) simp
        then have t'l: "?t' < length params" using len j by simp
        have t'd: "?t' div m = i" using j by simp
        have "(canonical (params ! ?t'), devices ! (?t' div m), params ! ?t') \<in> set ?W"
          unfolding Wset using t'l by blast
        then have "(?k, d, params ! ?t') \<in> set ?W"
          using kj bnth [OF i j] t'd d by simp
        then show "d \<in> {d. \<exists>p. (?k, d, p) \<in> set ?W}" by blast
      qed
      then show ?thesis by (simp add: dom_table_of)
    qed
    have lt: "length (table_of ?k ?W []) = ?n"
    proof -
      have "length (table_of ?k ?W []) = length (map fst (table_of ?k ?W []))" by simp
      also have "\<dots> = card (set (map fst (table_of ?k ?W [])))"
        using distinct_card [OF dt] by simp
      also have "\<dots> = card (set devices)" using dom by simp
      also have "\<dots> = ?n" using dist by (simp add: distinct_card)
      finally show ?thesis .
    qed
    have hd0: "hd devices = devices ! 0" using ne by (simp add: hd_conv_nth)
    have t0: "t div m = 0" using tm by simp
    have mem: "(?k, hd devices, params ! t) \<in> set ?W"
      unfolding Wset using tl t0 hd0 by auto
    have uniq: "\<forall>p'. (?k, hd devices, p') \<in> set ?W \<longrightarrow> p' = params ! t"
    proof (intro allI impI)
      fix p' assume "(?k, hd devices, p') \<in> set ?W"
      then obtain t' where t': "t' < length params" and k': "canonical (params ! t') = ?k"
        and dd: "devices ! (t' div m) = hd devices" and p': "p' = params ! t'"
        unfolding Wset by auto
      from pos [OF t'] have "t' div m < ?n" by simp
      with dd hd0 dist n have "t' div m = 0" by (simp add: nth_eq_iff_index_eq)
      then have t'm: "t' < m" using tm by (metis div_eq_0_iff less_nat_zero_code)
      have eq: "map canonical (take m params) ! t' = map canonical (take m params) ! t"
        using k' t'm tm t' tl by simp
      have "t' < length (map canonical (take m params))"
        "t < length (map canonical (take m params))"
        using t'm tm m_le by simp_all
      with d0 eq have "t' = t" using nth_eq_iff_index_eq by blast
      with p' show "p' = params ! t" by simp
    qed
    have val: "map_of (table_of ?k ?W []) (hd devices) = Some (params ! t)"
      using mem uniq by (rule map_of_table_of_single)
    have "distinct (map canonical (take (Suc t) params))"
    proof -
      have "take (Suc t) params = take (Suc t) (take m params)" using tm by (simp add: min_def)
      then have "map canonical (take (Suc t) params) = take (Suc t) (map canonical (take m params))"
        by (simp add: take_map)
      with d0 show ?thesis by (simp add: distinct_take)
    qed
    from first_pos_nth [OF tl this] have fp: "first_pos (fst (G ! t)) params = t"
      using fk by simp
    show "length (snd (G ! t)) = length devices \<and>
           fst ` set (snd (G ! t)) = set devices \<and>
           map_of (snd (G ! t)) (hd devices) = Some (params ! t) \<and>
           first_pos (fst (G ! t)) params = t"
      unfolding tbl by (intro conjI lt dom val fp)
  qed
qed

subsection \<open>Grouping by device and the reduction order\<close>

lemma GroupByDevice_replicated_layout:
  assumes wf: "replicated_layout devices params"
  shows "\<exists>g. GroupByDevice devices params = Inr g \<and>
      length g = length params div length devices \<and>
      map fst g = map canonical (take (length params div length devices) params) \<and>
      (\<forall>kt\<in>set g. length (snd kt) = length devices \<and>
          fst ` set (snd kt) = set devices \<and>
          map_of (snd kt) (hd devices) = Some (params ! first_pos (fst kt) params))"
proof -
  let ?m = "length params div length devices"
  let ?G = "grouping devices ?m 0 params []"
  from wf have ne: "devices \<noteq> []" and dv: "length params mod length devices = 0"
    and hk: "handles_ok devices params"
    by (simp_all add: replicated_layout_def)
  note rg = replicated_grouping [OF wf]
  have each: "length (snd (?G ! t)) = length devices \<and>
       fst ` set (snd (?G ! t)) = set devices \<and>
       map_of (snd (?G ! t)) (hd devices) = Some (params ! t) \<and>
       first_pos (fst (?G ! t)) params = t" if "t < length ?G" for t
    using rg(3) that by blast
  have tc: "tables_complete devices ?G"
    unfolding tables_complete_def using each by (metis in_set_conv_nth)
  have ok: "order_kept devices params ?G"
    unfolding order_kept_def using each by simp
  have run: "GroupByDevice devices params = Inr ?G"
    unfolding GroupByDevice_Inr_iff [OF ne] using dv hk tc ok by blast
  have all: "\<forall>kt\<in>set ?G. length (snd kt) = length devices \<and>
          fst ` set (snd kt) = set devices \<and>
          map_of (snd kt) (hd devices) = Some (params ! first_pos (fst kt) params)"
  proof
    fix kt assume "kt \<in> set ?G"
    then obtain t where t: "t < length ?G" and kt: "?G ! t = kt" by (auto simp: in_set_conv_nth)
    from each [OF t] show "length (snd kt) = length devices \<and>
          fst ` set (snd kt) = set devices \<and>
          map_of (snd kt) (hd devices) = Some (params ! first_pos (fst kt) params)"
      unfolding kt by metis
  qed
  from run rg(1) rg(2) all show ?thesis by blast
qed

text \<open>
  Claim C2, amended. For a non-empty list of pairwise distinct devices and handles laid out in one
  block per device (the number of handles is divisible by the number of devices, every
  handle's name scope carries the namescope \<^verbatim>\<open>gpu_<d>/\<close> of its block's device, and every
  block holds the same pairwise distinct canonical keys), \<^verbatim>\<open>_GroupByDevice\<close> returns
  \<open>|P| / |D|\<close> keys, the keys of the first block in their order, each with exactly \<open>|D|\<close>
  entries, one per device, and the handle filed under the first device is the input at
  the position where the key first occurs.
\<close>

theorem GroupByDevice_groups_replicas:
  assumes "replicated_layout devices params"
  shows "\<exists>g. GroupByDevice devices params = Inr g \<and>
      length g = length params div length devices \<and>
      map fst g = map canonical (take (length params div length devices) params) \<and>
      (\<forall>kt\<in>set g. length (snd kt) = length devices \<and>
          fst ` set (snd kt) = set devices \<and>
          map_of (snd kt) (hd devices) = Some (params ! first_pos (fst kt) params))"
  using assms by (rule GroupByDevice_replicated_layout)

theorem GroupByDevice_groups_replicas_witness:
  "\<exists>g. GroupByDevice [0, 1] two_gpu_params = Inr g \<and> length g = 2 \<and>
     map fst g = [''w'', ''b''] \<and>
     (\<forall>kt\<in>set g. length (snd kt) = 2 \<and> fst ` set (snd kt) = {0, 1} \<and>
        map_of (snd kt) 0 = Some (two_gpu_params ! first_pos (fst kt) two_gpu_params))"
proof -
  have wf: "replicated_layout [0, 1] two_gpu_params" by code_simp
  have l: "length two_gpu_params div length [0::int, 1] = 2" by code_simp
  have k: "map canonical (take 2 two_gpu_params) = [''w'', ''b'']" by code_simp
  from GroupByDevice_groups_replicas [OF wf] obtain g where
    g: "GroupByDevice [0, 1] two_gpu_params = Inr g"
    and a: "length g = length two_gpu_params div length [0::int, 1]"
    and b: "map fst g = map canonical
        (take (length two_gpu_params div length [0::int, 1]) two_gpu_params)"
    and c: "\<forall>kt\<in>set g. length (snd kt) = length [0::int, 1] \<and>
          fst ` set (snd kt) = set [0::int, 1] \<and>
          map_of (snd kt) (hd [0::int, 1]) =
            Some (two_gpu_params ! first_pos (fst kt) two_gpu_params)"
    by blast
  from c have d: "\<forall>kt\<in>set g. length (snd kt) = 2 \<and> fst ` set (snd kt) = {0, 1} \<and>
        map_of (snd kt) 0 = Some (two_gpu_params ! first_pos (fst kt) two_gpu_params)"
    by simp
  from a have e: "length g = 2" unfolding l .
  from b have f: "map fst g = [''w'', ''b'']" unfolding l k .
  show ?thesis
    by (rule exI [of _ g]) (intro conjI g e f d)
qed

text \<open>
  Claim C2 as stated fails. The handles of each input below are laid out in one block per
  entry of the device list, their number is divisible by the number of devices and every
  handle's name scope carries the namescope of its block's device, and yet the call fails:
  with two layers whose parameters share the canonical key \<open>w\<close> the ordering assertion fails;
  with a device that occurs twice, and with blocks that hold different keys, a key is left
  with fewer entries than there are devices; with no device at all the division fails.
\<close>

theorem GroupByDevice_block_layout_counterexample:
  "length nested_params mod length [0::int, 1] = 0 \<and> handles_ok [0, 1] nested_params \<and>
   isl (GroupByDevice [0, 1] nested_params) \<and>
   length [''gpu_0/w'', ''gpu_0/b''] mod length [0::int, 0] = 0 \<and>
   handles_ok [0, 0] [''gpu_0/w'', ''gpu_0/b''] \<and>
   isl (GroupByDevice [0, 0] [''gpu_0/w'', ''gpu_0/b'']) \<and>
   length [''gpu_0/w'', ''gpu_1/b''] mod length [0::int, 1] = 0 \<and>
   handles_ok [0, 1] [''gpu_0/w'', ''gpu_1/b''] \<and>
   isl (GroupByDevice [0, 1] [''gpu_0/w'', ''gpu_1/b'']) \<and>
   isl (GroupByDevice [] [])"
  by code_simp

text \<open>
  Claim C3, amended. For a non-empty device list \<^verbatim>\<open>_GroupByDevice\<close> fails exactly when the
  number of handles is not divisible by the number of devices, or some handle's name has
  no separator or its name scope does not contain the namescope \<^verbatim>\<open>gpu_<d>/\<close> of the device
  of its block, or some key ends up with a number of entries other than \<open>|D|\<close>, or the
  ordering check fails: for some \<open>j\<close> the handle filed under the first device for the \<open>j\<close>-th
  key is not the \<open>j\<close>-th input. On a replicated layout it does not fail.
\<close>

theorem GroupByDevice_fails_iff:
  "(devices \<noteq> [] \<longrightarrow>
      (isl (GroupByDevice devices params) \<longleftrightarrow>
         length params mod length devices \<noteq> 0 \<or>
         \<not> handles_ok devices params \<or>
         \<not> tables_complete devices
              (grouping devices (length params div length devices) 0 params []) \<or>
         \<not> order_kept devices params
              (grouping devices (length params div length devices) 0 params []))) \<and>
   (replicated_layout devices params \<longrightarrow> \<not> isl (GroupByDevice devices params))"
proof (intro conjI impI)
  assume ne: "devices \<noteq> []"
  let ?G = "grouping devices (length params div length devices) 0 params []"
  have "\<not> isl (GroupByDevice devices params) \<longleftrightarrow> (\<exists>g. GroupByDevice devices params = Inr g)"
    by (cases "GroupByDevice devices params") auto
  also have "\<dots> \<longleftrightarrow> length params mod length devices = 0 \<and> handles_ok devices params \<and>
      tables_complete devices ?G \<and> order_kept devices params ?G"
    unfolding GroupByDevice_Inr_iff [OF ne] by auto
  finally have "\<not> isl (GroupByDevice devices params) \<longleftrightarrow>
      length params mod length devices = 0 \<and> handles_ok devices params \<and>
      tables_complete devices ?G \<and> order_kept devices params ?G" .
  then show "isl (GroupByDevice devices params) \<longleftrightarrow>
         length params mod length devices \<noteq> 0 \<or>
         \<not> handles_ok devices params \<or>
         \<not> tables_complete devices ?G \<or>
         \<not> order_kept devices params ?G"
    by auto
next
  assume "replicated_layout devices params"
  from GroupByDevice_replicated_layout [OF this]
  show "\<not> isl (GroupByDevice devices params)" by auto
qed

theorem GroupByDevice_fails_iff_witness:
  "isl (GroupByDevice [0, 1] [''gpu_0/w'', ''gpu_1/w'', ''gpu_1/b'']) \<and>
   isl (GroupByDevice [0, 1] [''gpu_0/w'', ''gpu_0/w'']) \<and>
   \<not> isl (GroupByDevice [0, 1] two_gpu_params)"
proof -
  have ne: "[0::int, 1] \<noteq> []" by simp
  have 1: "length [''gpu_0/w'', ''gpu_1/w'', ''gpu_1/b''] mod length [0::int, 1] \<noteq> 0"
    by code_simp
  have 2: "\<not> handles_ok [0, 1] [''gpu_0/w'', ''gpu_0/w'']" by code_simp
  have 3: "replicated_layout [0, 1] two_gpu_params" by code_simp
  from GroupByDevice_fails_iff [of "[0, 1]" "[''gpu_0/w'', ''gpu_1/w'', ''gpu_1/b'']"] ne 1
  have a: "isl (GroupByDevice [0, 1] [''gpu_0/w'', ''gpu_1/w'', ''gpu_1/b''])" by blast
  from GroupByDevice_fails_iff [of "[0, 1]" "[''gpu_0/w'', ''gpu_0/w'']"] ne 2
  have b: "isl (GroupByDevice [0, 1] [''gpu_0/w'', ''gpu_0/w''])" by blast
  from GroupByDevice_fails_iff [of "[0, 1]" two_gpu_params] 3
  have c: "\<not> isl (GroupByDevice [0, 1] two_gpu_params)" by blast
  from a b c show ?thesis by blast
qed

text \<open>
  Claim C3 as stated fails: with two layers whose parameters share the canonical key \<open>w\<close>,
  the count is divisible, every handle carries the namescope of its block's device and the
  one key has an entry for each device, and yet the ordering assertion fails.
\<close>

theorem GroupByDevice_ordering_counterexample:
  "length nested_params mod length [0::int, 1] = 0 \<and>
   handles_ok [0, 1] nested_params \<and>
   tables_complete [0, 1] (grouping [0, 1] 2 0 nested_params []) \<and>
   GroupByDevice [0, 1] nested_params = Inl (AssertionError [])"
  by code_simp

text \<open>
  Claim C4. The reduction order is the reverse of the gradient names, which are the keys
  of the grouped gradients in the order of their insertion: the canonical names of the
  gradients of the parameters, taken in parameter-list order, each at its first
  occurrence. On a replicated layout this is the reverse of the gradient names of the
  first device's parameters, so parameters \<open>w1, w2, w3\<close> that bind gradients in this order
  are reduced in the order \<open>grad w3, grad w2, grad w1\<close>.
\<close>

theorem reduction_order_reverses_binding:
  "GetReverseOrderedGrads s = rev (m_grad_names s) \<and>
   (register_gradients devices s = (None, s') \<longrightarrow>
      GetReverseOrderedGrads s' = rev (first_occ (map canonical (grads_ordered_of s)))) \<and>
   (replicated_layout devices (grads_ordered_of s) \<longrightarrow>
      (\<exists>s'. register_gradients devices s = (None, s') \<and>
         GetReverseOrderedGrads s' =
           rev (map canonical
                  (take (length (grads_ordered_of s) div length devices) (grads_ordered_of s)))))"
proof (intro conjI impI)
  show "GetReverseOrderedGrads s = rev (m_grad_names s)"
    by (simp add: GetReverseOrderedGrads_def)
next
  assume run: "register_gradients devices s = (None, s')"
  then obtain g where g: "GroupByDevice devices (grads_ordered_of s) = Inr g"
    and names: "m_grad_names s' = map fst g"
    by (auto simp: register_gradients_def split: sum.splits)
  have ne: "devices \<noteq> []"
    using g by (auto simp: GroupByDevice_def)
  from g have "g = grouping devices (length (grads_ordered_of s) div length devices) 0
      (grads_ordered_of s) []"
    unfolding GroupByDevice_Inr_iff [OF ne] by blast
  then have "map fst g = first_occ (map canonical (grads_ordered_of s))"
    by (simp add: keys_grouping)
  with names show "GetReverseOrderedGrads s' = rev (first_occ (map canonical (grads_ordered_of s)))"
    by (simp add: GetReverseOrderedGrads_def)
next
  assume "replicated_layout devices (grads_ordered_of s)"
  from GroupByDevice_replicated_layout [OF this] obtain g where
    g: "GroupByDevice devices (grads_ordered_of s) = Inr g"
    and k: "map fst g = map canonical
       (take (length (grads_ordered_of s) div length devices) (grads_ordered_of s))"
    by blast
  let ?s' = "s\<lparr>m_device_grouped_blobs := dict_update (m_device_grouped_blobs s) g,
               m_grad_names := map fst g\<rparr>"
  have "register_gradients devices s = (None, ?s')"
    using g by (simp add: register_gradients_def)
  moreover have "GetReverseOrderedGrads ?s' = rev (map canonical
       (take (length (grads_ordered_of s) div length devices) (grads_ordered_of s)))"
    using k by (simp add: GetReverseOrderedGrads_def)
  ultimately show "\<exists>s'. register_gradients devices s = (None, s') \<and>
         GetReverseOrderedGrads s' =
           rev (map canonical
                  (take (length (grads_ordered_of s) div length devices) (grads_ordered_of s)))"
    by blast
qed

theorem reduction_order_reverses_binding_witness:
  "\<exists>s'. register_gradients [0] three_params = (None, s') \<and>
     GetReverseOrderedGrads s' = [''w3_grad'', ''w2_grad'', ''w1_grad'']"
proof -
  have wf: "replicated_layout [0] (grads_ordered_of three_params)" by code_simp
  have k: "rev (map canonical
       (take (length (grads_ordered_of three_params) div length [0::int])
          (grads_ordered_of three_params))) = [''w3_grad'', ''w2_grad'', ''w1_grad'']"
    by code_simp
  from reduction_order_reverses_binding [of three_params "[0]"] wf
  show ?thesis unfolding k by blast
qed

end
